theory Spec2Isabelle
  imports Main "HOL-Library.Sublist" "HOL-Library.Char_ord" "HOL-Library.List_Lexorder"
begin

section \<open>Data model (types.ts)\<close>

text \<open>
  The four persisted record types of \<^verbatim>\<open>types.ts\<close>. JavaScript strings are modelled as
  \<open>string\<close>, optional fields as \<open>option\<close>, the string-literal unions as datatypes.
  Field names carry a short prefix where two interfaces share a name or where the name
  is taken in HOL (\<open>id\<close>, \<open>length\<close>).
\<close>

datatype ApiKeySource = Environment | Custom

record Settings =
  theme :: string
  apiKeySource :: ApiKeySource
  apiKey :: string
  hasSeenWelcome :: "bool option"

datatype Style = StyleDefault | Anime | Realistic

datatype Length = LengthDefault | Short | Long

datatype Mode = Text | JSON

record HistoryConfig =
  cfg_style :: Style
  cfg_length :: Length
  cfg_isJsonMode :: bool
  cfg_useReasoning :: bool
  cfg_useMarsLsp :: bool

record HistoryItem =
  h_id :: string
  userPrompt :: string
  generatedPrompt :: string
  timestamp :: int
  model :: string
  mode :: Mode
  config :: "HistoryConfig option"
  referencedTemplates :: "string list option"
  referencedBundles :: "string list option"

record PromptTemplate =
  t_id :: string
  title :: string
  description :: string
  prompt :: string
  tags :: "string list"
  models :: "string list"
  exampleVideo :: "string option"
  exampleVideoType :: "string option"

record BundledTemplate =
  b_id :: string
  name :: string
  b_description :: string
  templateIds :: "string list"

section \<open>Reference Resolver (handleSubmit, reference computation)\<close>

text \<open>
  A JavaScript \<^verbatim>\<open>Map\<close> keeps its entries in insertion order; \<^verbatim>\<open>set\<close> on a key that is
  already present replaces the value and leaves the entry where it is. \<^verbatim>\<open>new Map(entries)\<close>
  calls \<^verbatim>\<open>set\<close> for each entry from left to right, \<^verbatim>\<open>values()\<close> lists the values in
  entry order.
\<close>

definition Map_set :: "('k \<times> 'v) list \<Rightarrow> 'k \<Rightarrow> 'v \<Rightarrow> ('k \<times> 'v) list" where
  "Map_set m k v =
     (if k \<in> fst ` set m
      then map (\<lambda>e. if fst e = k then (k, v) else e) m
      else m @ [(k, v)])"

definition new_Map :: "('k \<times> 'v) list \<Rightarrow> ('k \<times> 'v) list" where
  "new_Map entries = fold (\<lambda>e m. Map_set m (fst e) (snd e)) entries []"

definition Map_values :: "('k \<times> 'v) list \<Rightarrow> 'v list" where
  "Map_values m = map snd m"

text \<open>
  \<^verbatim>\<open>allTemplates.filter(t => selectedTags.some(tag => t.tags.includes(tag)))\<close>
\<close>

definition templatesFromTags :: "PromptTemplate list \<Rightarrow> string list \<Rightarrow> PromptTemplate list" where
  "templatesFromTags allTemplates selectedTags =
     filter (\<lambda>t. list_ex (\<lambda>tag. tag \<in> set (tags t)) selectedTags) allTemplates"

text \<open>
  \<^verbatim>\<open>allTemplates.filter(t => selectedBundles.some(bundle => bundle.templateIds.includes(t.id)))\<close>
\<close>

definition templatesFromBundles ::
  "PromptTemplate list \<Rightarrow> BundledTemplate list \<Rightarrow> PromptTemplate list" where
  "templatesFromBundles allTemplates selectedBundles =
     filter (\<lambda>t. list_ex (\<lambda>bundle. t_id t \<in> set (templateIds bundle)) selectedBundles) allTemplates"

text \<open>The spread of the three lists, in the order the source writes them.\<close>

definition referenceCandidates ::
  "PromptTemplate list \<Rightarrow> string list \<Rightarrow> BundledTemplate list \<Rightarrow> PromptTemplate list
     \<Rightarrow> PromptTemplate list" where
  "referenceCandidates allTemplates selectedTags selectedBundles selectedIndividualTemplates =
     templatesFromTags allTemplates selectedTags
     @ templatesFromBundles allTemplates selectedBundles
     @ selectedIndividualTemplates"

definition allReferencedTemplates ::
  "PromptTemplate list \<Rightarrow> string list \<Rightarrow> BundledTemplate list \<Rightarrow> PromptTemplate list
     \<Rightarrow> PromptTemplate list" where
  "allReferencedTemplates allTemplates selectedTags selectedBundles selectedIndividualTemplates =
     Map_values (new_Map (map (\<lambda>item. (t_id item, item))
       (referenceCandidates allTemplates selectedTags selectedBundles selectedIndividualTemplates)))"

text \<open>
  The specification's wording of the deduplication: walk the list once, keep a template
  when its identifier has not been seen before.
\<close>

fun spec_dedupById :: "string list \<Rightarrow> PromptTemplate list \<Rightarrow> PromptTemplate list" where
  "spec_dedupById seen [] = []"
| "spec_dedupById seen (t # ts) =
     (if t_id t \<in> set seen then spec_dedupById seen ts
      else t # spec_dedupById (t_id t # seen) ts)"


section \<open>Generation Client (streamEnhancePrompt)\<close>

text \<open>
  Template literals render a boolean as \<^verbatim>\<open>true\<close> or \<^verbatim>\<open>false\<close> and a member of a
  string-literal union as the literal itself.
\<close>

definition bool_str :: "bool \<Rightarrow> string" where
  "bool_str b = (if b then ''true'' else ''false'')"

fun Style_str :: "Style \<Rightarrow> string" where
  "Style_str StyleDefault = ''default''"
| "Style_str Anime = ''anime''"
| "Style_str Realistic = ''realistic''"

fun Length_str :: "Length \<Rightarrow> string" where
  "Length_str LengthDefault = ''default''"
| "Length_str Short = ''short''"
| "Length_str Long = ''long''"

record Media =
  base64 :: string
  mimeType :: string

record StreamRequest =
  req_prompt :: string
  req_isJsonMode :: bool
  req_useMarsLsp :: bool
  req_style :: Style
  req_length :: Length
  req_thinkingBudget :: nat
  req_apiKey :: string
  req_media :: "Media option"
  req_referencedTemplates :: "PromptTemplate list option"

text \<open>\<^verbatim>\<open>Array.prototype.join\<close>: the elements separated by the separator.\<close>

fun join :: "string \<Rightarrow> string list \<Rightarrow> string" where
  "join sep [] = []"
| "join sep [x] = x"
| "join sep (x # y # ys) = x @ sep @ join sep (y # ys)"

text \<open>The callback of \<^verbatim>\<open>referencedTemplates.map\<close>: one serialized reference.\<close>

definition serializeReference :: "PromptTemplate \<Rightarrow> string" where
  \<open>serializeReference t =
     ''--- REFERENCE TEMPLATE: "'' @ title t @ ''" ---\<newline>'' @ prompt t\<close>

text \<open>
  The specification's wording of one serialized reference: the label, the title, a line
  break, the prompt body.
\<close>

definition spec_serializeReference :: "PromptTemplate \<Rightarrow> string" where
  "spec_serializeReference t = ''REFERENCE TEMPLATE: '' @ title t @ ''\<newline>'' @ prompt t"

text \<open>
  The first \<^verbatim>\<open>if\<close> of the request text: the reference block, empty when the list is
  missing or empty.
\<close>

definition referenceBlock :: "PromptTemplate list option \<Rightarrow> string" where
  "referenceBlock refs =
     (case refs of
        None \<Rightarrow> []
      | Some ts \<Rightarrow>
          if length ts > 0
          then ''Use the following templates as creative inspiration:\<newline>\<newline>''
               @ join ''\<newline>\<newline>'' (map serializeReference ts)
               @ ''\<newline>\<newline>''
          else [])"

text \<open>\<^verbatim>\<open>userRequestText\<close>, one line of the definition per \<^verbatim>\<open>+=\<close> of the source.\<close>

definition userRequestText :: "StreamRequest \<Rightarrow> string" where
  \<open>userRequestText r =
     referenceBlock (req_referencedTemplates r)
     @ ''--- USER REQUEST & CREATIVE CONTROLS ---\<newline>''
     @ (''jsonModeEnabled: '' @ bool_str (req_isJsonMode r) @ ''\<newline>'')
     @ (''marsLspEnabled: '' @ bool_str (req_useMarsLsp r) @ ''\<newline>'')
     @ (''style: '' @ Style_str (req_style r) @ ''\<newline>'')
     @ (if req_isJsonMode r \<or> req_useMarsLsp r
        then ''length: '' @ Length_str (req_length r) @ ''\<newline>''
        else [])
     @ (''\<newline>User's basic prompt: "'' @ req_prompt r
        @ ''"\<newline>\<newline>Enhanced prompt, JSON object, or video description:'')\<close>

text \<open>
  The parts of the outbound call. The system prompt is a static asset of several hundred
  lines and is taken as a parameter.
\<close>

datatype Part = TextPart string | InlineData string string

record GenerateContentCall =
  call_apiKey :: string
  call_model :: string
  call_parts :: "Part list"
  call_thinkingBudget :: nat

definition streamEnhancePrompt_call :: "string \<Rightarrow> StreamRequest \<Rightarrow> GenerateContentCall" where
  "streamEnhancePrompt_call SYSTEM_PROMPT r =
     \<lparr> call_apiKey = req_apiKey r,
       call_model = ''gemini-2.5-flash'',
       call_parts =
         [TextPart SYSTEM_PROMPT]
         @ (case req_media r of None \<Rightarrow> [] | Some m \<Rightarrow> [InlineData (base64 m) (mimeType m)])
         @ [TextPart (userRequestText r)],
       call_thinkingBudget = req_thinkingBudget r \<rparr>"

text \<open>
  What the backend answers to one call: the call itself fails, or it returns a stream that
  yields chunks (each with an optional text) and then ends, normally (\<open>None\<close>) or with an
  error (\<open>Some message\<close>).
\<close>

datatype StreamResult = CallFailed string | Stream "string option list" "string option"

section \<open>Local Store (services/db.ts) and the binding hook (useIndexedDB)\<close>

text \<open>
  An object store with an in-line key path holds at most one record per key, and
  \<^verbatim>\<open>getAll\<close> lists the records in key order. A store is modelled as the list of its records
  in key order; the key path is the function \<open>key\<close>. Writes are modelled as completed
  when the operation returns.
\<close>

definition store_put :: "('a \<Rightarrow> string) \<Rightarrow> 'a \<Rightarrow> 'a list \<Rightarrow> 'a list" where
  "store_put key x S = insort_key key x (filter (\<lambda>y. key y \<noteq> key x) S)"

definition getStoreData :: "'a list \<Rightarrow> 'a list" where
  "getStoreData S = S"

definition getSingleObject :: "('a \<Rightarrow> string) \<Rightarrow> 'a list \<Rightarrow> string \<Rightarrow> 'a option" where
  "getSingleObject key S k = find (\<lambda>e. key e = k) S"

definition setStoreData :: "('a \<Rightarrow> string) \<Rightarrow> 'a list \<Rightarrow> 'a list" where
  "setStoreData key data = fold (store_put key) data []"

definition setSingleObject :: "('a \<Rightarrow> string) \<Rightarrow> 'a \<Rightarrow> 'a list \<Rightarrow> 'a list" where
  "setSingleObject key data S = store_put key data S"

definition clearStore :: "'a list \<Rightarrow> 'a list" where
  "clearStore S = []"

record SettingsEntry =
  entry_key :: string
  entry_value :: Settings

datatype ToastType = Success | Error

record Toast =
  message :: string
  toast_type :: ToastType

text \<open>
  The state of \<^verbatim>\<open>App\<close>: the four in-memory collections returned by
  \<^verbatim>\<open>useIndexedDB\<close>, the four object stores of the database, and the notifications shown
  so far.
\<close>

record AppState =
  settings :: Settings
  history :: "HistoryItem list"
  templates :: "PromptTemplate list"
  bundles :: "BundledTemplate list"
  db_settings :: "SettingsEntry list"
  db_history :: "HistoryItem list"
  db_templates :: "PromptTemplate list"
  db_bundles :: "BundledTemplate list"
  toasts :: "Toast list"

definition showToast :: "Toast \<Rightarrow> AppState \<Rightarrow> AppState" where
  "showToast t st = st\<lparr>toasts := toasts st @ [t]\<rparr>"

text \<open>
  \<^verbatim>\<open>setValue\<close> of the hook, one instance per collection: the updater is applied to the
  current value, the result becomes the in-memory value and is written through
  (\<^verbatim>\<open>setStoreData\<close> for the arrays, \<^verbatim>\<open>setSingleObject\<close> under the fixed key for settings).
\<close>

definition setSettings :: "(Settings \<Rightarrow> Settings) \<Rightarrow> AppState \<Rightarrow> AppState" where
  "setSettings f st =
     (let valueToStore = f (settings st)
      in st\<lparr>settings := valueToStore,
            db_settings := setSingleObject entry_key
              \<lparr>entry_key = ''user-settings'', entry_value = valueToStore\<rparr> (db_settings st)\<rparr>)"

definition setHistory :: "(HistoryItem list \<Rightarrow> HistoryItem list) \<Rightarrow> AppState \<Rightarrow> AppState" where
  "setHistory f st =
     (let valueToStore = f (history st)
      in st\<lparr>history := valueToStore, db_history := setStoreData h_id valueToStore\<rparr>)"

definition setTemplates ::
  "(PromptTemplate list \<Rightarrow> PromptTemplate list) \<Rightarrow> AppState \<Rightarrow> AppState" where
  "setTemplates f st =
     (let valueToStore = f (templates st)
      in st\<lparr>templates := valueToStore, db_templates := setStoreData t_id valueToStore\<rparr>)"

definition setBundles ::
  "(BundledTemplate list \<Rightarrow> BundledTemplate list) \<Rightarrow> AppState \<Rightarrow> AppState" where
  "setBundles f st =
     (let valueToStore = f (bundles st)
      in st\<lparr>bundles := valueToStore, db_bundles := setStoreData b_id valueToStore\<rparr>)"

text \<open>
  \<^verbatim>\<open>loadData\<close> of the hook: an array collection takes the stored records unless the store is
  empty, the settings take the stored singleton unless it is absent.
\<close>

definition loadArray :: "'a list \<Rightarrow> 'a list \<Rightarrow> 'a list" where
  "loadArray initialValue S =
     (let data = getStoreData S in if length data > 0 then data else initialValue)"

definition loadSettings :: "Settings \<Rightarrow> SettingsEntry list \<Rightarrow> Settings" where
  "loadSettings initialValue S =
     (case getSingleObject entry_key S ''user-settings'' of
        Some data \<Rightarrow> entry_value data
      | None \<Rightarrow> initialValue)"

definition initialSettings :: "bool \<Rightarrow> Settings" where
  "initialSettings isAistudio =
     \<lparr> theme = ''dark'',
       apiKeySource = (if isAistudio then Environment else Custom),
       apiKey = [],
       hasSeenWelcome = Some False \<rparr>"

text \<open>The application mounted on a database: every collection loaded by the hook.\<close>

definition mountApp ::
  "bool \<Rightarrow> SettingsEntry list \<Rightarrow> HistoryItem list \<Rightarrow> PromptTemplate list
     \<Rightarrow> BundledTemplate list \<Rightarrow> AppState" where
  "mountApp isAistudio S H T B =
     \<lparr> settings = loadSettings (initialSettings isAistudio) S,
       history = loadArray [] H,
       templates = loadArray [] T,
       bundles = loadArray [] B,
       db_settings = S, db_history = H, db_templates = T, db_bundles = B,
       toasts = [] \<rparr>"

definition emptyStoreApp :: "bool \<Rightarrow> AppState" where
  "emptyStoreApp isAistudio = mountApp isAistudio [] [] [] []"


section \<open>Generation (handleSubmit)\<close>

record MediaFile =
  file_name :: string
  file_type :: string

text \<open>
  The props and component state that \<^verbatim>\<open>handleSubmit\<close> reads, and the three pieces of
  component state it writes.
\<close>

record PromptView =
  pv_prompt :: string
  pv_media :: "MediaFile option"
  pv_isJsonMode :: bool
  pv_useMarsLsp :: bool
  pv_useReasoning :: bool
  pv_style :: Style
  pv_length :: Length
  pv_selectedTags :: "string list"
  pv_selectedBundles :: "BundledTemplate list"
  pv_selectedIndividualTemplates :: "PromptTemplate list"
  pv_isLoading :: bool
  pv_generatedPrompt :: string
  pv_error :: "string option"

record Metadata =
  md_title :: string
  md_description :: string
  md_tags :: "string list"

record BatchMetadataRequest =
  bm_prompts :: "string list"
  bm_guidance :: string
  bm_existingTags :: "string list"
  bm_apiKey :: string

text \<open>
  What comes back from one metadata call: the call or the parsing of its text fails with a
  message, or the parsed object has no \<^verbatim>\<open>templates\<close>, or it has an array of results.
\<close>

datatype BatchResponse =
  BatchFailed string | BatchNoTemplates | BatchTemplates "Metadata list"

text \<open>
  Everything outside the program that a run depends on: the host environment, the file
  reader, the generative backend (streaming and metadata calls), the identifier generator (its
  n-th call within a run) and the clock. A thrown error
  is its message (\<^verbatim>\<open>e.message\<close>, empty when there is none).
\<close>

record Env =
  env_isAistudio :: bool
  env_API_KEY :: "string option"
  env_fileToBase64 :: "MediaFile \<Rightarrow> string + Media"
  env_generateContentStream :: "GenerateContentCall \<Rightarrow> StreamResult"
  env_generateContent :: "BatchMetadataRequest \<Rightarrow> BatchResponse"
  env_randomUUID :: "nat \<Rightarrow> string"
  env_now :: int
  env_SYSTEM_PROMPT :: string

definition apiKeyToUse :: "Env \<Rightarrow> Settings \<Rightarrow> string" where
  "apiKeyToUse env s =
     (if env_isAistudio env \<and> apiKeySource s = Environment
      then (case env_API_KEY env of None \<Rightarrow> [] | Some k \<Rightarrow> k)
      else apiKey s)"

text \<open>\<^verbatim>\<open>e.message || 'An unknown error occurred.'\<close>\<close>

definition errorMessage :: "string \<Rightarrow> string" where
  "errorMessage msg = (if msg = [] then ''An unknown error occurred.'' else msg)"

text \<open>
  The \<^verbatim>\<open>for await\<close> loop: a chunk whose text is missing or empty is skipped, any other
  text is appended to \<^verbatim>\<open>fullResponse\<close>.
\<close>

fun accumulate :: "string \<Rightarrow> string option list \<Rightarrow> string" where
  "accumulate fullResponse [] = fullResponse"
| "accumulate fullResponse (chunk # chunks) =
     (case chunk of
        None \<Rightarrow> accumulate fullResponse chunks
      | Some text \<Rightarrow>
          if text \<noteq> [] then accumulate (fullResponse @ text) chunks
          else accumulate fullResponse chunks)"

definition userPromptForHistory :: "string \<Rightarrow> MediaFile option \<Rightarrow> string" where
  "userPromptForHistory p m =
     (case m of
        Some f \<Rightarrow> (if p \<noteq> [] then p @ '' (media: '' @ file_name f @ '')''
                   else ''Media: '' @ file_name f)
      | None \<Rightarrow> p)"

definition newHistoryItem ::
  "Env \<Rightarrow> PromptView \<Rightarrow> PromptTemplate list \<Rightarrow> string \<Rightarrow> HistoryItem" where
  "newHistoryItem env pv refs fullResponse =
     \<lparr> h_id = env_randomUUID env 0,
       userPrompt = userPromptForHistory (pv_prompt pv) (pv_media pv),
       generatedPrompt = fullResponse,
       timestamp = env_now env,
       model = ''gemini-2.5-flash'',
       mode = (if pv_isJsonMode pv then JSON else Text),
       config = Some \<lparr> cfg_style = pv_style pv, cfg_length = pv_length pv,
                       cfg_isJsonMode = pv_isJsonMode pv, cfg_useReasoning = pv_useReasoning pv,
                       cfg_useMarsLsp = pv_useMarsLsp pv \<rparr>,
       referencedTemplates = Some (map t_id refs),
       referencedBundles = Some (map b_id (pv_selectedBundles pv)) \<rparr>"

definition submitRequest ::
  "PromptView \<Rightarrow> string \<Rightarrow> Media option \<Rightarrow> PromptTemplate list \<Rightarrow> StreamRequest" where
  "submitRequest pv key mediaData refs =
     \<lparr> req_prompt = pv_prompt pv,
       req_isJsonMode = pv_isJsonMode pv,
       req_useMarsLsp = pv_useMarsLsp pv,
       req_style = pv_style pv,
       req_length = pv_length pv,
       req_thinkingBudget = (if pv_useReasoning pv then 24576 else 0),
       req_apiKey = key,
       req_media = mediaData,
       req_referencedTemplates = Some refs \<rparr>"

text \<open>
  The result of one run: the component state, the application state and the calls made
  to the backend, in order.
\<close>

record SubmitResult =
  res_view :: PromptView
  res_app :: AppState
  res_calls :: "GenerateContentCall list"

definition handleSubmit :: "Env \<Rightarrow> PromptView \<Rightarrow> AppState \<Rightarrow> SubmitResult" where
  "handleSubmit env pv st =
     (if pv_prompt pv = [] \<and> pv_media pv = None
      then \<lparr> res_view = pv\<lparr>pv_error := Some ''Please enter a prompt or upload media.''\<rparr>,
             res_app = st, res_calls = [] \<rparr>
      else
        let pv1 = pv\<lparr>pv_isLoading := True, pv_generatedPrompt := [], pv_error := None\<rparr>;
            key = apiKeyToUse env (settings st)
        in if key = []
           then \<lparr> res_view = pv1\<lparr>pv_error :=
                      Some ''API Key is missing. Please configure it in settings.'',
                      pv_isLoading := False\<rparr>,
                  res_app = st, res_calls = [] \<rparr>
           else
             let refs = allReferencedTemplates (templates st) (pv_selectedTags pv)
                          (pv_selectedBundles pv) (pv_selectedIndividualTemplates pv)
             in case (case pv_media pv of
                        None \<Rightarrow> Inr None
                      | Some f \<Rightarrow> (case env_fileToBase64 env f of
                                     Inl msg \<Rightarrow> Inl msg
                                   | Inr m \<Rightarrow> Inr (Some m))) of
                  Inl msg \<Rightarrow>
                    \<lparr> res_view = pv1\<lparr>pv_error := Some (errorMessage msg), pv_isLoading := False\<rparr>,
                      res_app = st, res_calls = [] \<rparr>
                | Inr mediaData \<Rightarrow>
                    let call = streamEnhancePrompt_call (env_SYSTEM_PROMPT env)
                                 (submitRequest pv key mediaData refs)
                    in case env_generateContentStream env call of
                         CallFailed msg \<Rightarrow>
                           \<lparr> res_view = pv1\<lparr>pv_error := Some (errorMessage msg),
                                              pv_isLoading := False\<rparr>,
                             res_app = st, res_calls = [call] \<rparr>
                       | Stream chunks ending \<Rightarrow>
                           let fullResponse = accumulate [] chunks;
                               pv2 = pv1\<lparr>pv_generatedPrompt := fullResponse\<rparr>
                           in case ending of
                                Some msg \<Rightarrow>
                                  \<lparr> res_view = pv2\<lparr>pv_error := Some (errorMessage msg),
                                                     pv_isLoading := False\<rparr>,
                                    res_app = st, res_calls = [call] \<rparr>
                              | None \<Rightarrow>
                                  \<lparr> res_view = pv2\<lparr>pv_isLoading := False\<rparr>,
                                    res_app =
                                      (if fullResponse \<noteq> []
                                       then setHistory
                                              (\<lambda>prev. newHistoryItem env pv refs fullResponse # prev) st
                                       else st),
                                    res_calls = [call] \<rparr>)"

section \<open>Batch metadata (generateBatchTemplateMetadata, handleGenerateAndSave)\<close>

definition generateBatchTemplateMetadata ::
  "(BatchMetadataRequest \<Rightarrow> BatchResponse) \<Rightarrow> BatchMetadataRequest \<Rightarrow> string + Metadata list" where
  "generateBatchTemplateMetadata generateContent r =
     (case generateContent r of
        BatchFailed msg \<Rightarrow> Inl msg
      | BatchNoTemplates \<Rightarrow> Inl ''AI returned a mismatched number of templates.''
      | BatchTemplates ms \<Rightarrow>
          if length ms \<noteq> length (bm_prompts r)
          then Inl ''AI returned a mismatched number of templates.''
          else Inr ms)"

text \<open>
  \<^verbatim>\<open>String.prototype.trim\<close> strips white space and line terminators. Of these, the ones
  with a code below 256 are tab, line feed, vertical tab, form feed, carriage return, space
  and the no-break space U+00A0.
\<close>

definition isWhiteSpace :: "char \<Rightarrow> bool" where
  "isWhiteSpace c =
     (c \<in> set [CHR 0x09, CHR 0x0A, CHR 0x0B, CHR 0x0C, CHR 0x0D, CHR 0x20, CHR 0xA0])"

definition trim :: "string \<Rightarrow> string" where
  "trim s = rev (dropWhile isWhiteSpace (rev (dropWhile isWhiteSpace s)))"

record BatchAddModal =
  ba_prompts :: "(string \<times> string) list"
  ba_guidance :: string
  ba_existingTags :: "string list"
  ba_isGenerating :: bool
  ba_isOpen :: bool

text \<open>
  \<^verbatim>\<open>nonEmptyPrompts.map((prompt, index) => ...)\<close>: the template for the prompt at
  \<open>index\<close> reads \<^verbatim>\<open>metadataArray[index]\<close>; reading a field of a missing element throws.
\<close>

fun newTemplates ::
  "(nat \<Rightarrow> string) \<Rightarrow> Metadata list \<Rightarrow> nat \<Rightarrow> string list \<Rightarrow> string + PromptTemplate list" where
  "newTemplates uuid metadataArray index [] = Inr []"
| "newTemplates uuid metadataArray index (p # ps) =
     (if index < length metadataArray
      then (case newTemplates uuid metadataArray (Suc index) ps of
              Inl msg \<Rightarrow> Inl msg
            | Inr ts \<Rightarrow>
                Inr (\<lparr> t_id = uuid index,
                       title = md_title (metadataArray ! index),
                       description = md_description (metadataArray ! index),
                       prompt = p,
                       tags = md_tags (metadataArray ! index),
                       models = [''Sora 2.2''],
                       exampleVideo = None,
                       exampleVideoType = None \<rparr> # ts))
      else Inl ''Cannot read properties of undefined'')"

text \<open>A number in a template literal: its decimal digits.\<close>

fun nat_str :: "nat \<Rightarrow> string" where
  "nat_str n =
     (if n < 10 then [char_of (48 + n)]
      else nat_str (n div 10) @ [char_of (48 + n mod 10)])"

text \<open>\<^verbatim>\<open>onSave\<close> of the modal: \<^verbatim>\<open>handleSaveBatchTemplates\<close>.\<close>

definition handleSaveBatchTemplates :: "PromptTemplate list \<Rightarrow> AppState \<Rightarrow> AppState" where
  "handleSaveBatchTemplates ts st =
     showToast \<lparr> message = nat_str (length ts) @ '' templates added successfully!'', toast_type = Success \<rparr>
       (setTemplates (\<lambda>prev. ts @ prev) st)"


record BatchResult =
  br_modal :: BatchAddModal
  br_app :: AppState
  br_calls :: "BatchMetadataRequest list"

definition handleGenerateAndSave :: "Env \<Rightarrow> BatchAddModal \<Rightarrow> AppState \<Rightarrow> BatchResult" where
  "handleGenerateAndSave env m st =
     (let nonEmptyPrompts = map snd (filter (\<lambda>p. trim (snd p) \<noteq> []) (ba_prompts m))
      in if length nonEmptyPrompts = 0
         then \<lparr> br_modal = m,
                br_app = showToast \<lparr> message = ''Please add at least one prompt.'',
                                      toast_type = Error \<rparr> st,
                br_calls = [] \<rparr>
         else
           let key = apiKeyToUse env (settings st)
           in if key = []
              then \<lparr> br_modal = m\<lparr>ba_isGenerating := False\<rparr>,
                     br_app = showToast
                       \<lparr> message = ''API Key is missing. Please configure it in settings.'',
                         toast_type = Error \<rparr> st,
                     br_calls = [] \<rparr>
              else
                let r = \<lparr> bm_prompts = nonEmptyPrompts, bm_guidance = ba_guidance m,
                          bm_existingTags = ba_existingTags m, bm_apiKey = key \<rparr>;
                    failed = (\<lambda>msg.
                      \<lparr> br_modal = m\<lparr>ba_isGenerating := False\<rparr>,
                        br_app = showToast
                          \<lparr> message = (if msg = [] then ''Failed to generate metadata.'' else msg),
                            toast_type = Error \<rparr> st,
                        br_calls = [r] \<rparr>)
                in case generateBatchTemplateMetadata (env_generateContent env) r of
                     Inl msg \<Rightarrow> failed msg
                   | Inr metadataArray \<Rightarrow>
                       (case newTemplates (env_randomUUID env) metadataArray 0 nonEmptyPrompts of
                          Inl msg \<Rightarrow> failed msg
                        | Inr ts \<Rightarrow>
                            \<lparr> br_modal = m\<lparr>ba_isOpen := False, ba_isGenerating := False\<rparr>,
                              br_app = handleSaveBatchTemplates ts st,
                              br_calls = [r] \<rparr>))"

section \<open>Import and export (handleExportData, handleImportFileChange)\<close>

text \<open>The \<^verbatim>\<open>Record<string, boolean>\<close> of the options dialogs.\<close>

record Options =
  opt_settings :: bool
  opt_history :: bool
  opt_templates :: bool
  opt_bundles :: bool

text \<open>
  The options a dialog can pass on. \<^verbatim>\<open>ExportOptionsModal\<close> starts with every box ticked
  and toggles any of them. \<^verbatim>\<open>ImportOptionsModal\<close> starts with settings off and the
  three arrays on; its toggle returns at once for settings, whose box is disabled.
\<close>

datatype OptionKey = KeySettings | KeyHistory | KeyTemplates | KeyBundles

definition exportDialogInitial :: Options where
  "exportDialogInitial =
     \<lparr> opt_settings = True, opt_history = True, opt_templates = True, opt_bundles = True \<rparr>"

fun exportDialogToggle :: "OptionKey \<Rightarrow> Options \<Rightarrow> Options" where
  "exportDialogToggle KeySettings prev = prev\<lparr>opt_settings := \<not> opt_settings prev\<rparr>"
| "exportDialogToggle KeyHistory prev = prev\<lparr>opt_history := \<not> opt_history prev\<rparr>"
| "exportDialogToggle KeyTemplates prev = prev\<lparr>opt_templates := \<not> opt_templates prev\<rparr>"
| "exportDialogToggle KeyBundles prev = prev\<lparr>opt_bundles := \<not> opt_bundles prev\<rparr>"

definition importDialogInitial :: Options where
  "importDialogInitial =
     \<lparr> opt_settings = False, opt_history = True, opt_templates = True, opt_bundles = True \<rparr>"

fun importDialogToggle :: "OptionKey \<Rightarrow> Options \<Rightarrow> Options" where
  "importDialogToggle KeySettings prev = prev"
| "importDialogToggle KeyHistory prev = prev\<lparr>opt_history := \<not> opt_history prev\<rparr>"
| "importDialogToggle KeyTemplates prev = prev\<lparr>opt_templates := \<not> opt_templates prev\<rparr>"
| "importDialogToggle KeyBundles prev = prev\<lparr>opt_bundles := \<not> opt_bundles prev\<rparr>"

text \<open>
  \<^verbatim>\<open>exportData\<close>: a key is absent (\<open>None\<close>) unless its option is selected; the settings
  value is \<^verbatim>\<open>null\<close> (\<open>Some None\<close>) when the store has no singleton.
\<close>

record ExportData =
  ex_settings :: "SettingsEntry option option"
  ex_history :: "HistoryItem list option"
  ex_templates :: "PromptTemplate list option"
  ex_bundles :: "BundledTemplate list option"

definition exportData :: "Options \<Rightarrow> AppState \<Rightarrow> ExportData" where
  "exportData options st =
     \<lparr> ex_settings =
         (if opt_settings options
          then Some (getSingleObject entry_key (db_settings st) ''user-settings'')
          else None),
       ex_history =
         (if opt_history options then Some (getStoreData (db_history st)) else None),
       ex_templates =
         (if opt_templates options then Some (getStoreData (db_templates st)) else None),
       ex_bundles =
         (if opt_bundles options then Some (getStoreData (db_bundles st)) else None) \<rparr>"

text \<open>The top-level keys of the exported object (\<^verbatim>\<open>Object.keys\<close>).\<close>

definition exportKeys :: "ExportData \<Rightarrow> string list" where
  "exportKeys d =
     (if ex_settings d \<noteq> None then [''settings''] else [])
     @ (if ex_history d \<noteq> None then [''history''] else [])
     @ (if ex_templates d \<noteq> None then [''templates''] else [])
     @ (if ex_bundles d \<noteq> None then [''bundles''] else [])"

text \<open>
  \<^verbatim>\<open>handleExportData\<close>: the document offered for download, if any, and the state with
  the notification.
\<close>

definition handleExportData :: "Options \<Rightarrow> AppState \<Rightarrow> ExportData option \<times> AppState" where
  "handleExportData options st =
     (let d = exportData options st
      in if length (exportKeys d) = 0
         then (None, showToast \<lparr> message = ''Nothing selected to export.'',
                                  toast_type = Error \<rparr> st)
         else (Some d, showToast \<lparr> message = ''Data exported successfully!'',
                                    toast_type = Success \<rparr> st))"

text \<open>
  What \<^verbatim>\<open>handleImportFileChange\<close> can find in the chosen file. The reader's result is not
  a string; or \<^verbatim>\<open>JSON.parse\<close> throws; or the parsed value is not an object, so that the
  \<^verbatim>\<open>in\<close> operator throws on it; or it is an object. In an object, the value under an array
  key is missing, not an array, or an array of records; the value under \<^verbatim>\<open>settings\<close> is
  missing, falsy, a stored entry, or a value that the settings store rejects.
\<close>

datatype 'a ArrayField = FieldAbsent | FieldNotArray | FieldArray "'a list"

datatype SettingsField =
  SettingsAbsent | SettingsFalsy | SettingsObject SettingsEntry | SettingsRejected

record ImportedData =
  im_settings :: SettingsField
  im_history :: "HistoryItem ArrayField"
  im_templates :: "PromptTemplate ArrayField"
  im_bundles :: "BundledTemplate ArrayField"

datatype FileContent = NotText | SyntaxError | NonObject | Document ImportedData

text \<open>
  The file written by an export, read back: \<^verbatim>\<open>JSON.parse(JSON.stringify(exportData))\<close>.
  Serialization is the JavaScript runtime's; on records of strings, booleans, integers and
  arrays it gives back the value it was given.
\<close>

definition parse_stringify :: "ExportData \<Rightarrow> FileContent" where
  "parse_stringify d =
     Document
       \<lparr> im_settings = (case ex_settings d of
                          None \<Rightarrow> SettingsAbsent
                        | Some None \<Rightarrow> SettingsFalsy
                        | Some (Some e) \<Rightarrow> SettingsObject e),
         im_history = (case ex_history d of None \<Rightarrow> FieldAbsent | Some xs \<Rightarrow> FieldArray xs),
         im_templates = (case ex_templates d of None \<Rightarrow> FieldAbsent | Some xs \<Rightarrow> FieldArray xs),
         im_bundles = (case ex_bundles d of None \<Rightarrow> FieldAbsent | Some xs \<Rightarrow> FieldArray xs) \<rparr>"

text \<open>The updater passed to each array setter on import.\<close>

definition mergeById :: "('a \<Rightarrow> string) \<Rightarrow> 'a list \<Rightarrow> 'a list \<Rightarrow> 'a list" where
  "mergeById key incoming prev =
     (let existingIds = set (map key prev);
          newItems = filter (\<lambda>item. key item \<notin> existingIds) incoming;
          combined = prev @ newItems
      in combined)"

definition importFailed :: "AppState \<Rightarrow> AppState" where
  "importFailed st =
     showToast \<lparr> message = ''Failed to read or process the backup file.'',
                 toast_type = Error \<rparr> st"

definition importSucceeded :: "AppState \<Rightarrow> AppState" where
  "importSucceeded st =
     showToast \<lparr> message = ''Data imported successfully!'', toast_type = Success \<rparr> st"

text \<open>
  The settings step: the entry is written under its own key, then the in-memory settings
  are set to its value. \<open>None\<close> when the write throws.
\<close>

definition importSettings :: "Options \<Rightarrow> ImportedData \<Rightarrow> AppState \<Rightarrow> AppState option" where
  "importSettings importOptions d st =
     (if opt_settings importOptions
      then (case im_settings d of
              SettingsAbsent \<Rightarrow> Some st
            | SettingsFalsy \<Rightarrow> Some st
            | SettingsRejected \<Rightarrow> None
            | SettingsObject e \<Rightarrow>
                Some (setSettings (\<lambda>_. entry_value e)
                       (st\<lparr>db_settings := setSingleObject entry_key e (db_settings st)\<rparr>)))
      else Some st)"

text \<open>
  The three array steps. The updater also writes the combined list to the store itself;
  the setter then writes the same list again.
\<close>

definition importHistory :: "Options \<Rightarrow> ImportedData \<Rightarrow> AppState \<Rightarrow> AppState" where
  "importHistory importOptions d st =
     (case im_history d of
        FieldArray items \<Rightarrow>
          if opt_history importOptions then setHistory (mergeById h_id items) st else st
      | _ \<Rightarrow> st)"

definition importTemplates :: "Options \<Rightarrow> ImportedData \<Rightarrow> AppState \<Rightarrow> AppState" where
  "importTemplates importOptions d st =
     (case im_templates d of
        FieldArray items \<Rightarrow>
          if opt_templates importOptions then setTemplates (mergeById t_id items) st else st
      | _ \<Rightarrow> st)"

definition importBundles :: "Options \<Rightarrow> ImportedData \<Rightarrow> AppState \<Rightarrow> AppState" where
  "importBundles importOptions d st =
     (case im_bundles d of
        FieldArray items \<Rightarrow>
          if opt_bundles importOptions then setBundles (mergeById b_id items) st else st
      | _ \<Rightarrow> st)"

definition handleImportFileChange :: "Options \<Rightarrow> FileContent \<Rightarrow> AppState \<Rightarrow> AppState" where
  "handleImportFileChange importOptions file st =
     (case file of
        NotText \<Rightarrow> importFailed st
      | SyntaxError \<Rightarrow> importFailed st
      | NonObject \<Rightarrow>
          if opt_settings importOptions \<or> opt_history importOptions
             \<or> opt_templates importOptions \<or> opt_bundles importOptions
          then importFailed st
          else importSucceeded st
      | Document d \<Rightarrow>
          (case importSettings importOptions d st of
             None \<Rightarrow> importFailed st
           | Some st1 \<Rightarrow>
               importSucceeded
                 (importBundles importOptions d
                   (importTemplates importOptions d
                     (importHistory importOptions d st1)))))"

text \<open>The four collections of a state, in memory and in storage.\<close>

definition collections ::
  "AppState \<Rightarrow> (Settings \<times> HistoryItem list \<times> PromptTemplate list \<times> BundledTemplate list)
     \<times> (SettingsEntry option \<times> HistoryItem list \<times> PromptTemplate list \<times> BundledTemplate list)" where
  "collections st =
     ((settings st, history st, templates st, bundles st),
      (getSingleObject entry_key (db_settings st) ''user-settings'',
       db_history st, db_templates st, db_bundles st))"

section \<open>Deleting a template and resolving references at read time\<close>

text \<open>The delete button of \<^verbatim>\<open>TemplateCard\<close>.\<close>

definition deleteTemplate :: "PromptTemplate \<Rightarrow> AppState \<Rightarrow> AppState" where
  "deleteTemplate template st =
     showToast \<lparr> message = ''Template deleted.'', toast_type = Success \<rparr>
       (setTemplates (\<lambda>prev. filter (\<lambda>t. t_id t \<noteq> t_id template) prev) st)"

text \<open>\<^verbatim>\<open>Map.prototype.get\<close>\<close>

definition Map_get :: "('k \<times> 'v) list \<Rightarrow> 'k \<Rightarrow> 'v option" where
  "Map_get m k = map_of m k"

text \<open>The templates of a selected bundle, as the composer lists them.\<close>

definition templatesForBundle :: "PromptTemplate list \<Rightarrow> BundledTemplate \<Rightarrow> PromptTemplate list" where
  "templatesForBundle allTemplates bundle =
     filter (\<lambda>t. t_id t \<in> set (templateIds bundle)) allTemplates"

text \<open>
  \<^verbatim>\<open>item.referencedTemplates?.map(id => templatesById.get(id)).filter(t => !!t) || []\<close>
  in \<^verbatim>\<open>HistoryView\<close>.
\<close>

definition hydratedTemplates :: "PromptTemplate list \<Rightarrow> HistoryItem \<Rightarrow> PromptTemplate list" where
  "hydratedTemplates allTemplates item =
     (let templatesById = new_Map (map (\<lambda>t. (t_id t, t)) allTemplates)
      in case referencedTemplates item of
           None \<Rightarrow> []
         | Some ids \<Rightarrow>
             map the (filter (\<lambda>t. t \<noteq> None) (map (\<lambda>i. Map_get templatesById i) ids)))"

section \<open>Example values\<close>

definition ex_tA :: PromptTemplate where
  "ex_tA = \<lparr> t_id = ''a'', title = ''Alpha'', description = ''first'', prompt = ''a slow pan'',
             tags = [''x''], models = [], exampleVideo = None, exampleVideoType = None \<rparr>"

definition ex_tB :: PromptTemplate where
  "ex_tB = \<lparr> t_id = ''b'', title = ''Beta'', description = ''second'', prompt = ''a fast zoom'',
             tags = [''y''], models = [], exampleVideo = None, exampleVideoType = None \<rparr>"

definition ex_tC :: PromptTemplate where
  "ex_tC = \<lparr> t_id = ''c'', title = ''Gamma'', description = ''third'', prompt = ''a still frame'',
             tags = [], models = [], exampleVideo = None, exampleVideoType = None \<rparr>"

definition ex_bundle :: BundledTemplate where
  "ex_bundle = \<lparr> b_id = ''k'', name = ''Pack'', b_description = ''both'',
                 templateIds = [''a'', ''b'', ''gone''] \<rparr>"

definition ex_req :: StreamRequest where
  "ex_req = \<lparr> req_prompt = ''a cat on a roof'', req_isJsonMode = False, req_useMarsLsp = False,
              req_style = Anime, req_length = Long, req_thinkingBudget = 0,
              req_apiKey = ''key'', req_media = None,
              req_referencedTemplates = Some [ex_tA, ex_tB] \<rparr>"

definition ex_settings :: Settings where
  "ex_settings = \<lparr> theme = ''dark'', apiKeySource = Custom, apiKey = ''secret'',
                   hasSeenWelcome = Some True \<rparr>"

definition ex_st :: AppState where
  "ex_st = \<lparr> settings = ex_settings, history = [], templates = [ex_tA, ex_tB, ex_tC],
             bundles = [ex_bundle],
             db_settings = [\<lparr> entry_key = ''user-settings'', entry_value = ex_settings \<rparr>],
             db_history = [], db_templates = [ex_tA, ex_tB, ex_tC], db_bundles = [ex_bundle],
             toasts = [] \<rparr>"

definition ex_pv :: PromptView where
  "ex_pv = \<lparr> pv_prompt = ''a cat on a roof'', pv_media = None, pv_isJsonMode = False,
             pv_useMarsLsp = False, pv_useReasoning = False, pv_style = Anime,
             pv_length = Long, pv_selectedTags = [''x''], pv_selectedBundles = [],
             pv_selectedIndividualTemplates = [ex_tC], pv_isLoading = False,
             pv_generatedPrompt = [], pv_error = None \<rparr>"

definition ex_env :: "StreamResult \<Rightarrow> BatchResponse \<Rightarrow> Env" where
  "ex_env answer metadata =
     \<lparr> env_isAistudio = False, env_API_KEY = None,
       env_fileToBase64 = (\<lambda>f. Inr \<lparr> base64 = ''AAAA'', mimeType = file_type f \<rparr>),
       env_generateContentStream = (\<lambda>call. answer),
       env_generateContent = (\<lambda>r. metadata),
       env_randomUUID = (\<lambda>n. ''uuid-'' @ nat_str n),
       env_now = 1700000000000,
       env_SYSTEM_PROMPT = ''You are a prompt engineer.'' \<rparr>"

definition ex_modal :: BatchAddModal where
  "ex_modal = \<lparr> ba_prompts = [(''r1'', ''p1''), (''r2'', ''  ''), (''r3'', ''p2''),
                               (''r4'', [CHR 0xA0, CHR 0x09]), (''r5'', ''p3'')],
                ba_guidance = ''cinematic'', ba_existingTags = [''x'', ''y''],
                ba_isGenerating = False, ba_isOpen = True \<rparr>"

definition ex_md :: "string \<Rightarrow> Metadata" where
  "ex_md s = \<lparr> md_title = ''Title '' @ s, md_description = ''About '' @ s, md_tags = [s] \<rparr>"

definition ex_tA2 :: PromptTemplate where
  "ex_tA2 = \<lparr> t_id = ''a'', title = ''Alpha rewritten'', description = ''changed'',
              prompt = ''a different pan'', tags = [''z''], models = [],
              exampleVideo = None, exampleVideoType = None \<rparr>"

definition ex_tD :: PromptTemplate where
  "ex_tD = \<lparr> t_id = ''d'', title = ''Delta'', description = ''fourth'', prompt = ''a crane shot'',
             tags = [''x''], models = [], exampleVideo = None, exampleVideoType = None \<rparr>"

definition ex_all :: Options where
  "ex_all = \<lparr> opt_settings = True, opt_history = True, opt_templates = True,
              opt_bundles = True \<rparr>"

definition ex_doc :: ImportedData where
  "ex_doc = \<lparr> im_settings = SettingsAbsent, im_history = FieldNotArray,
              im_templates = FieldArray [ex_tA2, ex_tD], im_bundles = FieldArray [ex_bundle] \<rparr>"

definition ex_st2 :: AppState where
  "ex_st2 = ex_st\<lparr>templates := [ex_tC, ex_tA], db_templates := [ex_tA, ex_tC]\<rparr>"

definition ex_item :: HistoryItem where
  "ex_item = \<lparr> h_id = ''h1'', userPrompt = ''a cat on a roof'', generatedPrompt = ''ABC'',
               timestamp = 1700000000000, model = ''gemini-2.5-flash'', mode = Text,
               config = None, referencedTemplates = Some [''a'', ''b''],
               referencedBundles = Some [''k''] \<rparr>"

definition ex_modal_blank :: BatchAddModal where
  "ex_modal_blank = \<lparr> ba_prompts = [(''r1'', [])], ba_guidance = [], ba_existingTags = [],
                      ba_isGenerating = False, ba_isOpen = True \<rparr>"

definition ex_st_nokey :: AppState where
  "ex_st_nokey = ex_st\<lparr>settings := ex_settings\<lparr>apiKey := []\<rparr>\<rparr>"

section \<open>The Reference Resolver returns each qualifying template once\<close>

lemma spec_dedupById_seen_cong:
  "set seen = set seen' \<Longrightarrow> spec_dedupById seen ts = spec_dedupById seen' ts"
proof (induction ts arbitrary: seen seen')
  case Nil
  show ?case by simp
next
  case (Cons t ts)
  have a: "spec_dedupById (t_id t # seen) ts = spec_dedupById (t_id t # seen') ts"
    by (rule Cons.IH) (simp add: Cons.prems)
  have b: "spec_dedupById seen ts = spec_dedupById seen' ts"
    by (rule Cons.IH) (rule Cons.prems)
  from a b Cons.prems show ?case by simp
qed

lemma spec_dedupById_ids:
  "t_id ` set (spec_dedupById seen ts) = t_id ` set ts - set seen"
  by (induction seen ts rule: spec_dedupById.induct) auto

lemma spec_dedupById_distinct: "distinct (map t_id (spec_dedupById seen ts))"
  by (induction seen ts rule: spec_dedupById.induct) (auto simp: spec_dedupById_ids)

lemma spec_dedupById_subset: "set (spec_dedupById seen ts) \<subseteq> set ts"
  by (induction seen ts rule: spec_dedupById.induct) auto

lemma Map_set_keys:
  "map fst (Map_set m k v) = (if k \<in> fst ` set m then map fst m else map fst m @ [k])"
  by (simp add: Map_set_def comp_def)

lemma Map_set_values_subset: "snd ` set (Map_set m k v) \<subseteq> insert v (snd ` set m)"
  by (auto simp: Map_set_def)

lemma Map_set_same:
  "\<forall>e\<in>set m. fst e = k \<longrightarrow> e = (k, v) \<Longrightarrow> k \<in> fst ` set m \<Longrightarrow> Map_set m k v = m"
  by (simp add: Map_set_def map_idI)


lemma fold_Map_set_keys:
  "map fst (fold (\<lambda>e m. Map_set m (fst e) (snd e)) (map (\<lambda>item. (t_id item, item)) ts) m)
     = map fst m @ map t_id (spec_dedupById (map fst m) ts)"
proof (induction ts arbitrary: m)
  case Nil
  show ?case by simp
next
  case (Cons t ts)
  let ?m' = "Map_set m (t_id t) t"
  note IH = Cons.IH [of ?m']
  show ?case
  proof (cases "t_id t \<in> fst ` set m")
    case True
    then have "map fst ?m' = map fst m" by (simp add: Map_set_keys)
    with True IH show ?thesis by simp
  next
    case False
    then have k: "map fst ?m' = map fst m @ [t_id t]" by (simp add: Map_set_keys)
    have "spec_dedupById (map fst m @ [t_id t]) ts = spec_dedupById (t_id t # map fst m) ts"
      by (rule spec_dedupById_seen_cong) simp
    with False IH k show ?thesis by simp
  qed
qed

lemma fold_Map_set_values_subset:
  "snd ` set (fold (\<lambda>e m. Map_set m (fst e) (snd e)) (map (\<lambda>item. (t_id item, item)) ts) m)
     \<subseteq> snd ` set m \<union> set ts"
proof (induction ts arbitrary: m)
  case Nil
  show ?case by simp
next
  case (Cons t ts)
  show ?case using Cons.IH [of "Map_set m (t_id t) t"] Map_set_values_subset [of m "t_id t" t]
    by auto
qed


lemma fold_Map_set_unique:
  assumes "\<forall>e\<in>set m. fst e = t_id (snd e)"
    and "\<forall>a\<in>snd ` set m \<union> set ts. \<forall>b\<in>snd ` set m \<union> set ts. t_id a = t_id b \<longrightarrow> a = b"
  shows "map snd (fold (\<lambda>e m. Map_set m (fst e) (snd e)) (map (\<lambda>item. (t_id item, item)) ts) m)
     = map snd m @ spec_dedupById (map fst m) ts"
  using assms
proof (induction ts arbitrary: m)
  case Nil
  show ?case by simp
next
  case (Cons t ts)
  note keyed = Cons.prems(1) and uniq = Cons.prems(2)
  show ?case
  proof (cases "t_id t \<in> fst ` set m")
    case True
    have "\<forall>e\<in>set m. fst e = t_id t \<longrightarrow> e = (t_id t, t)"
    proof (intro ballI impI)
      fix e assume e: "e \<in> set m" "fst e = t_id t"
      with keyed have "t_id (snd e) = t_id t" by simp
      moreover have "snd e \<in> snd ` set m \<union> set (t # ts)" using e by simp
      moreover have "t \<in> snd ` set m \<union> set (t # ts)" by simp
      ultimately have "snd e = t" using uniq by blast
      with e show "e = (t_id t, t)" by (simp add: prod_eq_iff)
    qed
    then have same: "Map_set m (t_id t) t = m" using True by (rule Map_set_same)
    have u: "\<forall>a\<in>snd ` set m \<union> set ts. \<forall>b\<in>snd ` set m \<union> set ts. t_id a = t_id b \<longrightarrow> a = b"
      using uniq by simp
    have "map snd (fold (\<lambda>e m. Map_set m (fst e) (snd e)) (map (\<lambda>item. (t_id item, item)) ts) m)
      = map snd m @ spec_dedupById (map fst m) ts"
      using keyed u by (rule Cons.IH)
    with True same show ?thesis by simp
  next
    case False
    let ?m' = "m @ [(t_id t, t)]"
    have m': "Map_set m (t_id t) t = ?m'" using False by (simp add: Map_set_def)
    have k': "\<forall>e\<in>set ?m'. fst e = t_id (snd e)" using keyed by simp
    have s: "snd ` set ?m' \<union> set ts = snd ` set m \<union> set (t # ts)" by auto
    have u': "\<forall>a\<in>snd ` set ?m' \<union> set ts. \<forall>b\<in>snd ` set ?m' \<union> set ts. t_id a = t_id b \<longrightarrow> a = b"
      unfolding s by (rule uniq)
    have "map snd (fold (\<lambda>e m. Map_set m (fst e) (snd e)) (map (\<lambda>item. (t_id item, item)) ts) ?m')
      = map snd ?m' @ spec_dedupById (map fst ?m') ts"
      using k' u' by (rule Cons.IH)
    moreover have "spec_dedupById (map fst ?m') ts = spec_dedupById (t_id t # map fst m) ts"
      by (rule spec_dedupById_seen_cong) simp
    ultimately show ?thesis using False m' by simp
  qed
qed

lemma length_filter_distinct_key:
  "distinct (map f xs) \<Longrightarrow> k \<in> f ` set xs \<Longrightarrow> length (filter (\<lambda>y. f y = k) xs) = 1"
proof (induction xs)
  case Nil
  then show ?case by simp
next
  case (Cons a xs)
  show ?case
  proof (cases "f a = k")
    case True
    with Cons.prems(1) have "k \<notin> f ` set xs" by simp
    then have "filter (\<lambda>y. f y = k) xs = []" by (auto simp: filter_empty_conv)
    with True show ?thesis by simp
  next
    case False
    with Cons.prems have "distinct (map f xs)" "k \<in> f ` set xs" by auto
    then have "length (filter (\<lambda>y. f y = k) xs) = 1" by (rule Cons.IH)
    with False show ?thesis by simp
  qed
qed

lemma new_Map_keyed:
  "\<forall>e\<in>set (fold (\<lambda>e m. Map_set m (fst e) (snd e)) (map (\<lambda>item. (t_id item, item)) ts) m).
      fst e = t_id (snd e)"
  if "\<forall>e\<in>set m. fst e = t_id (snd e)"
  using that
proof (induction ts arbitrary: m)
  case Nil
  then show ?case by simp
next
  case (Cons t ts)
  have "\<forall>e\<in>set (Map_set m (t_id t) t). fst e = t_id (snd e)"
    using Cons.prems by (auto simp: Map_set_def)
  then show ?case using Cons.IH [of "Map_set m (t_id t) t"] by simp
qed

lemma allReferencedTemplates_ids:
  "map t_id (allReferencedTemplates A T B I)
     = map t_id (spec_dedupById [] (referenceCandidates A T B I))"
proof -
  let ?m = "new_Map (map (\<lambda>item. (t_id item, item)) (referenceCandidates A T B I))"
  have keyed: "\<forall>e\<in>set ?m. fst e = t_id (snd e)"
    unfolding new_Map_def by (rule new_Map_keyed) simp
  then have "map t_id (Map_values ?m) = map fst ?m"
    by (simp add: Map_values_def)
  also have "\<dots> = map t_id (spec_dedupById [] (referenceCandidates A T B I))"
    unfolding new_Map_def using fold_Map_set_keys [of "referenceCandidates A T B I" "[]"] by simp
  finally show ?thesis by (simp add: allReferencedTemplates_def)
qed

lemma allReferencedTemplates_subset:
  "set (allReferencedTemplates A T B I) \<subseteq> set (referenceCandidates A T B I)"
  using fold_Map_set_values_subset [of "referenceCandidates A T B I" "[]"]
  by (simp add: allReferencedTemplates_def Map_values_def new_Map_def)

lemma allReferencedTemplates_unique:
  assumes "\<forall>a\<in>set (referenceCandidates A T B I). \<forall>b\<in>set (referenceCandidates A T B I).
             t_id a = t_id b \<longrightarrow> a = b"
  shows "allReferencedTemplates A T B I = spec_dedupById [] (referenceCandidates A T B I)"
  using fold_Map_set_unique [of "[]" "referenceCandidates A T B I"] assms
  by (simp add: allReferencedTemplates_def Map_values_def new_Map_def)

lemma allReferencedTemplates_once:
  assumes "t \<in> set (referenceCandidates A T B I)"
  shows "length (filter (\<lambda>r. t_id r = t_id t) (allReferencedTemplates A T B I)) = 1"
proof -
  let ?out = "allReferencedTemplates A T B I" and ?c = "referenceCandidates A T B I"
  have d: "distinct (map t_id ?out)"
    by (simp only: allReferencedTemplates_ids spec_dedupById_distinct)
  have "t_id ` set ?out = set (map t_id ?out)" by simp
  also have "\<dots> = t_id ` set (spec_dedupById [] ?c)"
    by (simp only: allReferencedTemplates_ids set_map)
  also have "\<dots> = t_id ` set ?c" by (simp add: spec_dedupById_ids)
  finally have "t_id t \<in> t_id ` set ?out" using assms by simp
  with d show ?thesis by (rule length_filter_distinct_key)
qed

text \<open>
  C1. Whatever the templates, bundles and selections are, the resolved reference list holds
  exactly one record for each identifier among the qualifying templates (those matched by
  a selected tag, those listed by a selected bundle, and those selected individually), in
  the order in which the identifiers are first seen; every record of the list is a
  qualifying template; in particular an individually selected template is there exactly
  once. When equal identifiers mean equal records, the list is the first-seen
  deduplication of the qualifying templates.
\<close>

theorem allReferencedTemplates_each_once:
  "let cands = referenceCandidates allTemplates selectedTags selectedBundles
                 selectedIndividualTemplates;
       out = allReferencedTemplates allTemplates selectedTags selectedBundles
               selectedIndividualTemplates
   in map t_id out = map t_id (spec_dedupById [] cands)
      \<and> distinct (map t_id out)
      \<and> set out \<subseteq> set cands
      \<and> (\<forall>t\<in>set cands. length (filter (\<lambda>r. t_id r = t_id t) out) = 1)
      \<and> (\<forall>t\<in>set selectedIndividualTemplates. length (filter (\<lambda>r. t_id r = t_id t) out) = 1)
      \<and> ((\<forall>a\<in>set cands. \<forall>b\<in>set cands. t_id a = t_id b \<longrightarrow> a = b)
           \<longrightarrow> out = spec_dedupById [] cands)"
proof -
  let ?c = "referenceCandidates allTemplates selectedTags selectedBundles
              selectedIndividualTemplates"
  let ?out = "allReferencedTemplates allTemplates selectedTags selectedBundles
                selectedIndividualTemplates"
  have 1: "map t_id ?out = map t_id (spec_dedupById [] ?c)"
    by (rule allReferencedTemplates_ids)
  have 2: "distinct (map t_id ?out)"
    by (simp only: 1 spec_dedupById_distinct)
  have 3: "set ?out \<subseteq> set ?c"
    by (rule allReferencedTemplates_subset)
  have 4: "\<forall>t\<in>set ?c. length (filter (\<lambda>r. t_id r = t_id t) ?out) = 1"
    by (intro ballI allReferencedTemplates_once)
  have "set selectedIndividualTemplates \<subseteq> set ?c"
    by (auto simp: referenceCandidates_def)
  with 4 have 5: "\<forall>t\<in>set selectedIndividualTemplates.
      length (filter (\<lambda>r. t_id r = t_id t) ?out) = 1"
    by blast
  have 6: "(\<forall>a\<in>set ?c. \<forall>b\<in>set ?c. t_id a = t_id b \<longrightarrow> a = b)
      \<longrightarrow> ?out = spec_dedupById [] ?c"
    by (intro impI allReferencedTemplates_unique)
  from 1 2 3 4 5 6 show ?thesis unfolding Let_def by (intro conjI)
qed

theorem allReferencedTemplates_each_once_witness:
  "allReferencedTemplates [ex_tA, ex_tB, ex_tC] [''x''] [ex_bundle] [ex_tC, ex_tA]
     = [ex_tA, ex_tB, ex_tC]
   \<and> length (filter (\<lambda>r. t_id r = t_id ex_tC)
        (allReferencedTemplates [ex_tA, ex_tB, ex_tC] [''x''] [ex_bundle] [ex_tC, ex_tA])) = 1
   \<and> ex_tC \<in> set [ex_tC, ex_tA]
   \<and> templatesFromTags [ex_tA, ex_tB, ex_tC] [''x''] = [ex_tA]
   \<and> templatesFromBundles [ex_tA, ex_tB, ex_tC] [ex_bundle] = [ex_tA, ex_tB]"
  using allReferencedTemplates_each_once
    [of "[ex_tA, ex_tB, ex_tC]" "[''x'']" "[ex_bundle]" "[ex_tC, ex_tA]"]
  by (simp add: Let_def referenceCandidates_def templatesFromTags_def templatesFromBundles_def
      ex_tA_def ex_tB_def ex_tC_def ex_bundle_def)

section \<open>The request text: configuration footer and reference block\<close>

lemma sublist_sep:
  assumes "c \<notin> set n"
  shows "sublist n (xs @ c # ys) \<longleftrightarrow> sublist n xs \<or> sublist n ys"
proof
  assume "sublist n (xs @ c # ys)"
  then consider "sublist n xs" | "sublist n (c # ys)"
    | n1 n2 where "n = n1 @ n2" "suffix n1 xs" "prefix n2 (c # ys)"
    by (auto simp: sublist_append)
  then show "sublist n xs \<or> sublist n ys"
  proof cases
    case 1
    then show ?thesis by simp
  next
    case 2
    then have "prefix n (c # ys) \<or> sublist n ys" by (simp add: sublist_Cons_right)
    moreover have "n = []" if "prefix n (c # ys)"
      using that assms by (cases n) auto
    ultimately show ?thesis by auto
  next
    case 3
    have "n2 = []" using 3(3) 3(1) assms by (cases n2) auto
    with 3 have "suffix n xs" by simp
    then show ?thesis by auto
  qed
next
  assume "sublist n xs \<or> sublist n ys"
  then show "sublist n (xs @ c # ys)"
  proof
    assume "sublist n xs"
    then show ?thesis by (auto simp: sublist_append)
  next
    assume "sublist n ys"
    then have "sublist n (c # ys)" by (simp add: sublist_Cons_right)
    then show ?thesis by (auto simp: sublist_append)
  qed
qed

lemma sublist_join_member:
  "t \<in> set ts \<Longrightarrow> sublist (f t) (join sep (map f ts))"
proof (induction ts rule: induct_list012)
  case 1
  then show ?case by simp
next
  case (2 x)
  then show ?case by simp
next
  case (3 x y zs)
  show ?case
  proof (cases "t = x")
    case True
    then show ?thesis by simp
  next
    case False
    with 3 have "sublist (f t) (join sep (map f (y # zs)))" by simp
    then have "sublist (f t) ((f x @ sep) @ join sep (map f (y # zs)))"
      by (simp only: sublist_append) simp
    then show ?thesis by simp
  qed
qed


lemma sublist_serializeReference:
  assumes nl: "CHR 0x0A \<notin> set n" and dq: "CHR 0x22 \<notin> set n"
  shows "sublist n (serializeReference t) \<longleftrightarrow>
           sublist n ''--- REFERENCE TEMPLATE: '' \<or> sublist n (title t)
           \<or> sublist n '' ---'' \<or> sublist n (prompt t)"
proof -
  have "serializeReference t =
      ''--- REFERENCE TEMPLATE: '' @ CHR 0x22 # (title t @ CHR 0x22 # ('' ---'' @ CHR 0x0A # prompt t))"
    by (simp add: serializeReference_def)
  then show ?thesis
    by (simp only: sublist_sep [OF nl] sublist_sep [OF dq])
qed

lemma sublist_join_references:
  assumes nl: "CHR 0x0A \<notin> set n" and dq: "CHR 0x22 \<notin> set n" and ne: "n \<noteq> []"
  shows "sublist n (join ''\<newline>\<newline>'' (map serializeReference ts)) \<longleftrightarrow>
           ts \<noteq> [] \<and> (sublist n ''--- REFERENCE TEMPLATE: '' \<or> sublist n '' ---''
             \<or> (\<exists>t\<in>set ts. sublist n (title t) \<or> sublist n (prompt t)))"
proof (induction ts rule: induct_list012)
  case 1
  show ?case using ne by simp
next
  case (2 x)
  show ?case using sublist_serializeReference [OF nl dq, of x] by auto
next
  case (3 x y zs)
  let ?rest = "join ''\<newline>\<newline>'' (map serializeReference (y # zs))"
  have "join ''\<newline>\<newline>'' (map serializeReference (x # y # zs))
      = serializeReference x @ CHR 0x0A # ([] @ CHR 0x0A # ?rest)"
    by simp
  then have "sublist n (join ''\<newline>\<newline>'' (map serializeReference (x # y # zs)))
      \<longleftrightarrow> sublist n (serializeReference x) \<or> sublist n [] \<or> sublist n ?rest"
    by (simp only: sublist_sep [OF nl])
  also have "\<dots> \<longleftrightarrow> sublist n (serializeReference x) \<or> sublist n ?rest"
    using ne by simp
  finally show ?case
    using "3.IH"(2) sublist_serializeReference [OF nl dq, of x] by auto
qed

lemma sublist_referenceBlock:
  assumes nl: "CHR 0x0A \<notin> set n" and dq: "CHR 0x22 \<notin> set n" and ne: "n \<noteq> []"
  shows "sublist n (referenceBlock (Some ts)) \<longleftrightarrow>
           ts \<noteq> [] \<and> (sublist n ''Use the following templates as creative inspiration:''
             \<or> sublist n ''--- REFERENCE TEMPLATE: '' \<or> sublist n '' ---''
             \<or> (\<exists>t\<in>set ts. sublist n (title t) \<or> sublist n (prompt t)))"
proof (cases "ts = []")
  case True
  then show ?thesis using ne by (simp add: referenceBlock_def)
next
  case False
  let ?j = "join ''\<newline>\<newline>'' (map serializeReference ts)"
  have "referenceBlock (Some ts) =
      ''Use the following templates as creative inspiration:'' @ CHR 0x0A # ([] @ CHR 0x0A #
        (?j @ CHR 0x0A # ([] @ CHR 0x0A # [])))"
    using False by (simp add: referenceBlock_def)
  then have "sublist n (referenceBlock (Some ts)) \<longleftrightarrow>
      sublist n ''Use the following templates as creative inspiration:'' \<or> sublist n []
      \<or> sublist n ?j \<or> sublist n [] \<or> sublist n []"
    by (simp only: sublist_sep [OF nl])
  then show ?thesis
    using ne False sublist_join_references [OF nl dq ne, of ts] by auto
qed


lemma userRequestText_split:
  "userRequestText r =
     referenceBlock (req_referencedTemplates r)
     @ userRequestText (r\<lparr>req_referencedTemplates := None\<rparr>)"
  by (simp add: userRequestText_def referenceBlock_def)

lemma referenceBlock_end:
  "referenceBlock refs = [] \<or> (\<exists>Y. referenceBlock refs = Y @ [CHR 0x0A])"
proof (cases refs)
  case None
  then show ?thesis by (simp add: referenceBlock_def)
next
  case (Some ts)
  show ?thesis
  proof (cases "ts = []")
    case True
    with Some show ?thesis by (simp add: referenceBlock_def)
  next
    case False
    let ?Y = "''Use the following templates as creative inspiration:\<newline>\<newline>''
               @ join ''\<newline>\<newline>'' (map serializeReference ts) @ ''\<newline>''"
    have "referenceBlock refs = ?Y @ [CHR 0x0A]"
      using Some False by (simp add: referenceBlock_def)
    then show ?thesis by blast
  qed
qed

lemma sublist_after_block:
  assumes nl: "CHR 0x0A \<notin> set n" and ne: "n \<noteq> []"
  shows "sublist n (referenceBlock refs @ rest) \<longleftrightarrow>
           sublist n (referenceBlock refs) \<or> sublist n rest"
proof -
  consider "referenceBlock refs = []" | Y where "referenceBlock refs = Y @ [CHR 0x0A]"
    using referenceBlock_end [of refs] by blast
  then show ?thesis
  proof cases
    case 1
    then show ?thesis using ne by simp
  next
    case 2
    have "sublist n (Y @ CHR 0x0A # rest) \<longleftrightarrow> sublist n Y \<or> sublist n rest"
      by (rule sublist_sep [OF nl])
    moreover have "sublist n (Y @ CHR 0x0A # []) \<longleftrightarrow> sublist n Y \<or> sublist n []"
      by (rule sublist_sep [OF nl])
    ultimately show ?thesis using 2 ne by simp
  qed
qed

lemma sublist_controls:
  assumes nl: "CHR 0x0A \<notin> set n" and dq: "CHR 0x22 \<notin> set n" and ne: "n \<noteq> []"
  shows "sublist n (userRequestText (r\<lparr>req_referencedTemplates := None\<rparr>)) \<longleftrightarrow>
           sublist n ''--- USER REQUEST & CREATIVE CONTROLS ---''
           \<or> sublist n (''jsonModeEnabled: '' @ bool_str (req_isJsonMode r))
           \<or> sublist n (''marsLspEnabled: '' @ bool_str (req_useMarsLsp r))
           \<or> sublist n (''style: '' @ Style_str (req_style r))
           \<or> ((req_isJsonMode r \<or> req_useMarsLsp r)
                \<and> sublist n (''length: '' @ Length_str (req_length r)))
           \<or> sublist n ''User's basic prompt: ''
           \<or> sublist n (req_prompt r)
           \<or> sublist n ''Enhanced prompt, JSON object, or video description:''"
proof (cases "req_isJsonMode r \<or> req_useMarsLsp r")
  case True
  have "userRequestText (r\<lparr>req_referencedTemplates := None\<rparr>) =
      ''--- USER REQUEST & CREATIVE CONTROLS ---'' @ CHR 0x0A #
      ((''jsonModeEnabled: '' @ bool_str (req_isJsonMode r)) @ CHR 0x0A #
      ((''marsLspEnabled: '' @ bool_str (req_useMarsLsp r)) @ CHR 0x0A #
      ((''style: '' @ Style_str (req_style r)) @ CHR 0x0A #
      ((''length: '' @ Length_str (req_length r)) @ CHR 0x0A #
      ([] @ CHR 0x0A #
      (''User's basic prompt: '' @ CHR 0x22 #
      (req_prompt r @ CHR 0x22 #
      ([] @ CHR 0x0A #
      ([] @ CHR 0x0A #
       ''Enhanced prompt, JSON object, or video description:'')))))))))"
    using True by (simp add: userRequestText_def referenceBlock_def)
  then have "sublist n (userRequestText (r\<lparr>req_referencedTemplates := None\<rparr>)) \<longleftrightarrow>
      sublist n ''--- USER REQUEST & CREATIVE CONTROLS ---''
      \<or> sublist n (''jsonModeEnabled: '' @ bool_str (req_isJsonMode r))
      \<or> sublist n (''marsLspEnabled: '' @ bool_str (req_useMarsLsp r))
      \<or> sublist n (''style: '' @ Style_str (req_style r))
      \<or> sublist n (''length: '' @ Length_str (req_length r))
      \<or> sublist n []
      \<or> sublist n ''User's basic prompt: ''
      \<or> sublist n (req_prompt r)
      \<or> sublist n [] \<or> sublist n []
      \<or> sublist n ''Enhanced prompt, JSON object, or video description:''"
    by (simp only: sublist_sep [OF nl] sublist_sep [OF dq])
  then show ?thesis using True ne by auto
next
  case False
  have "userRequestText (r\<lparr>req_referencedTemplates := None\<rparr>) =
      ''--- USER REQUEST & CREATIVE CONTROLS ---'' @ CHR 0x0A #
      ((''jsonModeEnabled: '' @ bool_str (req_isJsonMode r)) @ CHR 0x0A #
      ((''marsLspEnabled: '' @ bool_str (req_useMarsLsp r)) @ CHR 0x0A #
      ((''style: '' @ Style_str (req_style r)) @ CHR 0x0A #
      ([] @ CHR 0x0A #
      (''User's basic prompt: '' @ CHR 0x22 #
      (req_prompt r @ CHR 0x22 #
      ([] @ CHR 0x0A #
      ([] @ CHR 0x0A #
       ''Enhanced prompt, JSON object, or video description:''))))))))"
    using False by (simp add: userRequestText_def referenceBlock_def)
  then have "sublist n (userRequestText (r\<lparr>req_referencedTemplates := None\<rparr>)) \<longleftrightarrow>
      sublist n ''--- USER REQUEST & CREATIVE CONTROLS ---''
      \<or> sublist n (''jsonModeEnabled: '' @ bool_str (req_isJsonMode r))
      \<or> sublist n (''marsLspEnabled: '' @ bool_str (req_useMarsLsp r))
      \<or> sublist n (''style: '' @ Style_str (req_style r))
      \<or> sublist n []
      \<or> sublist n ''User's basic prompt: ''
      \<or> sublist n (req_prompt r)
      \<or> sublist n [] \<or> sublist n []
      \<or> sublist n ''Enhanced prompt, JSON object, or video description:''"
    by (simp only: sublist_sep [OF nl] sublist_sep [OF dq])
  then show ?thesis using False ne by auto
qed

lemma sublist_userRequestText:
  assumes nl: "CHR 0x0A \<notin> set n" and dq: "CHR 0x22 \<notin> set n" and ne: "n \<noteq> []"
  shows "sublist n (userRequestText r) \<longleftrightarrow>
           sublist n (referenceBlock (req_referencedTemplates r))
           \<or> sublist n (userRequestText (r\<lparr>req_referencedTemplates := None\<rparr>))"
  using sublist_after_block [OF nl ne] userRequestText_split [of r] by simp


lemma controls_lines_included:
  "sublist (''jsonModeEnabled: '' @ bool_str (req_isJsonMode r) @ ''\<newline>'') (userRequestText r)"
  "sublist (''marsLspEnabled: '' @ bool_str (req_useMarsLsp r) @ ''\<newline>'') (userRequestText r)"
  "sublist (''style: '' @ Style_str (req_style r) @ ''\<newline>'') (userRequestText r)"
  "req_isJsonMode r \<or> req_useMarsLsp r \<Longrightarrow>
     sublist (''length: '' @ Length_str (req_length r) @ ''\<newline>'') (userRequestText r)"
proof -
  let ?RB = "referenceBlock (req_referencedTemplates r)"
  let ?H = "''--- USER REQUEST & CREATIVE CONTROLS ---\<newline>''"
  let ?J = "''jsonModeEnabled: '' @ bool_str (req_isJsonMode r) @ ''\<newline>''"
  let ?M = "''marsLspEnabled: '' @ bool_str (req_useMarsLsp r) @ ''\<newline>''"
  let ?S = "''style: '' @ Style_str (req_style r) @ ''\<newline>''"
  let ?L = "(if req_isJsonMode r \<or> req_useMarsLsp r
        then ''length: '' @ Length_str (req_length r) @ ''\<newline>'' else [])"
  let ?T = "''\<newline>User's basic prompt: '' @ CHR 0x22 # req_prompt r
        @ CHR 0x22 # ''\<newline>\<newline>Enhanced prompt, JSON object, or video description:''"
  have "userRequestText r = (?RB @ ?H) @ ?J @ (?M @ ?S @ ?L @ ?T)"
    by (simp add: userRequestText_def)
  then show "sublist ?J (userRequestText r)" by (simp only: sublist_appendI)
  have "userRequestText r = (?RB @ ?H @ ?J) @ ?M @ (?S @ ?L @ ?T)"
    by (simp add: userRequestText_def)
  then show "sublist ?M (userRequestText r)" by (simp only: sublist_appendI)
  have "userRequestText r = (?RB @ ?H @ ?J @ ?M) @ ?S @ (?L @ ?T)"
    by (simp add: userRequestText_def)
  then show "sublist ?S (userRequestText r)" by (simp only: sublist_appendI)
  assume a: "req_isJsonMode r \<or> req_useMarsLsp r"
  have "userRequestText r = (?RB @ ?H @ ?J @ ?M @ ?S)
      @ (''length: '' @ Length_str (req_length r) @ ''\<newline>'') @ ?T"
    using a by (simp add: userRequestText_def)
  then show "sublist (''length: '' @ Length_str (req_length r) @ ''\<newline>'') (userRequestText r)"
    by (simp only: sublist_appendI)
qed

lemma length_ignored:
  "\<not> (req_isJsonMode r \<or> req_useMarsLsp r) \<Longrightarrow>
     userRequestText (r\<lparr>req_length := l\<rparr>) = userRequestText r"
  by (simp add: userRequestText_def)

lemma length_distinguished:
  assumes "req_isJsonMode r \<or> req_useMarsLsp r" and "l \<noteq> req_length r"
  shows "userRequestText (r\<lparr>req_length := l\<rparr>) \<noteq> userRequestText r"
proof -
  have "Length_str l @ rest \<noteq> Length_str (req_length r) @ rest" for rest
    using assms(2) by (cases l; cases "req_length r") simp_all
  then show ?thesis using assms(1) by (simp add: userRequestText_def)
qed

lemma length_needle: "CHR 0x0A \<notin> set ''length: ''" "CHR 0x22 \<notin> set ''length: ''" "''length: '' \<noteq> []"
  by simp_all

lemma static_free_of_length:
  "\<not> sublist ''length: '' ''--- USER REQUEST & CREATIVE CONTROLS ---''"
  "\<not> sublist ''length: '' (''jsonModeEnabled: '' @ bool_str j)"
  "\<not> sublist ''length: '' (''marsLspEnabled: '' @ bool_str m)"
  "\<not> sublist ''length: '' (''style: '' @ Style_str s)"
  "\<not> sublist ''length: '' ''User's basic prompt: ''"
  "\<not> sublist ''length: '' ''Enhanced prompt, JSON object, or video description:''"
  "\<not> sublist ''length: '' ''Use the following templates as creative inspiration:''"
  "\<not> sublist ''length: '' ''--- REFERENCE TEMPLATE: ''"
  "\<not> sublist ''length: '' '' ---''"
  "sublist ''length: '' (''length: '' @ Length_str l)"
  by (cases j; cases m; cases s; simp add: bool_str_def sublist_code)+


lemma length_occurs_iff:
  assumes p: "\<not> sublist ''length: '' (req_prompt r)"
    and t: "\<forall>ts. req_referencedTemplates r = Some ts \<longrightarrow>
              (\<forall>t\<in>set ts. \<not> sublist ''length: '' (title t) \<and> \<not> sublist ''length: '' (prompt t))"
  shows "sublist ''length: '' (userRequestText r) \<longleftrightarrow> req_isJsonMode r \<or> req_useMarsLsp r"
proof -
  have rb: "\<not> sublist ''length: '' (referenceBlock (req_referencedTemplates r))"
  proof (cases "req_referencedTemplates r")
    case None
    then show ?thesis by (simp add: referenceBlock_def)
  next
    case (Some ts)
    with t have free: "\<forall>t\<in>set ts. \<not> sublist ''length: '' (title t) \<and> \<not> sublist ''length: '' (prompt t)"
      by simp
    have "\<not> sublist ''length: '' (referenceBlock (Some ts))"
      using sublist_referenceBlock [OF length_needle, of ts] free static_free_of_length(7,8,9)
      by blast
    with Some show ?thesis by simp
  qed
  have c: "sublist ''length: '' (userRequestText (r\<lparr>req_referencedTemplates := None\<rparr>))
      \<longleftrightarrow> req_isJsonMode r \<or> req_useMarsLsp r"
    using sublist_controls [OF length_needle, of r] p
      static_free_of_length(1,5,6) static_free_of_length(2) [of "req_isJsonMode r"]
      static_free_of_length(3) [of "req_useMarsLsp r"] static_free_of_length(4) [of "req_style r"]
      static_free_of_length(10) [of "req_length r"]
    by blast
  show ?thesis
    using sublist_userRequestText [OF length_needle, of r] rb c by blast
qed

text \<open>
  C7. The request text always carries the lines for \<^verbatim>\<open>jsonModeEnabled\<close>,
  \<^verbatim>\<open>marsLspEnabled\<close> and \<^verbatim>\<open>style\<close> with their values: \<^verbatim>\<open>true\<close> or \<^verbatim>\<open>false\<close> for the
  two flags, the name of the style for the third. When JSON mode or MARS-LSP is
  active it carries the line \<^verbatim>\<open>length: <value>\<close>, and two requests that differ only in the
  length differ in their text; when both are off, the text does not depend on the length
  at all. Where the user's own strings (the prompt, the titles and bodies of the
  references) do not contain \<^verbatim>\<open>length: \<close> themselves, that label occurs in the request
  text if and only if JSON mode or MARS-LSP is active.
\<close>

theorem length_included_iff_json_or_marsLsp:
  "sublist (''jsonModeEnabled: '' @ bool_str (req_isJsonMode r) @ ''\<newline>'') (userRequestText r)
   \<and> sublist (''marsLspEnabled: '' @ bool_str (req_useMarsLsp r) @ ''\<newline>'') (userRequestText r)
   \<and> sublist (''style: '' @ Style_str (req_style r) @ ''\<newline>'') (userRequestText r)
   \<and> (req_isJsonMode r \<or> req_useMarsLsp r \<longrightarrow>
        sublist (''length: '' @ Length_str (req_length r) @ ''\<newline>'') (userRequestText r)
        \<and> (\<forall>l. l \<noteq> req_length r \<longrightarrow> userRequestText (r\<lparr>req_length := l\<rparr>) \<noteq> userRequestText r))
   \<and> (\<not> (req_isJsonMode r \<or> req_useMarsLsp r) \<longrightarrow>
        (\<forall>l. userRequestText (r\<lparr>req_length := l\<rparr>) = userRequestText r))
   \<and> (\<not> sublist ''length: '' (req_prompt r)
        \<and> (\<forall>ts. req_referencedTemplates r = Some ts \<longrightarrow>
              (\<forall>t\<in>set ts. \<not> sublist ''length: '' (title t) \<and> \<not> sublist ''length: '' (prompt t)))
        \<longrightarrow> (sublist ''length: '' (userRequestText r) \<longleftrightarrow> req_isJsonMode r \<or> req_useMarsLsp r))
   \<and> sublist (if req_isJsonMode r then ''jsonModeEnabled: true\<newline>''
               else ''jsonModeEnabled: false\<newline>'') (userRequestText r)
   \<and> sublist (if req_useMarsLsp r then ''marsLspEnabled: true\<newline>''
               else ''marsLspEnabled: false\<newline>'') (userRequestText r)
   \<and> sublist (case req_style r of
                 StyleDefault \<Rightarrow> ''style: default\<newline>''
               | Anime \<Rightarrow> ''style: anime\<newline>''
               | Realistic \<Rightarrow> ''style: realistic\<newline>'') (userRequestText r)
   \<and> (req_isJsonMode r \<or> req_useMarsLsp r \<longrightarrow>
        sublist (case req_length r of
                   LengthDefault \<Rightarrow> ''length: default\<newline>''
                 | Short \<Rightarrow> ''length: short\<newline>''
                 | Long \<Rightarrow> ''length: long\<newline>'') (userRequestText r))"
proof -
  have j: "(if req_isJsonMode r then ''jsonModeEnabled: true\<newline>''
            else ''jsonModeEnabled: false\<newline>'')
      = ''jsonModeEnabled: '' @ bool_str (req_isJsonMode r) @ ''\<newline>''"
    by (simp add: bool_str_def)
  have m: "(if req_useMarsLsp r then ''marsLspEnabled: true\<newline>''
            else ''marsLspEnabled: false\<newline>'')
      = ''marsLspEnabled: '' @ bool_str (req_useMarsLsp r) @ ''\<newline>''"
    by (simp add: bool_str_def)
  have s: "(case req_style r of
                 StyleDefault \<Rightarrow> ''style: default\<newline>''
               | Anime \<Rightarrow> ''style: anime\<newline>''
               | Realistic \<Rightarrow> ''style: realistic\<newline>'')
      = ''style: '' @ Style_str (req_style r) @ ''\<newline>''"
    by (cases "req_style r") simp_all
  have l: "(case req_length r of
                   LengthDefault \<Rightarrow> ''length: default\<newline>''
                 | Short \<Rightarrow> ''length: short\<newline>''
                 | Long \<Rightarrow> ''length: long\<newline>'')
      = ''length: '' @ Length_str (req_length r) @ ''\<newline>''"
    by (cases "req_length r") simp_all
  show ?thesis
    unfolding j m s l
    using controls_lines_included [of r] length_distinguished [of r] length_ignored [of r]
      length_occurs_iff [of r]
    by blast
qed

text \<open>
  C7 at a request with both flags off, and at the same request with either flag on.
\<close>

theorem length_included_iff_json_or_marsLsp_witness:
  "\<not> sublist ''length: '' (userRequestText ex_req)
   \<and> userRequestText (ex_req\<lparr>req_length := Short\<rparr>) = userRequestText ex_req
   \<and> sublist ''style: anime\<newline>'' (userRequestText ex_req)
   \<and> sublist ''length: long\<newline>'' (userRequestText (ex_req\<lparr>req_isJsonMode := True\<rparr>))
   \<and> sublist ''length: long\<newline>'' (userRequestText (ex_req\<lparr>req_useMarsLsp := True\<rparr>))
   \<and> userRequestText (ex_req\<lparr>req_isJsonMode := True, req_length := Short\<rparr>)
        \<noteq> userRequestText (ex_req\<lparr>req_isJsonMode := True\<rparr>)
   \<and> sublist ''jsonModeEnabled: false\<newline>marsLspEnabled: false\<newline>style: anime\<newline>''
        (userRequestText ex_req)
   \<and> sublist ''jsonModeEnabled: true\<newline>'' (userRequestText (ex_req\<lparr>req_isJsonMode := True\<rparr>))
   \<and> sublist ''marsLspEnabled: true\<newline>'' (userRequestText (ex_req\<lparr>req_useMarsLsp := True\<rparr>))"
proof -
  let ?j = "ex_req\<lparr>req_isJsonMode := True\<rparr>" and ?m = "ex_req\<lparr>req_useMarsLsp := True\<rparr>"
  note plain = length_included_iff_json_or_marsLsp [of ex_req]
  note json = length_included_iff_json_or_marsLsp [of ?j]
  note mars = length_included_iff_json_or_marsLsp [of ?m]
  have off: "\<not> (req_isJsonMode ex_req \<or> req_useMarsLsp ex_req)"
    by (simp add: ex_req_def)
  have free: "\<not> sublist ''length: '' (req_prompt ex_req)
      \<and> (\<forall>ts. req_referencedTemplates ex_req = Some ts \<longrightarrow>
            (\<forall>t\<in>set ts. \<not> sublist ''length: '' (title t) \<and> \<not> sublist ''length: '' (prompt t)))"
    by (simp add: ex_req_def ex_tA_def ex_tB_def sublist_code)
  have 1: "\<not> sublist ''length: '' (userRequestText ex_req)"
    using plain off free by blast
  have 2: "userRequestText (ex_req\<lparr>req_length := Short\<rparr>) = userRequestText ex_req"
    using plain off by blast
  have "sublist (''style: '' @ Style_str (req_style ex_req) @ ''\<newline>'') (userRequestText ex_req)"
    using plain by blast
  then have 3: "sublist ''style: anime\<newline>'' (userRequestText ex_req)"
    by (simp add: ex_req_def)
  have "sublist (''length: '' @ Length_str (req_length ?j) @ ''\<newline>'') (userRequestText ?j)"
    using json by simp
  then have 4: "sublist ''length: long\<newline>'' (userRequestText ?j)"
    by (simp add: ex_req_def)
  have "sublist (''length: '' @ Length_str (req_length ?m) @ ''\<newline>'') (userRequestText ?m)"
    using mars by simp
  then have 5: "sublist ''length: long\<newline>'' (userRequestText ?m)"
    by (simp add: ex_req_def)
  have "Short \<noteq> req_length ?j" by (simp add: ex_req_def)
  moreover have "req_isJsonMode ?j" by simp
  ultimately have "userRequestText (?j\<lparr>req_length := Short\<rparr>) \<noteq> userRequestText ?j"
    using json by blast
  then have 6: "userRequestText (ex_req\<lparr>req_isJsonMode := True, req_length := Short\<rparr>)
      \<noteq> userRequestText ?j"
    by simp
  have 7: "sublist ''jsonModeEnabled: false\<newline>marsLspEnabled: false\<newline>style: anime\<newline>''
      (userRequestText ex_req)"
  proof -
    have "userRequestText ex_req
        = (referenceBlock (req_referencedTemplates ex_req)
            @ ''--- USER REQUEST & CREATIVE CONTROLS ---\<newline>'')
          @ ''jsonModeEnabled: false\<newline>marsLspEnabled: false\<newline>style: anime\<newline>''
          @ userRequestText_tail"
      if "userRequestText_tail = ''\<newline>User's basic prompt: '' @ CHR 0x22 # req_prompt ex_req
        @ CHR 0x22 # ''\<newline>\<newline>Enhanced prompt, JSON object, or video description:''"
      for userRequestText_tail
      using that off by (simp add: userRequestText_def ex_req_def bool_str_def)
    from this [OF refl] show ?thesis by (simp only: sublist_appendI)
  qed
  have "sublist (if req_isJsonMode ?j then ''jsonModeEnabled: true\<newline>''
      else ''jsonModeEnabled: false\<newline>'') (userRequestText ?j)"
    using json by blast
  then have 8: "sublist ''jsonModeEnabled: true\<newline>'' (userRequestText ?j)"
    by simp
  have "sublist (if req_useMarsLsp ?m then ''marsLspEnabled: true\<newline>''
      else ''marsLspEnabled: false\<newline>'') (userRequestText ?m)"
    using mars by blast
  then have 9: "sublist ''marsLspEnabled: true\<newline>'' (userRequestText ?m)"
    by simp
  from 1 2 3 4 5 6 7 8 9 show ?thesis by (intro conjI)
qed


text \<open>
  C8 as stated fails: for the template titled \<^verbatim>\<open>Alpha\<close> the serialized reference is not
  the label, the title, a line break and the body, and that string does not occur
  anywhere in the request text.
\<close>

theorem spec_reference_format_counterexample:
  "serializeReference ex_tA \<noteq> spec_serializeReference ex_tA
   \<and> \<not> sublist (spec_serializeReference ex_tA) (userRequestText ex_req)"
  by (simp add: serializeReference_def spec_serializeReference_def ex_tA_def ex_tB_def ex_req_def
      userRequestText_def referenceBlock_def bool_str_def sublist_code)

lemma reference_needles:
  "CHR 0x0A \<notin> set ''REFERENCE TEMPLATE''" "CHR 0x22 \<notin> set ''REFERENCE TEMPLATE''"
  "''REFERENCE TEMPLATE'' \<noteq> []"
  "CHR 0x0A \<notin> set ''creative inspiration''" "CHR 0x22 \<notin> set ''creative inspiration''"
  "''creative inspiration'' \<noteq> []"
  by simp_all

lemma static_free_of_reference:
  "\<not> sublist ''REFERENCE TEMPLATE'' ''--- USER REQUEST & CREATIVE CONTROLS ---''"
  "\<not> sublist ''REFERENCE TEMPLATE'' (''jsonModeEnabled: '' @ bool_str j)"
  "\<not> sublist ''REFERENCE TEMPLATE'' (''marsLspEnabled: '' @ bool_str m)"
  "\<not> sublist ''REFERENCE TEMPLATE'' (''style: '' @ Style_str s)"
  "\<not> sublist ''REFERENCE TEMPLATE'' (''length: '' @ Length_str l)"
  "\<not> sublist ''REFERENCE TEMPLATE'' ''User's basic prompt: ''"
  "\<not> sublist ''REFERENCE TEMPLATE'' ''Enhanced prompt, JSON object, or video description:''"
  by (cases j; cases m; cases s; cases l; simp add: bool_str_def sublist_code)+

lemma static_free_of_inspiration:
  "\<not> sublist ''creative inspiration'' ''--- USER REQUEST & CREATIVE CONTROLS ---''"
  "\<not> sublist ''creative inspiration'' (''jsonModeEnabled: '' @ bool_str j)"
  "\<not> sublist ''creative inspiration'' (''marsLspEnabled: '' @ bool_str m)"
  "\<not> sublist ''creative inspiration'' (''style: '' @ Style_str s)"
  "\<not> sublist ''creative inspiration'' (''length: '' @ Length_str l)"
  "\<not> sublist ''creative inspiration'' ''User's basic prompt: ''"
  "\<not> sublist ''creative inspiration'' ''Enhanced prompt, JSON object, or video description:''"
  by (cases j; cases m; cases s; cases l; simp add: bool_str_def sublist_code)+

lemma no_block_without_references:
  assumes "req_referencedTemplates r = None \<or> req_referencedTemplates r = Some []"
  shows "userRequestText r = userRequestText (r\<lparr>req_referencedTemplates := None\<rparr>)"
    and "prefix ''--- USER REQUEST & CREATIVE CONTROLS ---'' (userRequestText r)"
    and "\<not> sublist ''REFERENCE TEMPLATE'' (req_prompt r)
           \<Longrightarrow> \<not> sublist ''REFERENCE TEMPLATE'' (userRequestText r)"
    and "\<not> sublist ''creative inspiration'' (req_prompt r)
           \<Longrightarrow> \<not> sublist ''creative inspiration'' (userRequestText r)"
proof -
  have rb: "referenceBlock (req_referencedTemplates r) = []"
    using assms by (auto simp: referenceBlock_def)
  show eq: "userRequestText r = userRequestText (r\<lparr>req_referencedTemplates := None\<rparr>)"
    using userRequestText_split [of r] rb by simp
  show "prefix ''--- USER REQUEST & CREATIVE CONTROLS ---'' (userRequestText r)"
    using rb by (simp add: userRequestText_def)
  show "\<not> sublist ''REFERENCE TEMPLATE'' (userRequestText r)"
    if "\<not> sublist ''REFERENCE TEMPLATE'' (req_prompt r)"
    using sublist_controls [OF reference_needles(1,2,3), of r] that eq
      static_free_of_reference(1,6,7) static_free_of_reference(2) [of "req_isJsonMode r"]
      static_free_of_reference(3) [of "req_useMarsLsp r"]
      static_free_of_reference(4) [of "req_style r"]
      static_free_of_reference(5) [of "req_length r"]
    by metis
  show "\<not> sublist ''creative inspiration'' (userRequestText r)"
    if "\<not> sublist ''creative inspiration'' (req_prompt r)"
    using sublist_controls [OF reference_needles(4,5,6), of r] that eq
      static_free_of_inspiration(1,6,7) static_free_of_inspiration(2) [of "req_isJsonMode r"]
      static_free_of_inspiration(3) [of "req_useMarsLsp r"]
      static_free_of_inspiration(4) [of "req_style r"]
      static_free_of_inspiration(5) [of "req_length r"]
    by metis
qed

lemma block_with_references:
  assumes "req_referencedTemplates r = Some ts" and "ts \<noteq> []"
  shows "userRequestText r =
           ''Use the following templates as creative inspiration:\<newline>\<newline>''
           @ join ''\<newline>\<newline>'' (map serializeReference ts)
           @ ''\<newline>\<newline>''
           @ userRequestText (r\<lparr>req_referencedTemplates := None\<rparr>)"
    and "\<forall>t\<in>set ts. sublist (serializeReference t) (userRequestText r)"
proof -
  let ?I = "''Use the following templates as creative inspiration:\<newline>\<newline>''"
  let ?J = "join ''\<newline>\<newline>'' (map serializeReference ts)"
  let ?R = "''\<newline>\<newline>'' @ userRequestText (r\<lparr>req_referencedTemplates := None\<rparr>)"
  have rb: "referenceBlock (req_referencedTemplates r) = ?I @ ?J @ ''\<newline>\<newline>''"
    using assms by (simp add: referenceBlock_def)
  have "userRequestText r = referenceBlock (req_referencedTemplates r)
      @ userRequestText (r\<lparr>req_referencedTemplates := None\<rparr>)"
    by (rule userRequestText_split)
  then show eq: "userRequestText r = ?I @ ?J @ ''\<newline>\<newline>''
      @ userRequestText (r\<lparr>req_referencedTemplates := None\<rparr>)"
    by (simp only: rb append_assoc)
  then have eq': "userRequestText r = ?I @ ?J @ ?R" by simp
  show "\<forall>t\<in>set ts. sublist (serializeReference t) (userRequestText r)"
  proof
    fix t assume "t \<in> set ts"
    then have "sublist (serializeReference t) ?J" by (rule sublist_join_member)
    also have "sublist ?J (?I @ ?J @ ?R)" by (rule sublist_appendI)
    finally show "sublist (serializeReference t) (userRequestText r)"
      by (simp only: eq')
  qed
qed


text \<open>
  C8, amended. For a non-empty reference list the request text starts with the
  instruction to use the templates as creative inspiration and a blank line, followed by
  the references joined by blank lines, a blank line, and the request as it would be
  without references; each reference is serialized as three dashes, the label
  \<^verbatim>\<open>REFERENCE TEMPLATE:\<close>, the title in double quotes, three dashes, a line break and the
  prompt body, and occurs in the request text. For a missing or empty list the text is
  that of the request without references and starts with the controls header; unless the
  prompt itself contains them, neither the label nor the instruction occurs in it.
\<close>

theorem reference_block_format:
  \<open>(\<forall>ts. req_referencedTemplates r = Some ts \<and> ts \<noteq> [] \<longrightarrow>
      userRequestText r =
        ''Use the following templates as creative inspiration:\<newline>\<newline>''
        @ join ''\<newline>\<newline>''
            (map (\<lambda>t. ''--- REFERENCE TEMPLATE: "'' @ title t @ ''" ---\<newline>'' @ prompt t) ts)
        @ ''\<newline>\<newline>''
        @ userRequestText (r\<lparr>req_referencedTemplates := None\<rparr>)
      \<and> (\<forall>t\<in>set ts.
            sublist (''--- REFERENCE TEMPLATE: "'' @ title t @ ''" ---\<newline>'' @ prompt t)
              (userRequestText r)))
   \<and> (req_referencedTemplates r = None \<or> req_referencedTemplates r = Some [] \<longrightarrow>
        userRequestText r = userRequestText (r\<lparr>req_referencedTemplates := None\<rparr>)
        \<and> prefix ''--- USER REQUEST & CREATIVE CONTROLS ---'' (userRequestText r)
        \<and> (\<not> sublist ''REFERENCE TEMPLATE'' (req_prompt r)
             \<longrightarrow> \<not> sublist ''REFERENCE TEMPLATE'' (userRequestText r))
        \<and> (\<not> sublist ''creative inspiration'' (req_prompt r)
             \<longrightarrow> \<not> sublist ''creative inspiration'' (userRequestText r)))\<close>
proof -
  have ser: \<open>(\<lambda>t. ''--- REFERENCE TEMPLATE: "'' @ title t @ ''" ---\<newline>'' @ prompt t)
      = serializeReference\<close>
    by (rule ext) (simp add: serializeReference_def)
  show ?thesis
    unfolding ser
    using block_with_references [of r] no_block_without_references [of r]
    by (simp add: serializeReference_def)
qed

text \<open>C8, amended, at a request with two references, with an empty list and with none.\<close>

theorem reference_block_format_witness:
  \<open>userRequestText ex_req =
     ''Use the following templates as creative inspiration:\<newline>\<newline>''
     @ ''--- REFERENCE TEMPLATE: "Alpha" ---\<newline>a slow pan''
     @ ''\<newline>\<newline>''
     @ ''--- REFERENCE TEMPLATE: "Beta" ---\<newline>a fast zoom''
     @ ''\<newline>\<newline>''
     @ userRequestText (ex_req\<lparr>req_referencedTemplates := None\<rparr>)
   \<and> sublist ''--- REFERENCE TEMPLATE: "Beta" ---\<newline>a fast zoom'' (userRequestText ex_req)
   \<and> \<not> sublist ''REFERENCE TEMPLATE'' (userRequestText (ex_req\<lparr>req_referencedTemplates := Some []\<rparr>))
   \<and> \<not> sublist ''creative inspiration'' (userRequestText (ex_req\<lparr>req_referencedTemplates := None\<rparr>))\<close>
proof -
  let ?e = "ex_req\<lparr>req_referencedTemplates := Some []\<rparr>"
  let ?n = "ex_req\<lparr>req_referencedTemplates := None\<rparr>"
  note full = reference_block_format [of ex_req]
  note empty = reference_block_format [of ?e]
  note none = reference_block_format [of ?n]
  have refs: "req_referencedTemplates ex_req = Some [ex_tA, ex_tB] \<and> [ex_tA, ex_tB] \<noteq> []"
    by (simp add: ex_req_def)
  from full refs have
    a: \<open>userRequestText ex_req =
        ''Use the following templates as creative inspiration:\<newline>\<newline>''
        @ join ''\<newline>\<newline>''
            (map (\<lambda>t. ''--- REFERENCE TEMPLATE: "'' @ title t @ ''" ---\<newline>'' @ prompt t)
               [ex_tA, ex_tB])
        @ ''\<newline>\<newline>''
        @ userRequestText (ex_req\<lparr>req_referencedTemplates := None\<rparr>)\<close>
    and b: \<open>\<forall>t\<in>set [ex_tA, ex_tB].
        sublist (''--- REFERENCE TEMPLATE: "'' @ title t @ ''" ---\<newline>'' @ prompt t)
          (userRequestText ex_req)\<close>
    by blast+
  have 1: \<open>userRequestText ex_req =
     ''Use the following templates as creative inspiration:\<newline>\<newline>''
     @ ''--- REFERENCE TEMPLATE: "Alpha" ---\<newline>a slow pan''
     @ ''\<newline>\<newline>''
     @ ''--- REFERENCE TEMPLATE: "Beta" ---\<newline>a fast zoom''
     @ ''\<newline>\<newline>''
     @ userRequestText (ex_req\<lparr>req_referencedTemplates := None\<rparr>)\<close>
    by (subst a) (simp add: ex_tA_def ex_tB_def)
  from b have \<open>sublist (''--- REFERENCE TEMPLATE: "'' @ title ex_tB @ ''" ---\<newline>'' @ prompt ex_tB)
      (userRequestText ex_req)\<close>
    by simp
  then have 2: \<open>sublist ''--- REFERENCE TEMPLATE: "Beta" ---\<newline>a fast zoom'' (userRequestText ex_req)\<close>
    by (simp add: ex_tB_def)
  have p: "\<not> sublist ''REFERENCE TEMPLATE'' ''a cat on a roof''"
    "\<not> sublist ''creative inspiration'' ''a cat on a roof''"
    by (simp_all add: sublist_code)
  have "req_referencedTemplates ?e = Some []" "\<not> sublist ''REFERENCE TEMPLATE'' (req_prompt ?e)"
    using p by (simp_all add: ex_req_def)
  with empty have 3: "\<not> sublist ''REFERENCE TEMPLATE'' (userRequestText ?e)"
    by blast
  have "req_referencedTemplates ?n = None" "\<not> sublist ''creative inspiration'' (req_prompt ?n)"
    using p by (simp_all add: ex_req_def)
  with none have 4: "\<not> sublist ''creative inspiration'' (userRequestText ?n)"
    by blast
  from 1 2 3 4 show ?thesis by (intro conjI)
qed

section \<open>History is committed only after a completed, non-empty stream\<close>

lemma accumulate_concat:
  "accumulate acc chunks = acc @ concat (map (case_option [] id) chunks)"
  by (induction acc chunks rule: accumulate.induct) (auto split: option.splits)

lemma handleSubmit_rejected:
  assumes "pv_prompt pv = []" "pv_media pv = None"
  shows "handleSubmit env pv st =
     \<lparr> res_view = pv\<lparr>pv_error := Some ''Please enter a prompt or upload media.''\<rparr>,
       res_app = st, res_calls = [] \<rparr>"
  using assms by (simp add: handleSubmit_def)

lemma handleSubmit_missing_key:
  assumes "pv_prompt pv \<noteq> [] \<or> pv_media pv \<noteq> None" "apiKeyToUse env (settings st) = []"
  shows "handleSubmit env pv st =
     \<lparr> res_view = pv\<lparr>pv_isLoading := False, pv_generatedPrompt := [],
                      pv_error := Some ''API Key is missing. Please configure it in settings.''\<rparr>,
       res_app = st, res_calls = [] \<rparr>"
  using assms by (auto simp add: handleSubmit_def Let_def)


lemma handleSubmit_media_failed:
  assumes "pv_prompt pv \<noteq> [] \<or> pv_media pv \<noteq> None" "apiKeyToUse env (settings st) \<noteq> []"
    and "pv_media pv = Some f" "env_fileToBase64 env f = Inl msg"
  shows "res_app (handleSubmit env pv st) = st" "res_calls (handleSubmit env pv st) = []"
  using assms by (simp_all add: handleSubmit_def Let_def)

lemma handleSubmit_called:
  assumes "pv_prompt pv \<noteq> [] \<or> pv_media pv \<noteq> None" "apiKeyToUse env (settings st) \<noteq> []"
    and "(case pv_media pv of None \<Rightarrow> Inr None
          | Some f \<Rightarrow> (case env_fileToBase64 env f of Inl msg \<Rightarrow> Inl msg | Inr m \<Rightarrow> Inr (Some m)))
         = Inr mediaData"
    and "call = streamEnhancePrompt_call (env_SYSTEM_PROMPT env)
           (submitRequest pv (apiKeyToUse env (settings st)) mediaData
              (allReferencedTemplates (templates st) (pv_selectedTags pv)
                 (pv_selectedBundles pv) (pv_selectedIndividualTemplates pv)))"
  shows "res_calls (handleSubmit env pv st) = [call]"
    and "res_app (handleSubmit env pv st) =
           (case env_generateContentStream env call of
              CallFailed msg \<Rightarrow> st
            | Stream chunks ending \<Rightarrow>
                (case ending of
                   Some msg \<Rightarrow> st
                 | None \<Rightarrow>
                     if accumulate [] chunks \<noteq> []
                     then setHistory (\<lambda>prev. newHistoryItem env pv
                            (allReferencedTemplates (templates st) (pv_selectedTags pv)
                               (pv_selectedBundles pv) (pv_selectedIndividualTemplates pv))
                            (accumulate [] chunks) # prev) st
                     else st))"
proof -
  let ?h = "handleSubmit env pv st"
  have c: "\<not> (pv_prompt pv = [] \<and> pv_media pv = None)" using assms(1) by simp
  have h: "?h = (case env_generateContentStream env call of
        CallFailed msg \<Rightarrow>
          \<lparr> res_view = pv\<lparr>pv_isLoading := True, pv_generatedPrompt := [], pv_error := None\<rparr>
                \<lparr>pv_error := Some (errorMessage msg), pv_isLoading := False\<rparr>,
            res_app = st, res_calls = [call] \<rparr>
      | Stream chunks ending \<Rightarrow>
          (case ending of
             Some msg \<Rightarrow>
               \<lparr> res_view = pv\<lparr>pv_isLoading := True, pv_generatedPrompt := [], pv_error := None\<rparr>
                     \<lparr>pv_generatedPrompt := accumulate [] chunks\<rparr>
                     \<lparr>pv_error := Some (errorMessage msg), pv_isLoading := False\<rparr>,
                 res_app = st, res_calls = [call] \<rparr>
           | None \<Rightarrow>
               \<lparr> res_view = pv\<lparr>pv_isLoading := True, pv_generatedPrompt := [], pv_error := None\<rparr>
                     \<lparr>pv_generatedPrompt := accumulate [] chunks\<rparr>\<lparr>pv_isLoading := False\<rparr>,
                 res_app =
                   (if accumulate [] chunks \<noteq> []
                    then setHistory (\<lambda>prev. newHistoryItem env pv
                            (allReferencedTemplates (templates st) (pv_selectedTags pv)
                               (pv_selectedBundles pv) (pv_selectedIndividualTemplates pv))
                            (accumulate [] chunks) # prev) st
                    else st),
                 res_calls = [call] \<rparr>))"
    unfolding assms(4) handleSubmit_def Let_def if_not_P [OF c] if_not_P [OF assms(2)] assms(3)
    by simp
  show "res_calls ?h = [call]"
    unfolding h by (simp split: StreamResult.split option.split)
  show "res_app ?h =
           (case env_generateContentStream env call of
              CallFailed msg \<Rightarrow> st
            | Stream chunks ending \<Rightarrow>
                (case ending of
                   Some msg \<Rightarrow> st
                 | None \<Rightarrow>
                     if accumulate [] chunks \<noteq> []
                     then setHistory (\<lambda>prev. newHistoryItem env pv
                            (allReferencedTemplates (templates st) (pv_selectedTags pv)
                               (pv_selectedBundles pv) (pv_selectedIndividualTemplates pv))
                            (accumulate [] chunks) # prev) st
                     else st))"
    unfolding h by (simp split: StreamResult.split option.split)
qed


lemma handleSubmit_cases:
  "(res_calls (handleSubmit env pv st) = [] \<and> res_app (handleSubmit env pv st) = st)
   \<or> (\<exists>call. res_calls (handleSubmit env pv st) = [call]
        \<and> res_app (handleSubmit env pv st) =
           (case env_generateContentStream env call of
              CallFailed msg \<Rightarrow> st
            | Stream chunks ending \<Rightarrow>
                (case ending of
                   Some msg \<Rightarrow> st
                 | None \<Rightarrow>
                     if accumulate [] chunks \<noteq> []
                     then setHistory (\<lambda>prev. newHistoryItem env pv
                            (allReferencedTemplates (templates st) (pv_selectedTags pv)
                               (pv_selectedBundles pv) (pv_selectedIndividualTemplates pv))
                            (accumulate [] chunks) # prev) st
                     else st)))"
proof (cases "pv_prompt pv = [] \<and> pv_media pv = None")
  case True
  then show ?thesis by (simp add: handleSubmit_rejected)
next
  case input: False
  show ?thesis
  proof (cases "apiKeyToUse env (settings st) = []")
    case True
    with input show ?thesis by (simp add: handleSubmit_missing_key)
  next
    case key: False
    let ?m = "case pv_media pv of None \<Rightarrow> Inr None
          | Some f \<Rightarrow> (case env_fileToBase64 env f of Inl msg \<Rightarrow> Inl msg | Inr m \<Rightarrow> Inr (Some m))"
    show ?thesis
    proof (cases ?m)
      case (Inl msg)
      then obtain f where "pv_media pv = Some f" "env_fileToBase64 env f = Inl msg"
        by (auto split: option.splits sum.splits)
      with input key show ?thesis by (simp add: handleSubmit_media_failed)
    next
      case (Inr mediaData)
      from input have i: "pv_prompt pv \<noteq> [] \<or> pv_media pv \<noteq> None" by simp
      show ?thesis
        using handleSubmit_called [OF i key Inr refl] by blast
    qed
  qed
qed

lemma setHistory_fields:
  "history (setHistory f st) = f (history st)"
  "db_history (setHistory f st) = setStoreData h_id (f (history st))"
  "templates (setHistory f st) = templates st" "bundles (setHistory f st) = bundles st"
  "settings (setHistory f st) = settings st"
  "db_templates (setHistory f st) = db_templates st" "db_bundles (setHistory f st) = db_bundles st"
  "db_settings (setHistory f st) = db_settings st" "toasts (setHistory f st) = toasts st"
  by (simp_all add: setHistory_def Let_def)

text \<open>
  C2. A run of \<^verbatim>\<open>handleSubmit\<close> adds a history record exactly when it reached the backend,
  the stream it got back ended normally, and the texts of its chunks, concatenated in
  arrival order, are not empty. The record is then put in front of the history, its
  \<^verbatim>\<open>generatedPrompt\<close> is that concatenation, and the history store is rewritten with the
  new list. In every other case (no call was made, the call failed, the stream failed
  after any number of fragments, or the stream ended with nothing accumulated) the
  application state is exactly what it was.
\<close>

theorem handleSubmit_history_commit:
  "let r = handleSubmit env pv st
   in (\<forall>call chunks.
         res_calls r = [call] \<and> env_generateContentStream env call = Stream chunks None
         \<and> concat (map (case_option [] id) chunks) \<noteq> []
         \<longrightarrow> (\<exists>item. history (res_app r) = item # history st
                \<and> generatedPrompt item = concat (map (case_option [] id) chunks)
                \<and> db_history (res_app r) = setStoreData h_id (item # history st)))
      \<and> (\<not> (\<exists>call chunks.
               res_calls r = [call] \<and> env_generateContentStream env call = Stream chunks None
               \<and> concat (map (case_option [] id) chunks) \<noteq> [])
           \<longrightarrow> res_app r = st)
      \<and> (\<forall>call chunks msg.
            res_calls r = [call] \<and> env_generateContentStream env call = Stream chunks (Some msg)
            \<longrightarrow> res_app r = st)
      \<and> (\<forall>call msg.
            res_calls r = [call] \<and> env_generateContentStream env call = CallFailed msg
            \<longrightarrow> res_app r = st)
      \<and> (res_calls r = [] \<longrightarrow> res_app r = st)"
proof -
  let ?r = "handleSubmit env pv st"
  let ?text = "\<lambda>chunks. concat (map (case_option [] id) chunks)"
  have acc: "accumulate [] chunks = ?text chunks" for chunks
    by (simp add: accumulate_concat)
  consider (none) "res_calls ?r = []" "res_app ?r = st"
    | (one) call where "res_calls ?r = [call]"
        "res_app ?r =
           (case env_generateContentStream env call of
              CallFailed msg \<Rightarrow> st
            | Stream chunks ending \<Rightarrow>
                (case ending of
                   Some msg \<Rightarrow> st
                 | None \<Rightarrow>
                     if accumulate [] chunks \<noteq> []
                     then setHistory (\<lambda>prev. newHistoryItem env pv
                            (allReferencedTemplates (templates st) (pv_selectedTags pv)
                               (pv_selectedBundles pv) (pv_selectedIndividualTemplates pv))
                            (accumulate [] chunks) # prev) st
                     else st))"
    using handleSubmit_cases [of env pv st] by blast
  then show ?thesis
  proof cases
    case none
    then show ?thesis by (simp add: Let_def)
  next
    case one
    show ?thesis
    proof (cases "env_generateContentStream env call")
      case (CallFailed msg)
      with one show ?thesis by (simp add: Let_def)
    next
      case (Stream chunks ending)
      show ?thesis
      proof (cases ending)
        case (Some msg)
        with one Stream show ?thesis by (simp add: Let_def)
      next
        case None
        show ?thesis
        proof (cases "?text chunks = []")
          case True
          with one Stream None show ?thesis by (simp add: Let_def acc)
        next
          case False
          let ?item = "newHistoryItem env pv
              (allReferencedTemplates (templates st) (pv_selectedTags pv)
                 (pv_selectedBundles pv) (pv_selectedIndividualTemplates pv)) (?text chunks)"
          have app: "res_app ?r = setHistory (\<lambda>prev. ?item # prev) st"
            using one Stream None False by (simp add: acc)
          have "history (res_app ?r) = ?item # history st"
            "generatedPrompt ?item = ?text chunks"
            "db_history (res_app ?r) = setStoreData h_id (?item # history st)"
            by (simp_all add: app setHistory_fields newHistoryItem_def)
          then have "\<exists>item. history (res_app ?r) = item # history st
                \<and> generatedPrompt item = ?text chunks
                \<and> db_history (res_app ?r) = setStoreData h_id (item # history st)"
            by blast
          with one(1) Stream None False show ?thesis unfolding Let_def by auto
        qed
      qed
    qed
  qed
qed


text \<open>
  C2 on four streams: the fragments A, B, C; no fragment at all; two fragments and then a
  failure; a call that fails.
\<close>

theorem handleSubmit_history_commit_witness:
  "(\<exists>item. history (res_app (handleSubmit
        (ex_env (Stream [Some ''A'', Some ''B'', Some ''C''] None) BatchNoTemplates) ex_pv ex_st))
        = [item] \<and> generatedPrompt item = ''ABC'')
   \<and> history (res_app (handleSubmit (ex_env (Stream [] None) BatchNoTemplates) ex_pv ex_st)) = []
   \<and> history (res_app (handleSubmit
        (ex_env (Stream [Some ''A'', Some ''B''] (Some ''connection lost'')) BatchNoTemplates)
        ex_pv ex_st)) = []
   \<and> history (res_app (handleSubmit (ex_env (CallFailed ''quota'') BatchNoTemplates) ex_pv ex_st)) = []"
proof -
  let ?abc = "ex_env (Stream [Some ''A'', Some ''B'', Some ''C''] None) BatchNoTemplates"
  let ?none = "ex_env (Stream [] None) BatchNoTemplates"
  let ?lost = "ex_env (Stream [Some ''A'', Some ''B''] (Some ''connection lost'')) BatchNoTemplates"
  let ?fail = "ex_env (CallFailed ''quota'') BatchNoTemplates"
  have calls: "\<exists>call. res_calls (handleSubmit (ex_env answer BatchNoTemplates) ex_pv ex_st) = [call]"
    for answer
    by (cases answer)
      (simp_all add: handleSubmit_def Let_def ex_env_def ex_pv_def ex_st_def ex_settings_def
        apiKeyToUse_def split: option.split)
  have h0: "history ex_st = []" by (simp add: ex_st_def)
  have answer: "env_generateContentStream (ex_env answer BatchNoTemplates) call = answer"
    for answer call
    by (simp add: ex_env_def)
  obtain c1 where c1: "res_calls (handleSubmit ?abc ex_pv ex_st) = [c1]" using calls by blast
  have "\<exists>item. history (res_app (handleSubmit ?abc ex_pv ex_st)) = item # history ex_st
      \<and> generatedPrompt item = concat (map (case_option [] id) [Some ''A'', Some ''B'', Some ''C''])"
    using handleSubmit_history_commit [of ?abc ex_pv ex_st] c1 answer [of _ c1]
    unfolding Let_def by auto
  then have 1: "\<exists>item. history (res_app (handleSubmit ?abc ex_pv ex_st)) = [item]
      \<and> generatedPrompt item = ''ABC''"
    by (simp add: h0)
  have n: "\<not> (\<exists>call chunks. res_calls (handleSubmit ?none ex_pv ex_st) = [call]
      \<and> env_generateContentStream ?none call = Stream chunks None
      \<and> concat (map (case_option [] id) chunks) \<noteq> [])"
    by (auto simp: answer)
  have "res_app (handleSubmit ?none ex_pv ex_st) = ex_st"
    using handleSubmit_history_commit [of ?none ex_pv ex_st] n unfolding Let_def by blast
  then have 2: "history (res_app (handleSubmit ?none ex_pv ex_st)) = []" by (simp add: h0)
  obtain c3 where c3: "res_calls (handleSubmit ?lost ex_pv ex_st) = [c3]" using calls by blast
  have "res_app (handleSubmit ?lost ex_pv ex_st) = ex_st"
    using handleSubmit_history_commit [of ?lost ex_pv ex_st] c3 answer [of _ c3]
    unfolding Let_def by blast
  then have 3: "history (res_app (handleSubmit ?lost ex_pv ex_st)) = []" by (simp add: h0)
  obtain c4 where c4: "res_calls (handleSubmit ?fail ex_pv ex_st) = [c4]" using calls by blast
  have "res_app (handleSubmit ?fail ex_pv ex_st) = ex_st"
    using handleSubmit_history_commit [of ?fail ex_pv ex_st] c4 answer [of _ c4]
    unfolding Let_def by blast
  then have 4: "history (res_app (handleSubmit ?fail ex_pv ex_st)) = []" by (simp add: h0)
  from 1 2 3 4 show ?thesis by (intro conjI)
qed

section \<open>Batch metadata: all templates or none\<close>

lemma newTemplates_ok:
  "index + length ps \<le> length ms \<Longrightarrow>
     \<exists>ts. newTemplates uuid ms index ps = Inr ts \<and> length ts = length ps
       \<and> (\<forall>i<length ps. t_id (ts ! i) = uuid (index + i) \<and> prompt (ts ! i) = ps ! i
             \<and> title (ts ! i) = md_title (ms ! (index + i))
             \<and> description (ts ! i) = md_description (ms ! (index + i))
             \<and> tags (ts ! i) = md_tags (ms ! (index + i))
             \<and> models (ts ! i) = [''Sora 2.2''])"
proof (induction ps arbitrary: index)
  case Nil
  show ?case by simp
next
  case (Cons p ps)
  from Cons.prems have "Suc index + length ps \<le> length ms" by simp
  from Cons.IH [OF this] obtain ts where ts:
    "newTemplates uuid ms (Suc index) ps = Inr ts" "length ts = length ps"
    "\<forall>i<length ps. t_id (ts ! i) = uuid (Suc index + i) \<and> prompt (ts ! i) = ps ! i
             \<and> title (ts ! i) = md_title (ms ! (Suc index + i))
             \<and> description (ts ! i) = md_description (ms ! (Suc index + i))
             \<and> tags (ts ! i) = md_tags (ms ! (Suc index + i))
             \<and> models (ts ! i) = [''Sora 2.2'']"
    by blast
  let ?t = "\<lparr> t_id = uuid index, title = md_title (ms ! index),
              description = md_description (ms ! index), prompt = p,
              tags = md_tags (ms ! index), models = [''Sora 2.2''],
              exampleVideo = None, exampleVideoType = None \<rparr>"
  from Cons.prems have lt: "index < length ms" by simp
  have eq: "newTemplates uuid ms index (p # ps) = Inr (?t # ts)"
    using lt ts(1) by simp
  have "\<forall>i<length (p # ps). t_id ((?t # ts) ! i) = uuid (index + i)
             \<and> prompt ((?t # ts) ! i) = (p # ps) ! i
             \<and> title ((?t # ts) ! i) = md_title (ms ! (index + i))
             \<and> description ((?t # ts) ! i) = md_description (ms ! (index + i))
             \<and> tags ((?t # ts) ! i) = md_tags (ms ! (index + i))
             \<and> models ((?t # ts) ! i) = [''Sora 2.2'']"
  proof (intro allI impI)
    fix i assume "i < length (p # ps)"
    show "t_id ((?t # ts) ! i) = uuid (index + i)
             \<and> prompt ((?t # ts) ! i) = (p # ps) ! i
             \<and> title ((?t # ts) ! i) = md_title (ms ! (index + i))
             \<and> description ((?t # ts) ! i) = md_description (ms ! (index + i))
             \<and> tags ((?t # ts) ! i) = md_tags (ms ! (index + i))
             \<and> models ((?t # ts) ! i) = [''Sora 2.2'']"
    proof (cases i)
      case 0
      then show ?thesis by simp
    next
      case (Suc j)
      with \<open>i < length (p # ps)\<close> have "j < length ps" by simp
      with ts(3) Suc show ?thesis by simp
    qed
  qed
  with eq ts(2) show ?case by simp
qed

lemma setTemplates_fields:
  "templates (setTemplates f st) = f (templates st)"
  "db_templates (setTemplates f st) = setStoreData t_id (f (templates st))"
  "history (setTemplates f st) = history st" "bundles (setTemplates f st) = bundles st"
  "settings (setTemplates f st) = settings st"
  "db_history (setTemplates f st) = db_history st" "db_bundles (setTemplates f st) = db_bundles st"
  "db_settings (setTemplates f st) = db_settings st" "toasts (setTemplates f st) = toasts st"
  by (simp_all add: setTemplates_def Let_def)

lemma showToast_fields:
  "templates (showToast t st) = templates st" "history (showToast t st) = history st"
  "bundles (showToast t st) = bundles st" "settings (showToast t st) = settings st"
  "db_templates (showToast t st) = db_templates st" "db_history (showToast t st) = db_history st"
  "db_bundles (showToast t st) = db_bundles st" "db_settings (showToast t st) = db_settings st"
  "toasts (showToast t st) = toasts st @ [t]"
  by (simp_all add: showToast_def)

lemma handleGenerateAndSave_no_prompts:
  assumes "map snd (filter (\<lambda>p. trim (snd p) \<noteq> []) (ba_prompts m)) = []"
  shows "handleGenerateAndSave env m st =
     \<lparr> br_modal = m,
       br_app = showToast \<lparr> message = ''Please add at least one prompt.'', toast_type = Error \<rparr> st,
       br_calls = [] \<rparr>"
  using assms by (simp add: handleGenerateAndSave_def Let_def)

lemma handleGenerateAndSave_missing_key:
  assumes "map snd (filter (\<lambda>p. trim (snd p) \<noteq> []) (ba_prompts m)) \<noteq> []"
    and "apiKeyToUse env (settings st) = []"
  shows "handleGenerateAndSave env m st =
     \<lparr> br_modal = m\<lparr>ba_isGenerating := False\<rparr>,
       br_app = showToast
         \<lparr> message = ''API Key is missing. Please configure it in settings.'',
           toast_type = Error \<rparr> st,
       br_calls = [] \<rparr>"
  using assms by (simp add: handleGenerateAndSave_def Let_def)

lemma handleGenerateAndSave_called:
  assumes ne: "map snd (filter (\<lambda>p. trim (snd p) \<noteq> []) (ba_prompts m)) \<noteq> []"
    and key: "apiKeyToUse env (settings st) \<noteq> []"
    and r: "r = \<lparr> bm_prompts = map snd (filter (\<lambda>p. trim (snd p) \<noteq> []) (ba_prompts m)),
                  bm_guidance = ba_guidance m, bm_existingTags = ba_existingTags m,
                  bm_apiKey = apiKeyToUse env (settings st) \<rparr>"
  shows "br_calls (handleGenerateAndSave env m st) = [r]"
    and "br_app (handleGenerateAndSave env m st) =
      (case generateBatchTemplateMetadata (env_generateContent env) r of
         Inl msg \<Rightarrow> showToast \<lparr> message = (if msg = [] then ''Failed to generate metadata.'' else msg),
                                toast_type = Error \<rparr> st
       | Inr metadataArray \<Rightarrow>
           (case newTemplates (env_randomUUID env) metadataArray 0 (bm_prompts r) of
              Inl msg \<Rightarrow> showToast \<lparr> message = (if msg = [] then ''Failed to generate metadata.'' else msg),
                                     toast_type = Error \<rparr> st
            | Inr ts \<Rightarrow> handleSaveBatchTemplates ts st))"
proof -
  have n: "\<not> length (map snd (filter (\<lambda>p. trim (snd p) \<noteq> []) (ba_prompts m))) = 0"
    using ne by simp
  show "br_calls (handleGenerateAndSave env m st) = [r]"
    unfolding r handleGenerateAndSave_def Let_def if_not_P [OF n] if_not_P [OF key]
    by (simp split: sum.split)
  show "br_app (handleGenerateAndSave env m st) =
      (case generateBatchTemplateMetadata (env_generateContent env) r of
         Inl msg \<Rightarrow> showToast \<lparr> message = (if msg = [] then ''Failed to generate metadata.'' else msg),
                                toast_type = Error \<rparr> st
       | Inr metadataArray \<Rightarrow>
           (case newTemplates (env_randomUUID env) metadataArray 0 (bm_prompts r) of
              Inl msg \<Rightarrow> showToast \<lparr> message = (if msg = [] then ''Failed to generate metadata.'' else msg),
                                     toast_type = Error \<rparr> st
            | Inr ts \<Rightarrow> handleSaveBatchTemplates ts st))"
    unfolding r handleGenerateAndSave_def Let_def if_not_P [OF n] if_not_P [OF key]
    by (simp split: sum.split)
qed


lemma generateBatchTemplateMetadata_Inr:
  "generateBatchTemplateMetadata g r = Inr ms \<longleftrightarrow>
     g r = BatchTemplates ms \<and> length ms = length (bm_prompts r)"
  by (auto simp: generateBatchTemplateMetadata_def split: BatchResponse.splits)

lemma handleGenerateAndSave_cases:
  "(br_calls (handleGenerateAndSave env m st) = []
      \<and> (\<exists>t. br_app (handleGenerateAndSave env m st) = showToast t st))
   \<or> (\<exists>r. br_calls (handleGenerateAndSave env m st) = [r]
        \<and> bm_prompts r = map snd (filter (\<lambda>p. trim (snd p) \<noteq> []) (ba_prompts m))
        \<and> bm_prompts r \<noteq> []
        \<and> br_app (handleGenerateAndSave env m st) =
          (case generateBatchTemplateMetadata (env_generateContent env) r of
             Inl msg \<Rightarrow> showToast \<lparr> message = (if msg = [] then ''Failed to generate metadata.'' else msg),
                                toast_type = Error \<rparr> st
           | Inr metadataArray \<Rightarrow>
               (case newTemplates (env_randomUUID env) metadataArray 0 (bm_prompts r) of
                  Inl msg \<Rightarrow> showToast \<lparr> message = (if msg = [] then ''Failed to generate metadata.'' else msg),
                                     toast_type = Error \<rparr> st
                | Inr ts \<Rightarrow> handleSaveBatchTemplates ts st)))"
proof (cases "map snd (filter (\<lambda>p. trim (snd p) \<noteq> []) (ba_prompts m)) = []")
  case True
  then show ?thesis by (auto simp add: handleGenerateAndSave_no_prompts)
next
  case ne: False
  show ?thesis
  proof (cases "apiKeyToUse env (settings st) = []")
    case True
    with ne show ?thesis by (auto simp add: handleGenerateAndSave_missing_key)
  next
    case False
    let ?r = "\<lparr> bm_prompts = map snd (filter (\<lambda>p. trim (snd p) \<noteq> []) (ba_prompts m)),
                  bm_guidance = ba_guidance m, bm_existingTags = ba_existingTags m,
                  bm_apiKey = apiKeyToUse env (settings st) \<rparr>"
    have "bm_prompts ?r = map snd (filter (\<lambda>p. trim (snd p) \<noteq> []) (ba_prompts m))"
      by simp
    moreover have "bm_prompts ?r \<noteq> []" using ne by simp
    ultimately show ?thesis
      using handleGenerateAndSave_called [OF ne False refl] by blast
  qed
qed

text \<open>
  C5. When the metadata call of a batch returns a number of results different from the
  number of prompts sent, \<^verbatim>\<open>generateBatchTemplateMetadata\<close> fails with the mismatch
  error, the templates are unchanged in memory and in storage, and the error is shown.
  When it returns as many results as prompts, exactly that many templates are put in
  front of the collection, the template at each index carrying the prompt and the title,
  description and tags of the result at the same index. A failed call, a response
  without results and a run that made no call save nothing either. The prompts sent are
  the non-blank ones.
\<close>

theorem batch_metadata_all_or_nothing:
  "let res = handleGenerateAndSave env m st
   in (\<forall>r ms. br_calls res = [r] \<and> env_generateContent env r = BatchTemplates ms
          \<and> length ms \<noteq> length (bm_prompts r)
          \<longrightarrow> generateBatchTemplateMetadata (env_generateContent env) r
                = Inl ''AI returned a mismatched number of templates.''
              \<and> templates (br_app res) = templates st
              \<and> db_templates (br_app res) = db_templates st
              \<and> toasts (br_app res) = toasts st
                   @ [\<lparr> message = ''AI returned a mismatched number of templates.'',
                        toast_type = Error \<rparr>])
      \<and> (\<forall>r ms. br_calls res = [r] \<and> env_generateContent env r = BatchTemplates ms
            \<and> length ms = length (bm_prompts r)
            \<longrightarrow> (\<exists>new. templates (br_app res) = new @ templates st
                   \<and> db_templates (br_app res) = setStoreData t_id (new @ templates st)
                   \<and> length new = length (bm_prompts r)
                   \<and> (\<forall>i<length new.
                         prompt (new ! i) = bm_prompts r ! i
                         \<and> title (new ! i) = md_title (ms ! i)
                         \<and> description (new ! i) = md_description (ms ! i)
                         \<and> tags (new ! i) = md_tags (ms ! i))))
      \<and> (\<forall>r. br_calls res = [r]
            \<and> (env_generateContent env r = BatchNoTemplates
                 \<or> (\<exists>msg. env_generateContent env r = BatchFailed msg))
            \<longrightarrow> templates (br_app res) = templates st
                \<and> db_templates (br_app res) = db_templates st)
      \<and> (\<forall>r. br_calls res = [r]
            \<longrightarrow> bm_prompts r = map snd (filter (\<lambda>p. trim (snd p) \<noteq> []) (ba_prompts m)))
      \<and> (br_calls res = []
            \<longrightarrow> templates (br_app res) = templates st
                \<and> db_templates (br_app res) = db_templates st)"
proof -
  let ?res = "handleGenerateAndSave env m st"
  let ?fail = "\<lambda>msg. showToast \<lparr> message = (if msg = [] then ''Failed to generate metadata.'' else msg),
                                toast_type = Error \<rparr> st"
  consider (none) t where "br_calls ?res = []" "br_app ?res = showToast t st"
    | (one) r where "br_calls ?res = [r]"
        "bm_prompts r = map snd (filter (\<lambda>p. trim (snd p) \<noteq> []) (ba_prompts m))"
        "br_app ?res =
          (case generateBatchTemplateMetadata (env_generateContent env) r of
             Inl msg \<Rightarrow> ?fail msg
           | Inr metadataArray \<Rightarrow>
               (case newTemplates (env_randomUUID env) metadataArray 0 (bm_prompts r) of
                  Inl msg \<Rightarrow> ?fail msg
                | Inr ts \<Rightarrow> handleSaveBatchTemplates ts st))"
    using handleGenerateAndSave_cases [of env m st] by blast
  then show ?thesis
  proof cases
    case none
    then show ?thesis by (simp add: Let_def showToast_fields)
  next
    case one
    show ?thesis
    proof (cases "env_generateContent env r")
      case (BatchFailed msg)
      then have "generateBatchTemplateMetadata (env_generateContent env) r = Inl msg"
        by (simp add: generateBatchTemplateMetadata_def)
      with one BatchFailed show ?thesis by (simp add: Let_def showToast_fields)
    next
      case BatchNoTemplates
      then have "generateBatchTemplateMetadata (env_generateContent env) r
          = Inl ''AI returned a mismatched number of templates.''"
        by (simp add: generateBatchTemplateMetadata_def)
      with one BatchNoTemplates show ?thesis by (simp add: Let_def showToast_fields)
    next
      case (BatchTemplates ms)
      show ?thesis
      proof (cases "length ms = length (bm_prompts r)")
        case False
        then have "generateBatchTemplateMetadata (env_generateContent env) r
            = Inl ''AI returned a mismatched number of templates.''"
          using BatchTemplates by (simp add: generateBatchTemplateMetadata_def)
        with one BatchTemplates False show ?thesis by (simp add: Let_def showToast_fields)
      next
        case True
        then have g: "generateBatchTemplateMetadata (env_generateContent env) r = Inr ms"
          using BatchTemplates by (simp add: generateBatchTemplateMetadata_def)
        from True have "0 + length (bm_prompts r) \<le> length ms" by simp
        from newTemplates_ok [OF this, of "env_randomUUID env"] obtain ts where ts:
          "newTemplates (env_randomUUID env) ms 0 (bm_prompts r) = Inr ts"
          "length ts = length (bm_prompts r)"
          "\<forall>i<length (bm_prompts r). prompt (ts ! i) = bm_prompts r ! i
             \<and> title (ts ! i) = md_title (ms ! i)
             \<and> description (ts ! i) = md_description (ms ! i)
             \<and> tags (ts ! i) = md_tags (ms ! i)"
          by auto
        have app: "br_app ?res = handleSaveBatchTemplates ts st"
          using one(3) g ts(1) by simp
        have "templates (br_app ?res) = ts @ templates st"
          "db_templates (br_app ?res) = setStoreData t_id (ts @ templates st)"
          by (simp_all add: app handleSaveBatchTemplates_def showToast_fields setTemplates_fields)
        with ts(2,3) have "\<exists>new. templates (br_app ?res) = new @ templates st
                   \<and> db_templates (br_app ?res) = setStoreData t_id (new @ templates st)
                   \<and> length new = length (bm_prompts r)
                   \<and> (\<forall>i<length new.
                         prompt (new ! i) = bm_prompts r ! i
                         \<and> title (new ! i) = md_title (ms ! i)
                         \<and> description (new ! i) = md_description (ms ! i)
                         \<and> tags (new ! i) = md_tags (ms ! i))"
          by auto
        with one(1,2) BatchTemplates True show ?thesis unfolding Let_def by auto
      qed
    qed
  qed
qed

text \<open>
  C5 for the prompts p1, p2, p3, entered among two blank rows, one of them a no-break space
  and a tab: two results save nothing, three results save three.
\<close>

theorem batch_metadata_all_or_nothing_witness:
  "templates (br_app (handleGenerateAndSave
       (ex_env (Stream [] None) (BatchTemplates [ex_md ''a'', ex_md ''b''])) ex_modal ex_st))
     = templates ex_st
   \<and> (\<exists>new. templates (br_app (handleGenerateAndSave
         (ex_env (Stream [] None) (BatchTemplates [ex_md ''a'', ex_md ''b'', ex_md ''c'']))
         ex_modal ex_st)) = new @ templates ex_st
        \<and> map prompt new = [''p1'', ''p2'', ''p3'']
        \<and> map title new = [''Title a'', ''Title b'', ''Title c''])"
proof -
  define two where "two = ex_env (Stream [] None) (BatchTemplates [ex_md ''a'', ex_md ''b''])"
  define three where
    "three = ex_env (Stream [] None) (BatchTemplates [ex_md ''a'', ex_md ''b'', ex_md ''c''])"
  define r where "r = (\<lambda>env. \<lparr> bm_prompts = map snd (filter (\<lambda>p. trim (snd p) \<noteq> []) (ba_prompts ex_modal)),
                  bm_guidance = ba_guidance ex_modal, bm_existingTags = ba_existingTags ex_modal,
                  bm_apiKey = apiKeyToUse env (settings ex_st) \<rparr>)"
  have ps: "map snd (filter (\<lambda>p. trim (snd p) \<noteq> []) (ba_prompts ex_modal)) = [''p1'', ''p2'', ''p3'']"
    by (simp add: ex_modal_def trim_def isWhiteSpace_def)
  then have ne: "map snd (filter (\<lambda>p. trim (snd p) \<noteq> []) (ba_prompts ex_modal)) \<noteq> []"
    by simp
  have key: "apiKeyToUse (ex_env a b) (settings ex_st) \<noteq> []" for a b
    by (simp add: apiKeyToUse_def ex_env_def ex_st_def ex_settings_def)
  have rp: "bm_prompts (r env) = [''p1'', ''p2'', ''p3'']" for env
    by (simp add: r_def ps)
  have c2: "br_calls (handleGenerateAndSave two ex_modal ex_st) = [r two]"
    unfolding r_def two_def by (rule handleGenerateAndSave_called(1) [OF ne key refl])
  have c3: "br_calls (handleGenerateAndSave three ex_modal ex_st) = [r three]"
    unfolding r_def three_def by (rule handleGenerateAndSave_called(1) [OF ne key refl])
  have a2: "env_generateContent two (r two) = BatchTemplates [ex_md ''a'', ex_md ''b'']"
    by (simp add: ex_env_def two_def)
  have a3: "env_generateContent three (r three)
      = BatchTemplates [ex_md ''a'', ex_md ''b'', ex_md ''c'']"
    by (simp add: ex_env_def three_def)
  have l2: "length [ex_md ''a'', ex_md ''b''] \<noteq> length (bm_prompts (r two))"
    by (simp add: rp)
  have l3: "length [ex_md ''a'', ex_md ''b'', ex_md ''c''] = length (bm_prompts (r three))"
    by (simp add: rp)
  note mismatch = batch_metadata_all_or_nothing [of two ex_modal ex_st, unfolded Let_def,
      THEN conjunct1, rule_format, OF conjI [OF c2 conjI [OF a2 l2]]]
  then have 1: "templates (br_app (handleGenerateAndSave two ex_modal ex_st)) = templates ex_st"
    by (elim conjE)
  note match = batch_metadata_all_or_nothing [of three ex_modal ex_st, unfolded Let_def,
      THEN conjunct2, THEN conjunct1, rule_format, OF conjI [OF c3 conjI [OF a3 l3]]]
  then obtain new where new:
    "templates (br_app (handleGenerateAndSave three ex_modal ex_st)) = new @ templates ex_st"
    "length new = length (bm_prompts (r three))"
    "\<forall>i<length new. prompt (new ! i) = bm_prompts (r three) ! i
        \<and> title (new ! i) = md_title ([ex_md ''a'', ex_md ''b'', ex_md ''c''] ! i)
        \<and> description (new ! i) = md_description ([ex_md ''a'', ex_md ''b'', ex_md ''c''] ! i)
        \<and> tags (new ! i) = md_tags ([ex_md ''a'', ex_md ''b'', ex_md ''c''] ! i)"
    by (elim exE conjE)
  from new(2) have len: "length new = Suc (Suc (Suc 0))" by (simp add: rp)
  then obtain n1 n2 n3 where n: "new = [n1, n2, n3]"
    by (auto simp: length_Suc_conv)
  have "0 < length new" "1 < length new" "2 < length new" using len by simp_all
  with new(3) have "prompt (new ! 0) = bm_prompts (r three) ! 0"
    "prompt (new ! 1) = bm_prompts (r three) ! 1" "prompt (new ! 2) = bm_prompts (r three) ! 2"
    "title (new ! 0) = md_title ([ex_md ''a'', ex_md ''b'', ex_md ''c''] ! 0)"
    "title (new ! 1) = md_title ([ex_md ''a'', ex_md ''b'', ex_md ''c''] ! 1)"
    "title (new ! 2) = md_title ([ex_md ''a'', ex_md ''b'', ex_md ''c''] ! 2)"
    by blast+
  then have m: "map prompt new = [''p1'', ''p2'', ''p3'']"
    "map title new = [''Title a'', ''Title b'', ''Title c'']"
    by (simp_all add: n rp ex_md_def)
  have 2: "\<exists>new. templates (br_app (handleGenerateAndSave three ex_modal ex_st))
        = new @ templates ex_st
      \<and> map prompt new = [''p1'', ''p2'', ''p3'']
      \<and> map title new = [''Title a'', ''Title b'', ''Title c'']"
    by (rule exI [of _ new]) (intro conjI new(1) m)
  from 1 2 show ?thesis unfolding two_def three_def by (rule conjI)
qed

section \<open>A missing API key fails before any call; every run is a single attempt\<close>

lemma handleSubmit_single_attempt: "length (res_calls (handleSubmit env pv st)) \<le> 1"
  using handleSubmit_cases [of env pv st] by auto

lemma handleGenerateAndSave_single_attempt:
  "length (br_calls (handleGenerateAndSave env m st)) \<le> 1"
  using handleGenerateAndSave_cases [of env m st] by auto

lemma handleSubmit_missing_key_no_call:
  assumes "apiKeyToUse env (settings st) = []"
  shows "res_calls (handleSubmit env pv st) = []" "res_app (handleSubmit env pv st) = st"
    "pv_prompt pv \<noteq> [] \<or> pv_media pv \<noteq> None \<Longrightarrow>
       pv_error (res_view (handleSubmit env pv st))
         = Some ''API Key is missing. Please configure it in settings.''
       \<and> \<not> pv_isLoading (res_view (handleSubmit env pv st))"
proof -
  have "res_calls (handleSubmit env pv st) = [] \<and> res_app (handleSubmit env pv st) = st"
  proof (cases "pv_prompt pv = [] \<and> pv_media pv = None")
    case True
    then show ?thesis by (simp add: handleSubmit_rejected)
  next
    case False
    then have "pv_prompt pv \<noteq> [] \<or> pv_media pv \<noteq> None" by simp
    then show ?thesis by (simp add: handleSubmit_missing_key [OF _ assms])
  qed
  then show "res_calls (handleSubmit env pv st) = []" "res_app (handleSubmit env pv st) = st"
    by simp_all
  show "pv_error (res_view (handleSubmit env pv st))
         = Some ''API Key is missing. Please configure it in settings.''
       \<and> \<not> pv_isLoading (res_view (handleSubmit env pv st))"
    if "pv_prompt pv \<noteq> [] \<or> pv_media pv \<noteq> None"
    by (simp add: handleSubmit_missing_key [OF that assms])
qed

lemma handleGenerateAndSave_missing_key_no_call:
  assumes "apiKeyToUse env (settings st) = []"
  shows "br_calls (handleGenerateAndSave env m st) = []"
    "collections (br_app (handleGenerateAndSave env m st)) = collections st"
    "map snd (filter (\<lambda>p. trim (snd p) \<noteq> []) (ba_prompts m)) \<noteq> [] \<Longrightarrow>
       toasts (br_app (handleGenerateAndSave env m st)) = toasts st
         @ [\<lparr> message = ''API Key is missing. Please configure it in settings.'',
              toast_type = Error \<rparr>]"
proof -
  let ?ps = "map snd (filter (\<lambda>p. trim (snd p) \<noteq> []) (ba_prompts m))"
  have "br_calls (handleGenerateAndSave env m st) = []
      \<and> collections (br_app (handleGenerateAndSave env m st)) = collections st"
  proof (cases "?ps = []")
    case True
    show ?thesis
      by (simp add: handleGenerateAndSave_no_prompts [OF True] collections_def showToast_fields)
  next
    case False
    show ?thesis
      by (simp add: handleGenerateAndSave_missing_key [OF False assms] collections_def
          showToast_fields)
  qed
  then show "br_calls (handleGenerateAndSave env m st) = []"
    "collections (br_app (handleGenerateAndSave env m st)) = collections st"
    by simp_all
  show "toasts (br_app (handleGenerateAndSave env m st)) = toasts st
         @ [\<lparr> message = ''API Key is missing. Please configure it in settings.'',
              toast_type = Error \<rparr>]"
    if "?ps \<noteq> []"
    by (simp add: handleGenerateAndSave_missing_key [OF that assms] showToast_fields)
qed

text \<open>
  C9 as stated fails: the batch dialog opens with one empty row and its button is enabled;
  pressed with no API key configured, the run reports the missing prompt, not the missing
  key.
\<close>

theorem missing_api_key_blank_batch_counterexample:
  "apiKeyToUse (ex_env (Stream [] None) BatchNoTemplates) (settings ex_st_nokey) = []
   \<and> toasts (br_app (handleGenerateAndSave (ex_env (Stream [] None) BatchNoTemplates)
         ex_modal_blank ex_st_nokey))
       = [\<lparr> message = ''Please add at least one prompt.'', toast_type = Error \<rparr>]
   \<and> toasts (br_app (handleGenerateAndSave (ex_env (Stream [] None) BatchNoTemplates)
         ex_modal_blank ex_st_nokey))
       \<noteq> [\<lparr> message = ''API Key is missing. Please configure it in settings.'',
             toast_type = Error \<rparr>]"
proof -
  have k: "apiKeyToUse (ex_env (Stream [] None) BatchNoTemplates) (settings ex_st_nokey) = []"
    by (simp add: apiKeyToUse_def ex_env_def ex_st_nokey_def ex_settings_def)
  have b: "map snd (filter (\<lambda>p. trim (snd p) \<noteq> []) (ba_prompts ex_modal_blank)) = []"
    by (simp add: ex_modal_blank_def trim_def)
  have t: "toasts (br_app (handleGenerateAndSave (ex_env (Stream [] None) BatchNoTemplates)
         ex_modal_blank ex_st_nokey))
       = [\<lparr> message = ''Please add at least one prompt.'', toast_type = Error \<rparr>]"
    by (simp add: handleGenerateAndSave_no_prompts [OF b] showToast_fields ex_st_nokey_def
        ex_st_def)
  show ?thesis
    unfolding t using k by simp
qed

text \<open>
  C9, amended. With an empty API key neither \<^verbatim>\<open>handleSubmit\<close> nor
  \<^verbatim>\<open>handleGenerateAndSave\<close> calls the backend, and the collections stay as they are.
  Whenever there is something to generate from (a prompt or media; at least one non-blank
  batch prompt) the failure is reported with the message that the API key is missing and
  the loading flag is off again. With nothing to generate from, the input check, which
  comes first, reports the missing input instead, whatever the key. With or without a key,
  a run calls the backend at most once.
\<close>

theorem missing_api_key_fails_fast:
  "(apiKeyToUse env (settings st) = [] \<longrightarrow>
      res_calls (handleSubmit env pv st) = []
      \<and> res_app (handleSubmit env pv st) = st
      \<and> (pv_prompt pv \<noteq> [] \<or> pv_media pv \<noteq> None \<longrightarrow>
           pv_error (res_view (handleSubmit env pv st))
             = Some ''API Key is missing. Please configure it in settings.''
           \<and> \<not> pv_isLoading (res_view (handleSubmit env pv st)))
      \<and> br_calls (handleGenerateAndSave env m st) = []
      \<and> collections (br_app (handleGenerateAndSave env m st)) = collections st
      \<and> (map snd (filter (\<lambda>p. trim (snd p) \<noteq> []) (ba_prompts m)) \<noteq> [] \<longrightarrow>
           toasts (br_app (handleGenerateAndSave env m st)) = toasts st
             @ [\<lparr> message = ''API Key is missing. Please configure it in settings.'',
                  toast_type = Error \<rparr>]))
   \<and> length (res_calls (handleSubmit env pv st)) \<le> 1
   \<and> length (br_calls (handleGenerateAndSave env m st)) \<le> 1
   \<and> (pv_prompt pv = [] \<and> pv_media pv = None \<longrightarrow>
        res_calls (handleSubmit env pv st) = []
        \<and> pv_error (res_view (handleSubmit env pv st))
            = Some ''Please enter a prompt or upload media.'')
   \<and> (map snd (filter (\<lambda>p. trim (snd p) \<noteq> []) (ba_prompts m)) = [] \<longrightarrow>
        br_calls (handleGenerateAndSave env m st) = []
        \<and> toasts (br_app (handleGenerateAndSave env m st)) = toasts st
            @ [\<lparr> message = ''Please add at least one prompt.'', toast_type = Error \<rparr>])"
proof (intro conjI impI)
  assume k: "apiKeyToUse env (settings st) = []"
  show "res_calls (handleSubmit env pv st) = []"
    by (rule handleSubmit_missing_key_no_call(1) [OF k])
  show "res_app (handleSubmit env pv st) = st"
    by (rule handleSubmit_missing_key_no_call(2) [OF k])
  show "br_calls (handleGenerateAndSave env m st) = []"
    by (rule handleGenerateAndSave_missing_key_no_call(1) [OF k])
  show "collections (br_app (handleGenerateAndSave env m st)) = collections st"
    by (rule handleGenerateAndSave_missing_key_no_call(2) [OF k])
  show "toasts (br_app (handleGenerateAndSave env m st)) = toasts st
      @ [\<lparr> message = ''API Key is missing. Please configure it in settings.'',
           toast_type = Error \<rparr>]"
    if "map snd (filter (\<lambda>p. trim (snd p) \<noteq> []) (ba_prompts m)) \<noteq> []"
    by (rule handleGenerateAndSave_missing_key_no_call(3) [OF k that])
  assume i: "pv_prompt pv \<noteq> [] \<or> pv_media pv \<noteq> None"
  show "pv_error (res_view (handleSubmit env pv st))
      = Some ''API Key is missing. Please configure it in settings.''"
    using handleSubmit_missing_key_no_call(3) [OF k i] by (rule conjunct1)
  show "\<not> pv_isLoading (res_view (handleSubmit env pv st))"
    using handleSubmit_missing_key_no_call(3) [OF k i] by (rule conjunct2)
next
  show "length (res_calls (handleSubmit env pv st)) \<le> 1"
    by (rule handleSubmit_single_attempt)
  show "length (br_calls (handleGenerateAndSave env m st)) \<le> 1"
    by (rule handleGenerateAndSave_single_attempt)
next
  assume "pv_prompt pv = [] \<and> pv_media pv = None"
  then have e: "pv_prompt pv = []" "pv_media pv = None" by simp_all
  show "res_calls (handleSubmit env pv st) = []"
    by (simp add: handleSubmit_rejected [OF e])
  show "pv_error (res_view (handleSubmit env pv st))
      = Some ''Please enter a prompt or upload media.''"
    by (simp add: handleSubmit_rejected [OF e])
next
  assume b: "map snd (filter (\<lambda>p. trim (snd p) \<noteq> []) (ba_prompts m)) = []"
  show "br_calls (handleGenerateAndSave env m st) = []"
    by (simp add: handleGenerateAndSave_no_prompts [OF b])
  show "toasts (br_app (handleGenerateAndSave env m st)) = toasts st
      @ [\<lparr> message = ''Please add at least one prompt.'', toast_type = Error \<rparr>]"
    by (simp add: handleGenerateAndSave_no_prompts [OF b] showToast_fields)
qed

text \<open>
  C9, amended, on a state whose settings hold no key: with input, and with the empty
  batch dialog.
\<close>

theorem missing_api_key_fails_fast_witness:
  "res_calls (handleSubmit (ex_env (Stream [Some ''A''] None) BatchNoTemplates) ex_pv
      ex_st_nokey) = []
   \<and> pv_error (res_view (handleSubmit (ex_env (Stream [Some ''A''] None) BatchNoTemplates) ex_pv
      ex_st_nokey))
       = Some ''API Key is missing. Please configure it in settings.''
   \<and> history (res_app (handleSubmit (ex_env (Stream [Some ''A''] None) BatchNoTemplates) ex_pv
      ex_st_nokey)) = []
   \<and> br_calls (handleGenerateAndSave (ex_env (Stream [Some ''A''] None) BatchNoTemplates) ex_modal
      ex_st_nokey) = []
   \<and> map message (toasts (br_app (handleGenerateAndSave
        (ex_env (Stream [Some ''A''] None) BatchNoTemplates) ex_modal ex_st_nokey)))
       = [''API Key is missing. Please configure it in settings.'']
   \<and> map message (toasts (br_app (handleGenerateAndSave
        (ex_env (Stream [Some ''A''] None) BatchNoTemplates) ex_modal_blank ex_st_nokey)))
       = [''Please add at least one prompt.'']
   \<and> pv_error (res_view (handleSubmit (ex_env (Stream [Some ''A''] None) BatchNoTemplates)
        (ex_pv\<lparr>pv_prompt := []\<rparr>) ex_st_nokey))
       = Some ''Please enter a prompt or upload media.''"
proof -
  define env where "env = ex_env (Stream [Some ''A''] None) BatchNoTemplates"
  have k: "apiKeyToUse env (settings ex_st_nokey) = []"
    by (simp add: apiKeyToUse_def env_def ex_st_nokey_def ex_env_def ex_settings_def)
  have i: "pv_prompt ex_pv \<noteq> [] \<or> pv_media ex_pv \<noteq> None"
    by (simp add: ex_pv_def)
  have p: "map snd (filter (\<lambda>p. trim (snd p) \<noteq> []) (ba_prompts ex_modal)) \<noteq> []"
    by (simp add: ex_modal_def trim_def isWhiteSpace_def)
  have b: "map snd (filter (\<lambda>p. trim (snd p) \<noteq> []) (ba_prompts ex_modal_blank)) = []"
    by (simp add: ex_modal_blank_def trim_def)
  have e: "pv_prompt (ex_pv\<lparr>pv_prompt := []\<rparr>) = [] \<and> pv_media (ex_pv\<lparr>pv_prompt := []\<rparr>) = None"
    by (simp add: ex_pv_def)
  have h: "history ex_st_nokey = []" and t: "toasts ex_st_nokey = []"
    by (simp_all add: ex_st_nokey_def ex_st_def)
  note T = missing_api_key_fails_fast [of env ex_st_nokey ex_pv ex_modal, THEN conjunct1,
      rule_format, OF k]
  from T have 1: "res_calls (handleSubmit env ex_pv ex_st_nokey) = []"
    by (elim conjE)
  from T have "res_app (handleSubmit env ex_pv ex_st_nokey) = ex_st_nokey"
    by (elim conjE)
  then have 3: "history (res_app (handleSubmit env ex_pv ex_st_nokey)) = []"
    by (simp add: h)
  from T i have 2: "pv_error (res_view (handleSubmit env ex_pv ex_st_nokey))
      = Some ''API Key is missing. Please configure it in settings.''"
    by (elim conjE) simp
  from T have 4: "br_calls (handleGenerateAndSave env ex_modal ex_st_nokey) = []"
    by (elim conjE)
  from T p have "toasts (br_app (handleGenerateAndSave env ex_modal ex_st_nokey))
      = toasts ex_st_nokey
      @ [\<lparr> message = ''API Key is missing. Please configure it in settings.'',
           toast_type = Error \<rparr>]"
    by (elim conjE) simp
  then have 5: "map message (toasts (br_app (handleGenerateAndSave env ex_modal ex_st_nokey)))
      = [''API Key is missing. Please configure it in settings.'']"
    by (simp add: t)
  note B = missing_api_key_fails_fast [of env ex_st_nokey ex_pv ex_modal_blank,
      THEN conjunct2, THEN conjunct2, THEN conjunct2, THEN conjunct2, rule_format, OF b]
  from B have "toasts (br_app (handleGenerateAndSave env ex_modal_blank ex_st_nokey))
      = toasts ex_st_nokey
      @ [\<lparr> message = ''Please add at least one prompt.'', toast_type = Error \<rparr>]"
    by (rule conjunct2)
  then have 6: "map message (toasts (br_app (handleGenerateAndSave env ex_modal_blank ex_st_nokey)))
      = [''Please add at least one prompt.'']"
    by (simp add: t)
  note E = missing_api_key_fails_fast [of env ex_st_nokey "ex_pv\<lparr>pv_prompt := []\<rparr>" ex_modal,
      THEN conjunct2, THEN conjunct2, THEN conjunct2, THEN conjunct1, rule_format, OF e]
  from E have 7: "pv_error (res_view (handleSubmit env (ex_pv\<lparr>pv_prompt := []\<rparr>) ex_st_nokey))
      = Some ''Please enter a prompt or upload media.''"
    by (rule conjunct2)
  from 1 2 3 4 5 6 7 show ?thesis unfolding env_def by (intro conjI)
qed

section \<open>The object stores and the merge by identifier\<close>

lemma set_store_put:
  "set (store_put key x S) = insert x {y \<in> set S. key y \<noteq> key x}"
  by (auto simp: store_put_def set_insort_key)

lemma insort_key_snoc:
  "\<forall>a\<in>set acc. key a < key y \<Longrightarrow> insort_key key y acc = acc @ [y]"
  by (induction acc) auto

lemma distinct_map_insort_key:
  "distinct (map key (insort_key key x ys)) \<longleftrightarrow> key x \<notin> key ` set ys \<and> distinct (map key ys)"
  by (induction ys) (auto simp: set_insort_key)

lemma store_put_sorted:
  "sorted (map key S) \<Longrightarrow> sorted (map key (store_put key x S))"
  by (simp add: store_put_def sorted_insort_key sorted_filter)

lemma store_put_distinct:
  "distinct (map key S) \<Longrightarrow> distinct (map key (store_put key x S))"
  by (auto simp: store_put_def distinct_map_insort_key distinct_map_filter)

lemma fold_store_put_invariant:
  "sorted (map key S) \<and> distinct (map key S) \<Longrightarrow>
     sorted (map key (fold (store_put key) xs S)) \<and> distinct (map key (fold (store_put key) xs S))"
proof (induction xs arbitrary: S)
  case Nil
  then show ?case by simp
next
  case (Cons x xs)
  have "sorted (map key (store_put key x S)) \<and> distinct (map key (store_put key x S))"
    using Cons.prems by (simp add: store_put_sorted store_put_distinct)
  from Cons.IH [OF this] show ?case by simp
qed

lemma setStoreData_invariant:
  "sorted (map key (setStoreData key xs))" "distinct (map key (setStoreData key xs))"
  using fold_store_put_invariant [of key "[]" xs] by (simp_all add: setStoreData_def)

lemma fold_store_put_set:
  "distinct (map key xs) \<Longrightarrow>
     set (fold (store_put key) xs S) = set xs \<union> {y \<in> set S. key y \<notin> key ` set xs}"
proof (induction xs arbitrary: S)
  case Nil
  show ?case by simp
next
  case (Cons x xs)
  from Cons.prems have d: "distinct (map key xs)" and n: "key x \<notin> key ` set xs" by auto
  have "set (fold (store_put key) (x # xs) S) = set (fold (store_put key) xs (store_put key x S))"
    by simp
  also have "\<dots> = set xs \<union> {y \<in> set (store_put key x S). key y \<notin> key ` set xs}"
    by (rule Cons.IH [OF d])
  also have "\<dots> = set (x # xs) \<union> {y \<in> set S. key y \<notin> key ` set (x # xs)}"
    using n by (auto simp: set_store_put)
  finally show ?case .
qed

lemma setStoreData_set:
  "distinct (map key xs) \<Longrightarrow> set (setStoreData key xs) = set xs"
  using fold_store_put_set [of key xs "[]"] by (simp add: setStoreData_def)

lemma fold_store_put_append:
  "sorted (map key (acc @ ys)) \<Longrightarrow> distinct (map key (acc @ ys)) \<Longrightarrow>
     fold (store_put key) ys acc = acc @ ys"
proof (induction ys arbitrary: acc)
  case Nil
  show ?case by simp
next
  case (Cons y ys)
  have less: "\<forall>a\<in>set acc. key a < key y"
  proof
    fix a assume a: "a \<in> set acc"
    with Cons.prems(1) have "key a \<le> key y" by (auto simp: sorted_append)
    moreover from a Cons.prems(2) have "key a \<noteq> key y" by (auto simp: image_iff)
    ultimately show "key a < key y" by simp
  qed
  then have "filter (\<lambda>a. key a \<noteq> key y) acc = acc"
    by (auto simp: filter_id_conv)
  with less have put: "store_put key y acc = acc @ [y]"
    by (simp add: store_put_def insort_key_snoc)
  have "fold (store_put key) ys (acc @ [y]) = (acc @ [y]) @ ys"
    by (rule Cons.IH) (use Cons.prems in simp_all)
  with put show ?case by simp
qed

lemma setStoreData_fixed:
  "sorted (map key S) \<Longrightarrow> distinct (map key S) \<Longrightarrow> setStoreData key S = S"
  using fold_store_put_append [of key "[]" S] by (simp add: setStoreData_def)

lemma setStoreData_idem: "setStoreData key (setStoreData key xs) = setStoreData key xs"
  by (rule setStoreData_fixed) (rule setStoreData_invariant)+

lemma find_insort_key:
  "P x \<Longrightarrow> \<forall>y\<in>set ys. \<not> P y \<Longrightarrow> find P (insort_key key x ys) = Some x"
  by (induction ys) auto

lemma getSingleObject_store_put:
  "getSingleObject key (store_put key x S) (key x) = Some x"
  unfolding getSingleObject_def store_put_def
  by (rule find_insort_key) auto

lemma getSingleObject_key:
  "getSingleObject key S k = Some e \<Longrightarrow> key e = k"
  by (auto simp: getSingleObject_def find_Some_iff)

lemma mergeById_eq:
  "mergeById key incoming prev = prev @ filter (\<lambda>item. key item \<notin> key ` set prev) incoming"
  by (simp add: mergeById_def Let_def)

lemma mergeById_idem:
  "mergeById key incoming (mergeById key incoming prev) = mergeById key incoming prev"
proof -
  have "key item \<in> key ` set (mergeById key incoming prev)" if "item \<in> set incoming" for item
    using that by (auto simp: mergeById_eq)
  then have "filter (\<lambda>item. key item \<notin> key ` set (mergeById key incoming prev)) incoming = []"
    by (simp add: filter_empty_conv)
  then show ?thesis
    by (subst mergeById_eq) simp
qed

lemma mergeById_empty: "mergeById key incoming [] = incoming"
  by (simp add: mergeById_eq)

lemma filter_store_put_drop:
  "key x = k \<Longrightarrow>
     filter (\<lambda>y. key y \<noteq> k) (store_put key x S) = filter (\<lambda>y. key y \<noteq> k) S"
  by (simp add: store_put_def filter_insort_triv)

lemma filter_store_put_keep:
  assumes "sorted (map key S)" and "key x \<noteq> k"
  shows "filter (\<lambda>y. key y \<noteq> k) (store_put key x S)
     = store_put key x (filter (\<lambda>y. key y \<noteq> k) S)"
proof -
  have "sorted (map key (filter (\<lambda>y. key y \<noteq> key x) S))"
    using assms(1) by (rule sorted_filter)
  then have "filter (\<lambda>y. key y \<noteq> k) (insort_key key x (filter (\<lambda>y. key y \<noteq> key x) S))
      = insort_key key x (filter (\<lambda>y. key y \<noteq> k) (filter (\<lambda>y. key y \<noteq> key x) S))"
    using assms(2) by (simp add: filter_insort)
  also have "filter (\<lambda>y. key y \<noteq> k) (filter (\<lambda>y. key y \<noteq> key x) S)
      = filter (\<lambda>y. key y \<noteq> key x) (filter (\<lambda>y. key y \<noteq> k) S)"
    by (simp add: conj_commute)
  finally show ?thesis
    by (simp add: store_put_def)
qed

lemma fold_store_put_filter:
  "sorted (map key S) \<Longrightarrow>
     fold (store_put key) (filter (\<lambda>y. key y \<noteq> k) xs) (filter (\<lambda>y. key y \<noteq> k) S)
       = filter (\<lambda>y. key y \<noteq> k) (fold (store_put key) xs S)"
proof (induction xs arbitrary: S)
  case Nil
  show ?case by simp
next
  case (Cons x xs)
  have s: "sorted (map key (store_put key x S))"
    using Cons.prems by (rule store_put_sorted)
  show ?case
  proof (cases "key x = k")
    case True
    then show ?thesis
      using Cons.IH [OF s] by (simp add: filter_store_put_drop)
  next
    case False
    then show ?thesis
      using Cons.IH [OF s] by (simp add: filter_store_put_keep [OF Cons.prems])
  qed
qed

lemma setStoreData_filter:
  "setStoreData key (filter (\<lambda>y. key y \<noteq> k) xs)
     = filter (\<lambda>y. key y \<noteq> k) (setStoreData key xs)"
  using fold_store_put_filter [of key "[]" k xs] by (simp add: setStoreData_def)

section \<open>Import: merge by identifier, abort and skip\<close>

lemma setBundles_fields:
  "bundles (setBundles f st) = f (bundles st)"
  "db_bundles (setBundles f st) = setStoreData b_id (f (bundles st))"
  "history (setBundles f st) = history st" "templates (setBundles f st) = templates st"
  "settings (setBundles f st) = settings st"
  "db_history (setBundles f st) = db_history st" "db_templates (setBundles f st) = db_templates st"
  "db_settings (setBundles f st) = db_settings st" "toasts (setBundles f st) = toasts st"
  by (simp_all add: setBundles_def Let_def)

lemma setSettings_fields:
  "settings (setSettings f st) = f (settings st)"
  "db_settings (setSettings f st) = setSingleObject entry_key
     \<lparr>entry_key = ''user-settings'', entry_value = f (settings st)\<rparr> (db_settings st)"
  "history (setSettings f st) = history st" "templates (setSettings f st) = templates st"
  "bundles (setSettings f st) = bundles st"
  "db_history (setSettings f st) = db_history st" "db_templates (setSettings f st) = db_templates st"
  "db_bundles (setSettings f st) = db_bundles st" "toasts (setSettings f st) = toasts st"
  by (simp_all add: setSettings_def Let_def)

lemma importHistory_fields:
  "history (importHistory opts d st) =
     (case im_history d of
        FieldArray items \<Rightarrow>
          if opt_history opts then mergeById h_id items (history st) else history st
      | _ \<Rightarrow> history st)"
  "db_history (importHistory opts d st) =
     (case im_history d of
        FieldArray items \<Rightarrow>
          if opt_history opts then setStoreData h_id (mergeById h_id items (history st))
          else db_history st
      | _ \<Rightarrow> db_history st)"
  "templates (importHistory opts d st) = templates st"
  "bundles (importHistory opts d st) = bundles st"
  "settings (importHistory opts d st) = settings st"
  "db_templates (importHistory opts d st) = db_templates st"
  "db_bundles (importHistory opts d st) = db_bundles st"
  "db_settings (importHistory opts d st) = db_settings st"
  "toasts (importHistory opts d st) = toasts st"
  by (simp_all add: importHistory_def setHistory_fields split: ArrayField.split)

lemma importTemplates_fields:
  "templates (importTemplates opts d st) =
     (case im_templates d of
        FieldArray items \<Rightarrow>
          if opt_templates opts then mergeById t_id items (templates st) else templates st
      | _ \<Rightarrow> templates st)"
  "db_templates (importTemplates opts d st) =
     (case im_templates d of
        FieldArray items \<Rightarrow>
          if opt_templates opts then setStoreData t_id (mergeById t_id items (templates st))
          else db_templates st
      | _ \<Rightarrow> db_templates st)"
  "history (importTemplates opts d st) = history st"
  "bundles (importTemplates opts d st) = bundles st"
  "settings (importTemplates opts d st) = settings st"
  "db_history (importTemplates opts d st) = db_history st"
  "db_bundles (importTemplates opts d st) = db_bundles st"
  "db_settings (importTemplates opts d st) = db_settings st"
  "toasts (importTemplates opts d st) = toasts st"
  by (simp_all add: importTemplates_def setTemplates_fields split: ArrayField.split)

lemma importBundles_fields:
  "bundles (importBundles opts d st) =
     (case im_bundles d of
        FieldArray items \<Rightarrow>
          if opt_bundles opts then mergeById b_id items (bundles st) else bundles st
      | _ \<Rightarrow> bundles st)"
  "db_bundles (importBundles opts d st) =
     (case im_bundles d of
        FieldArray items \<Rightarrow>
          if opt_bundles opts then setStoreData b_id (mergeById b_id items (bundles st))
          else db_bundles st
      | _ \<Rightarrow> db_bundles st)"
  "history (importBundles opts d st) = history st"
  "templates (importBundles opts d st) = templates st"
  "settings (importBundles opts d st) = settings st"
  "db_history (importBundles opts d st) = db_history st"
  "db_templates (importBundles opts d st) = db_templates st"
  "db_settings (importBundles opts d st) = db_settings st"
  "toasts (importBundles opts d st) = toasts st"
  by (simp_all add: importBundles_def setBundles_fields split: ArrayField.split)

lemma importSettings_None_iff:
  "importSettings opts d st = None \<longleftrightarrow> opt_settings opts \<and> im_settings d = SettingsRejected"
  by (simp add: importSettings_def split: SettingsField.split)

lemma importSettings_fields:
  assumes "importSettings opts d st = Some st1"
  shows "history st1 = history st" "templates st1 = templates st" "bundles st1 = bundles st"
    "db_history st1 = db_history st" "db_templates st1 = db_templates st"
    "db_bundles st1 = db_bundles st" "toasts st1 = toasts st"
    "settings st1 =
       (case im_settings d of
          SettingsObject e \<Rightarrow> if opt_settings opts then entry_value e else settings st
        | _ \<Rightarrow> settings st)"
    "getSingleObject entry_key (db_settings st1) ''user-settings'' =
       (case im_settings d of
          SettingsObject e \<Rightarrow>
            if opt_settings opts
            then Some \<lparr>entry_key = ''user-settings'', entry_value = entry_value e\<rparr>
            else getSingleObject entry_key (db_settings st) ''user-settings''
        | _ \<Rightarrow> getSingleObject entry_key (db_settings st) ''user-settings'')"
proof -
  have put: "getSingleObject entry_key
      (setSingleObject entry_key \<lparr>entry_key = ''user-settings'', entry_value = v\<rparr> S)
      ''user-settings'' = Some \<lparr>entry_key = ''user-settings'', entry_value = v\<rparr>" for v S
    using getSingleObject_store_put
      [of entry_key "\<lparr>entry_key = ''user-settings'', entry_value = v\<rparr>" S]
    by (simp add: setSingleObject_def)
  show "history st1 = history st" "templates st1 = templates st" "bundles st1 = bundles st"
    "db_history st1 = db_history st" "db_templates st1 = db_templates st"
    "db_bundles st1 = db_bundles st" "toasts st1 = toasts st"
    using assms
    by (auto simp: importSettings_def setSettings_fields split: if_splits SettingsField.splits)
  show "settings st1 =
       (case im_settings d of
          SettingsObject e \<Rightarrow> if opt_settings opts then entry_value e else settings st
        | _ \<Rightarrow> settings st)"
    using assms
    by (auto simp: importSettings_def setSettings_fields split: if_splits SettingsField.splits)
  show "getSingleObject entry_key (db_settings st1) ''user-settings'' =
       (case im_settings d of
          SettingsObject e \<Rightarrow>
            if opt_settings opts
            then Some \<lparr>entry_key = ''user-settings'', entry_value = entry_value e\<rparr>
            else getSingleObject entry_key (db_settings st) ''user-settings''
        | _ \<Rightarrow> getSingleObject entry_key (db_settings st) ''user-settings'')"
    using assms
    by (auto simp: importSettings_def setSettings_fields put split: if_splits SettingsField.splits)
qed

lemma import_failed_fields:
  "collections (importFailed st) = collections st"
  "toasts (importFailed st) = toasts st
     @ [\<lparr> message = ''Failed to read or process the backup file.'', toast_type = Error \<rparr>]"
  "history (importFailed st) = history st" "templates (importFailed st) = templates st"
  "bundles (importFailed st) = bundles st" "settings (importFailed st) = settings st"
  "db_history (importFailed st) = db_history st" "db_templates (importFailed st) = db_templates st"
  "db_bundles (importFailed st) = db_bundles st" "db_settings (importFailed st) = db_settings st"
  by (simp_all add: importFailed_def collections_def showToast_fields)

lemma import_succeeded_fields:
  "collections (importSucceeded st) = collections st"
  "toasts (importSucceeded st) = toasts st
     @ [\<lparr> message = ''Data imported successfully!'', toast_type = Success \<rparr>]"
  "history (importSucceeded st) = history st" "templates (importSucceeded st) = templates st"
  "bundles (importSucceeded st) = bundles st" "settings (importSucceeded st) = settings st"
  "db_history (importSucceeded st) = db_history st"
  "db_templates (importSucceeded st) = db_templates st"
  "db_bundles (importSucceeded st) = db_bundles st"
  "db_settings (importSucceeded st) = db_settings st"
  by (simp_all add: importSucceeded_def collections_def showToast_fields)

lemma import_document:
  assumes "importSettings opts d st = Some st1"
  shows "handleImportFileChange opts (Document d) st =
     importSucceeded (importBundles opts d (importTemplates opts d (importHistory opts d st1)))"
  using assms by (simp add: handleImportFileChange_def)

lemma import_document_fields:
  assumes "importSettings opts d st = Some st1"
  shows "history (handleImportFileChange opts (Document d) st) =
     (case im_history d of
        FieldArray items \<Rightarrow>
          if opt_history opts then mergeById h_id items (history st) else history st
      | _ \<Rightarrow> history st)"
    and "db_history (handleImportFileChange opts (Document d) st) =
     (case im_history d of
        FieldArray items \<Rightarrow>
          if opt_history opts then setStoreData h_id (mergeById h_id items (history st))
          else db_history st
      | _ \<Rightarrow> db_history st)"
    and "templates (handleImportFileChange opts (Document d) st) =
     (case im_templates d of
        FieldArray items \<Rightarrow>
          if opt_templates opts then mergeById t_id items (templates st) else templates st
      | _ \<Rightarrow> templates st)"
    and "db_templates (handleImportFileChange opts (Document d) st) =
     (case im_templates d of
        FieldArray items \<Rightarrow>
          if opt_templates opts then setStoreData t_id (mergeById t_id items (templates st))
          else db_templates st
      | _ \<Rightarrow> db_templates st)"
    and "bundles (handleImportFileChange opts (Document d) st) =
     (case im_bundles d of
        FieldArray items \<Rightarrow>
          if opt_bundles opts then mergeById b_id items (bundles st) else bundles st
      | _ \<Rightarrow> bundles st)"
    and "db_bundles (handleImportFileChange opts (Document d) st) =
     (case im_bundles d of
        FieldArray items \<Rightarrow>
          if opt_bundles opts then setStoreData b_id (mergeById b_id items (bundles st))
          else db_bundles st
      | _ \<Rightarrow> db_bundles st)"
    and "settings (handleImportFileChange opts (Document d) st) =
       (case im_settings d of
          SettingsObject e \<Rightarrow> if opt_settings opts then entry_value e else settings st
        | _ \<Rightarrow> settings st)"
    and "getSingleObject entry_key (db_settings (handleImportFileChange opts (Document d) st))
          ''user-settings'' =
       (case im_settings d of
          SettingsObject e \<Rightarrow>
            if opt_settings opts
            then Some \<lparr>entry_key = ''user-settings'', entry_value = entry_value e\<rparr>
            else getSingleObject entry_key (db_settings st) ''user-settings''
        | _ \<Rightarrow> getSingleObject entry_key (db_settings st) ''user-settings'')"
    and "toasts (handleImportFileChange opts (Document d) st) = toasts st
          @ [\<lparr> message = ''Data imported successfully!'', toast_type = Success \<rparr>]"
  unfolding import_document [OF assms]
  by (simp_all only: import_succeeded_fields importBundles_fields importTemplates_fields
      importHistory_fields importSettings_fields [OF assms])

lemma mergeById_Nil: "mergeById key [] prev = prev"
  by (simp add: mergeById_eq)

lemma mergeById_prefix: "prefix prev (mergeById key incoming prev)"
  by (simp add: mergeById_eq)

lemma mergeById_only_new:
  "x \<in> set (mergeById key incoming prev) \<Longrightarrow> x \<in> set prev \<or> key x \<notin> key ` set prev"
  by (auto simp: mergeById_eq)

lemma mergeById_exists: "\<exists>items. prev = mergeById key items prev"
  by (rule exI [of _ "[]"]) (simp add: mergeById_Nil)

lemma import_other_files:
  assumes "\<forall>d. fc \<noteq> Document d"
  shows "handleImportFileChange opts fc st = importFailed st
         \<or> handleImportFileChange opts fc st = importSucceeded st"
  using assms by (cases fc) (simp_all add: handleImportFileChange_def)

lemma import_rejected_settings:
  assumes "importSettings opts d st = None"
  shows "handleImportFileChange opts (Document d) st = importFailed st"
  using assms by (simp add: handleImportFileChange_def)

lemma import_merges:
  "\<exists>hs ts bs.
     history (handleImportFileChange opts fc st) = mergeById h_id hs (history st)
     \<and> templates (handleImportFileChange opts fc st) = mergeById t_id ts (templates st)
     \<and> bundles (handleImportFileChange opts fc st) = mergeById b_id bs (bundles st)"
proof -
  let ?st' = "handleImportFileChange opts fc st"
  have h: "\<exists>hs. history ?st' = mergeById h_id hs (history st)"
    if "history ?st' = history st" using that mergeById_Nil [of h_id "history st"] by metis
  have t: "\<exists>ts. templates ?st' = mergeById t_id ts (templates st)"
    if "templates ?st' = templates st" using that mergeById_Nil [of t_id "templates st"] by metis
  have b: "\<exists>bs. bundles ?st' = mergeById b_id bs (bundles st)"
    if "bundles ?st' = bundles st" using that mergeById_Nil [of b_id "bundles st"] by metis
  have same: ?thesis
    if "history ?st' = history st" "templates ?st' = templates st" "bundles ?st' = bundles st"
    using h t b that by blast
  show ?thesis
  proof (cases "\<exists>d. fc = Document d")
    case False
    then have "?st' = importFailed st \<or> ?st' = importSucceeded st"
      by (simp add: import_other_files)
    then show ?thesis
      by (rule disjE) (rule same; simp add: import_failed_fields import_succeeded_fields)+
  next
    case True
    then obtain d where d: "fc = Document d" by blast
    show ?thesis
    proof (cases "importSettings opts d st")
      case None
      then have "?st' = importFailed st" unfolding d by (rule import_rejected_settings)
      then show ?thesis by (intro same) (simp_all add: import_failed_fields)
    next
      case (Some st1)
      note f = import_document_fields [OF Some, folded d]
      have "\<exists>hs. history ?st' = mergeById h_id hs (history st)"
        unfolding f(1)
        by (cases "im_history d"; cases "opt_history opts") (auto simp: mergeById_exists)
      moreover have "\<exists>ts. templates ?st' = mergeById t_id ts (templates st)"
        unfolding f(3)
        by (cases "im_templates d"; cases "opt_templates opts") (auto simp: mergeById_exists)
      moreover have "\<exists>bs. bundles ?st' = mergeById b_id bs (bundles st)"
        unfolding f(5)
        by (cases "im_bundles d"; cases "opt_bundles opts") (auto simp: mergeById_exists)
      ultimately show ?thesis by blast
    qed
  qed
qed

lemma import_twice:
  "collections (handleImportFileChange opts fc (handleImportFileChange opts fc st))
     = collections (handleImportFileChange opts fc st)"
proof (cases "\<exists>d. fc = Document d")
  case False
  then have "\<forall>d. fc \<noteq> Document d" by simp
  from import_other_files [OF this, of opts st]
    import_other_files [OF this, of opts "handleImportFileChange opts fc st"]
  show ?thesis
    by (auto simp: import_failed_fields import_succeeded_fields)
next
  case True
  then obtain d where d: "fc = Document d" by blast
  let ?st' = "handleImportFileChange opts (Document d) st"
  let ?st'' = "handleImportFileChange opts (Document d) ?st'"
  show ?thesis
  proof (cases "importSettings opts d st")
    case None
    then have "importSettings opts d ?st' = None"
      using importSettings_None_iff [of opts d st] importSettings_None_iff [of opts d ?st']
      by auto
    then have "?st'' = importFailed ?st'" by (rule import_rejected_settings)
    then show ?thesis unfolding d by (simp add: import_failed_fields)
  next
    case (Some st1)
    then have "importSettings opts d ?st' \<noteq> None"
      using importSettings_None_iff [of opts d st] importSettings_None_iff [of opts d ?st']
      by auto
    then obtain st1' where Some': "importSettings opts d ?st' = Some st1'" by blast
    note f = import_document_fields [OF Some]
    note g = import_document_fields [OF Some']
    have 1: "history ?st'' = history ?st'"
      unfolding g(1) unfolding f(1)
      by (cases "im_history d"; cases "opt_history opts") (simp_all add: mergeById_idem)
    have 2: "db_history ?st'' = db_history ?st'"
      unfolding g(2) unfolding f(1,2)
      by (cases "im_history d"; cases "opt_history opts") (simp_all add: mergeById_idem)
    have 3: "templates ?st'' = templates ?st'"
      unfolding g(3) unfolding f(3)
      by (cases "im_templates d"; cases "opt_templates opts") (simp_all add: mergeById_idem)
    have 4: "db_templates ?st'' = db_templates ?st'"
      unfolding g(4) unfolding f(3,4)
      by (cases "im_templates d"; cases "opt_templates opts") (simp_all add: mergeById_idem)
    have 5: "bundles ?st'' = bundles ?st'"
      unfolding g(5) unfolding f(5)
      by (cases "im_bundles d"; cases "opt_bundles opts") (simp_all add: mergeById_idem)
    have 6: "db_bundles ?st'' = db_bundles ?st'"
      unfolding g(6) unfolding f(5,6)
      by (cases "im_bundles d"; cases "opt_bundles opts") (simp_all add: mergeById_idem)
    have 7: "settings ?st'' = settings ?st'"
      unfolding g(7) unfolding f(7)
      by (cases "im_settings d"; cases "opt_settings opts") simp_all
    have 8: "getSingleObject entry_key (db_settings ?st'') ''user-settings''
        = getSingleObject entry_key (db_settings ?st') ''user-settings''"
      unfolding g(8) unfolding f(8)
      by (cases "im_settings d"; cases "opt_settings opts") simp_all
    show ?thesis
      unfolding d collections_def by (simp only: 1 2 3 4 5 6 7 8)
  qed
qed

text \<open>
  C3. Whatever the file and the options, after an import every collection starts with the
  records it had before, unchanged and in their order, and every record it has gained
  carries an identifier that no earlier record had. When the file is a document that is
  applied, a selected collection whose value is an array becomes the old list followed by
  the incoming records whose identifier was not present, and its store is rewritten with
  that list. Importing the same file again with the same options leaves the four
  collections as the first import left them, in memory and in storage.
\<close>

theorem import_merge_by_identifier:
  "let st' = handleImportFileChange opts fc st
   in prefix (history st) (history st')
      \<and> prefix (templates st) (templates st')
      \<and> prefix (bundles st) (bundles st')
      \<and> (\<forall>x\<in>set (history st'). x \<in> set (history st) \<or> h_id x \<notin> h_id ` set (history st))
      \<and> (\<forall>x\<in>set (templates st'). x \<in> set (templates st) \<or> t_id x \<notin> t_id ` set (templates st))
      \<and> (\<forall>x\<in>set (bundles st'). x \<in> set (bundles st) \<or> b_id x \<notin> b_id ` set (bundles st))
      \<and> (\<forall>d items. fc = Document d \<and> \<not> (opt_settings opts \<and> im_settings d = SettingsRejected)
             \<and> opt_history opts \<and> im_history d = FieldArray items
           \<longrightarrow> history st'
                 = history st @ filter (\<lambda>item. h_id item \<notin> h_id ` set (history st)) items
               \<and> db_history st' = setStoreData h_id (history st'))
      \<and> (\<forall>d items. fc = Document d \<and> \<not> (opt_settings opts \<and> im_settings d = SettingsRejected)
             \<and> opt_templates opts \<and> im_templates d = FieldArray items
           \<longrightarrow> templates st'
                 = templates st @ filter (\<lambda>item. t_id item \<notin> t_id ` set (templates st)) items
               \<and> db_templates st' = setStoreData t_id (templates st'))
      \<and> (\<forall>d items. fc = Document d \<and> \<not> (opt_settings opts \<and> im_settings d = SettingsRejected)
             \<and> opt_bundles opts \<and> im_bundles d = FieldArray items
           \<longrightarrow> bundles st'
                 = bundles st @ filter (\<lambda>item. b_id item \<notin> b_id ` set (bundles st)) items
               \<and> db_bundles st' = setStoreData b_id (bundles st'))
      \<and> collections (handleImportFileChange opts fc st') = collections st'"
proof -
  let ?st' = "handleImportFileChange opts fc st"
  obtain hs ts bs where m:
    "history ?st' = mergeById h_id hs (history st)"
    "templates ?st' = mergeById t_id ts (templates st)"
    "bundles ?st' = mergeById b_id bs (bundles st)"
    using import_merges [of opts fc st] by blast
  have p: "prefix (history st) (history ?st')" "prefix (templates st) (templates ?st')"
    "prefix (bundles st) (bundles ?st')"
    unfolding m by (rule mergeById_prefix)+
  have n1: "\<forall>x\<in>set (history ?st'). x \<in> set (history st) \<or> h_id x \<notin> h_id ` set (history st)"
    unfolding m by (intro ballI mergeById_only_new)
  have n2: "\<forall>x\<in>set (templates ?st'). x \<in> set (templates st) \<or> t_id x \<notin> t_id ` set (templates st)"
    unfolding m by (intro ballI mergeById_only_new)
  have n3: "\<forall>x\<in>set (bundles ?st'). x \<in> set (bundles st) \<or> b_id x \<notin> b_id ` set (bundles st)"
    unfolding m by (intro ballI mergeById_only_new)
  have doc: "\<exists>st1. importSettings opts d st = Some st1"
    if "\<not> (opt_settings opts \<and> im_settings d = SettingsRejected)" for d
    using that importSettings_None_iff [of opts d st] by (cases "importSettings opts d st") auto
  have e1: "\<forall>d items. fc = Document d \<and> \<not> (opt_settings opts \<and> im_settings d = SettingsRejected)
             \<and> opt_history opts \<and> im_history d = FieldArray items
           \<longrightarrow> history ?st'
                 = history st @ filter (\<lambda>item. h_id item \<notin> h_id ` set (history st)) items
               \<and> db_history ?st' = setStoreData h_id (history ?st')"
  proof (intro allI impI, elim conjE)
    fix d items
    assume a: "fc = Document d" "\<not> (opt_settings opts \<and> im_settings d = SettingsRejected)"
      "opt_history opts" "im_history d = FieldArray items"
    from doc [OF a(2)] obtain st1 where "importSettings opts d st = Some st1" ..
    note f = import_document_fields [OF this]
    show "history ?st' = history st @ filter (\<lambda>item. h_id item \<notin> h_id ` set (history st)) items
        \<and> db_history ?st' = setStoreData h_id (history ?st')"
      unfolding a(1) f(1,2) using a(3,4) by (simp add: mergeById_eq)
  qed
  have e2: "\<forall>d items. fc = Document d \<and> \<not> (opt_settings opts \<and> im_settings d = SettingsRejected)
             \<and> opt_templates opts \<and> im_templates d = FieldArray items
           \<longrightarrow> templates ?st'
                 = templates st @ filter (\<lambda>item. t_id item \<notin> t_id ` set (templates st)) items
               \<and> db_templates ?st' = setStoreData t_id (templates ?st')"
  proof (intro allI impI, elim conjE)
    fix d items
    assume a: "fc = Document d" "\<not> (opt_settings opts \<and> im_settings d = SettingsRejected)"
      "opt_templates opts" "im_templates d = FieldArray items"
    from doc [OF a(2)] obtain st1 where "importSettings opts d st = Some st1" ..
    note f = import_document_fields [OF this]
    show "templates ?st' = templates st @ filter (\<lambda>item. t_id item \<notin> t_id ` set (templates st)) items
        \<and> db_templates ?st' = setStoreData t_id (templates ?st')"
      unfolding a(1) f(3,4) using a(3,4) by (simp add: mergeById_eq)
  qed
  have e3: "\<forall>d items. fc = Document d \<and> \<not> (opt_settings opts \<and> im_settings d = SettingsRejected)
             \<and> opt_bundles opts \<and> im_bundles d = FieldArray items
           \<longrightarrow> bundles ?st'
                 = bundles st @ filter (\<lambda>item. b_id item \<notin> b_id ` set (bundles st)) items
               \<and> db_bundles ?st' = setStoreData b_id (bundles ?st')"
  proof (intro allI impI, elim conjE)
    fix d items
    assume a: "fc = Document d" "\<not> (opt_settings opts \<and> im_settings d = SettingsRejected)"
      "opt_bundles opts" "im_bundles d = FieldArray items"
    from doc [OF a(2)] obtain st1 where "importSettings opts d st = Some st1" ..
    note f = import_document_fields [OF this]
    show "bundles ?st' = bundles st @ filter (\<lambda>item. b_id item \<notin> b_id ` set (bundles st)) items
        \<and> db_bundles ?st' = setStoreData b_id (bundles ?st')"
      unfolding a(1) f(5,6) using a(3,4) by (simp add: mergeById_eq)
  qed
  have i: "collections (handleImportFileChange opts fc ?st') = collections ?st'"
    by (rule import_twice)
  from p n1 n2 n3 e1 e2 e3 i show ?thesis unfolding Let_def by (intro conjI)
qed

lemma ex_doc_settings_ok: "importSettings ex_all ex_doc st = Some st"
  by (simp add: importSettings_def ex_doc_def ex_all_def)

lemma ex_doc_templates:
  "filter (\<lambda>item. t_id item \<notin> t_id ` set (templates ex_st)) [ex_tA2, ex_tD] = [ex_tD]"
  by (simp add: ex_st_def ex_tA_def ex_tB_def ex_tC_def ex_tA2_def ex_tD_def)

text \<open>
  C3 on a document holding a template whose identifier is present and one whose identifier
  is new: the present one is not overwritten, the new one is appended, a second import
  changes nothing.
\<close>

theorem import_merge_by_identifier_witness:
  "templates (handleImportFileChange ex_all (Document ex_doc) ex_st)
     = [ex_tA, ex_tB, ex_tC, ex_tD]
   \<and> collections (handleImportFileChange ex_all (Document ex_doc)
         (handleImportFileChange ex_all (Document ex_doc) ex_st))
     = collections (handleImportFileChange ex_all (Document ex_doc) ex_st)"
proof -
  note T = import_merge_by_identifier [of ex_all "Document ex_doc" ex_st, unfolded Let_def]
  have pre: "Document ex_doc = Document ex_doc
      \<and> \<not> (opt_settings ex_all \<and> im_settings ex_doc = SettingsRejected)
      \<and> opt_templates ex_all \<and> im_templates ex_doc = FieldArray [ex_tA2, ex_tD]"
    by (simp add: ex_all_def ex_doc_def)
  from T have "\<forall>d items. Document ex_doc = Document d
        \<and> \<not> (opt_settings ex_all \<and> im_settings d = SettingsRejected)
        \<and> opt_templates ex_all \<and> im_templates d = FieldArray items
      \<longrightarrow> templates (handleImportFileChange ex_all (Document ex_doc) ex_st)
            = templates ex_st @ filter (\<lambda>item. t_id item \<notin> t_id ` set (templates ex_st)) items
          \<and> db_templates (handleImportFileChange ex_all (Document ex_doc) ex_st)
            = setStoreData t_id (templates (handleImportFileChange ex_all (Document ex_doc) ex_st))"
    by (elim conjE)
  from this [rule_format, OF pre]
  have "templates (handleImportFileChange ex_all (Document ex_doc) ex_st)
      = templates ex_st @ filter (\<lambda>item. t_id item \<notin> t_id ` set (templates ex_st)) [ex_tA2, ex_tD]"
    by (rule conjunct1)
  then have 1: "templates (handleImportFileChange ex_all (Document ex_doc) ex_st)
      = [ex_tA, ex_tB, ex_tC, ex_tD]"
    unfolding ex_doc_templates by (simp add: ex_st_def)
  from T have 2: "collections (handleImportFileChange ex_all (Document ex_doc)
         (handleImportFileChange ex_all (Document ex_doc) ex_st))
     = collections (handleImportFileChange ex_all (Document ex_doc) ex_st)"
    by (elim conjE)
  from 1 2 show ?thesis by (rule conjI)
qed

text \<open>
  C4 as stated fails: the document below has a value under \<^verbatim>\<open>history\<close> that is not an
  array, and history is selected; the import is not aborted, it merges the templates in
  memory and in storage and reports success.
\<close>

theorem import_non_array_counterexample:
  "opt_history ex_all \<and> im_history ex_doc = FieldNotArray
   \<and> templates (handleImportFileChange ex_all (Document ex_doc) ex_st) \<noteq> templates ex_st
   \<and> db_templates (handleImportFileChange ex_all (Document ex_doc) ex_st) \<noteq> db_templates ex_st
   \<and> toasts (handleImportFileChange ex_all (Document ex_doc) ex_st)
       = [\<lparr> message = ''Data imported successfully!'', toast_type = Success \<rparr>]"
proof -
  note f = import_document_fields [OF ex_doc_settings_ok [of ex_st]]
  have m: "mergeById t_id [ex_tA2, ex_tD] (templates ex_st) = [ex_tA, ex_tB, ex_tC, ex_tD]"
    unfolding mergeById_eq ex_doc_templates by (simp add: ex_st_def)
  have t: "templates (handleImportFileChange ex_all (Document ex_doc) ex_st)
      = [ex_tA, ex_tB, ex_tC, ex_tD]"
    unfolding f(3) by (simp add: ex_doc_def ex_all_def m)
  have d: "db_templates (handleImportFileChange ex_all (Document ex_doc) ex_st)
      = setStoreData t_id [ex_tA, ex_tB, ex_tC, ex_tD]"
    unfolding f(4) by (simp add: ex_doc_def ex_all_def m)
  have "distinct (map t_id [ex_tA, ex_tB, ex_tC, ex_tD])"
    by (simp add: ex_tA_def ex_tB_def ex_tC_def ex_tD_def)
  then have "set (setStoreData t_id [ex_tA, ex_tB, ex_tC, ex_tD]) = set [ex_tA, ex_tB, ex_tC, ex_tD]"
    by (rule setStoreData_set)
  then have "ex_tD \<in> set (setStoreData t_id [ex_tA, ex_tB, ex_tC, ex_tD])"
    by simp
  moreover have "ex_tD \<notin> set (db_templates ex_st)"
    by (simp add: ex_st_def ex_tA_def ex_tB_def ex_tC_def ex_tD_def)
  ultimately have 2: "db_templates (handleImportFileChange ex_all (Document ex_doc) ex_st)
      \<noteq> db_templates ex_st"
    unfolding d by metis
  have 1: "templates (handleImportFileChange ex_all (Document ex_doc) ex_st) \<noteq> templates ex_st"
    unfolding t by (simp add: ex_st_def)
  have 3: "toasts (handleImportFileChange ex_all (Document ex_doc) ex_st)
       = [\<lparr> message = ''Data imported successfully!'', toast_type = Success \<rparr>]"
    unfolding f(9) by (simp add: ex_st_def)
  have 0: "opt_history ex_all \<and> im_history ex_doc = FieldNotArray"
    by (simp add: ex_all_def ex_doc_def)
  from 0 1 2 3 show ?thesis by (intro conjI) simp_all
qed

lemma import_history_non_array:
  assumes "im_history d = FieldNotArray"
  shows "handleImportFileChange opts (Document d) st
      = handleImportFileChange opts (Document (d\<lparr>im_history := FieldAbsent\<rparr>)) st"
proof -
  let ?d = "d\<lparr>im_history := FieldAbsent\<rparr>"
  have s: "importSettings opts ?d st = importSettings opts d st"
    by (simp add: importSettings_def)
  have h: "importHistory opts ?d X = importHistory opts d X" for X
    using assms by (simp add: importHistory_def)
  have t: "importTemplates opts ?d X = importTemplates opts d X" for X
    using assms by (simp add: importTemplates_def)
  have b: "importBundles opts ?d X = importBundles opts d X" for X
    using assms by (simp add: importBundles_def)
  show ?thesis
    by (cases "importSettings opts d st") (simp_all add: handleImportFileChange_def s h t b)
qed

lemma import_templates_non_array:
  assumes "im_templates d = FieldNotArray"
  shows "handleImportFileChange opts (Document d) st
      = handleImportFileChange opts (Document (d\<lparr>im_templates := FieldAbsent\<rparr>)) st"
proof -
  let ?d = "d\<lparr>im_templates := FieldAbsent\<rparr>"
  have s: "importSettings opts ?d st = importSettings opts d st"
    by (simp add: importSettings_def)
  have h: "importHistory opts ?d X = importHistory opts d X" for X
    using assms by (simp add: importHistory_def)
  have t: "importTemplates opts ?d X = importTemplates opts d X" for X
    using assms by (simp add: importTemplates_def)
  have b: "importBundles opts ?d X = importBundles opts d X" for X
    using assms by (simp add: importBundles_def)
  show ?thesis
    by (cases "importSettings opts d st") (simp_all add: handleImportFileChange_def s h t b)
qed

lemma import_bundles_non_array:
  assumes "im_bundles d = FieldNotArray"
  shows "handleImportFileChange opts (Document d) st
      = handleImportFileChange opts (Document (d\<lparr>im_bundles := FieldAbsent\<rparr>)) st"
proof -
  let ?d = "d\<lparr>im_bundles := FieldAbsent\<rparr>"
  have s: "importSettings opts ?d st = importSettings opts d st"
    by (simp add: importSettings_def)
  have h: "importHistory opts ?d X = importHistory opts d X" for X
    using assms by (simp add: importHistory_def)
  have t: "importTemplates opts ?d X = importTemplates opts d X" for X
    using assms by (simp add: importTemplates_def)
  have b: "importBundles opts ?d X = importBundles opts d X" for X
    using assms by (simp add: importBundles_def)
  show ?thesis
    by (cases "importSettings opts d st") (simp_all add: handleImportFileChange_def s h t b)
qed

text \<open>
  C4, amended. A file that is not text, that is malformed JSON, or whose parsed value is not
  an object while some option is selected, aborts the import: the four collections are
  unchanged in memory and in storage and one error is shown. A document that is applied
  reports success; in it, a value under \<^verbatim>\<open>history\<close>, \<^verbatim>\<open>templates\<close> or \<^verbatim>\<open>bundles\<close> that is
  not an array leaves that collection unchanged in memory and in storage, and the import
  does exactly what it would do if the key were absent.
\<close>

theorem import_aborts_on_malformed_skips_non_array:
  "(fc = SyntaxError \<or> fc = NotText
      \<or> (fc = NonObject \<and> (opt_settings opts \<or> opt_history opts \<or> opt_templates opts
                              \<or> opt_bundles opts))
     \<longrightarrow> collections (handleImportFileChange opts fc st) = collections st
         \<and> toasts (handleImportFileChange opts fc st) = toasts st
              @ [\<lparr> message = ''Failed to read or process the backup file.'',
                   toast_type = Error \<rparr>])
   \<and> (\<forall>d. fc = Document d \<and> \<not> (opt_settings opts \<and> im_settings d = SettingsRejected)
        \<longrightarrow> toasts (handleImportFileChange opts fc st) = toasts st
               @ [\<lparr> message = ''Data imported successfully!'', toast_type = Success \<rparr>]
            \<and> (im_history d = FieldNotArray
                 \<longrightarrow> history (handleImportFileChange opts fc st) = history st
                     \<and> db_history (handleImportFileChange opts fc st) = db_history st
                     \<and> handleImportFileChange opts fc st
                         = handleImportFileChange opts
                             (Document (d\<lparr>im_history := FieldAbsent\<rparr>)) st)
            \<and> (im_templates d = FieldNotArray
                 \<longrightarrow> templates (handleImportFileChange opts fc st) = templates st
                     \<and> db_templates (handleImportFileChange opts fc st) = db_templates st
                     \<and> handleImportFileChange opts fc st
                         = handleImportFileChange opts
                             (Document (d\<lparr>im_templates := FieldAbsent\<rparr>)) st)
            \<and> (im_bundles d = FieldNotArray
                 \<longrightarrow> bundles (handleImportFileChange opts fc st) = bundles st
                     \<and> db_bundles (handleImportFileChange opts fc st) = db_bundles st
                     \<and> handleImportFileChange opts fc st
                         = handleImportFileChange opts
                             (Document (d\<lparr>im_bundles := FieldAbsent\<rparr>)) st))"
proof (intro conjI impI allI)
  assume "fc = SyntaxError \<or> fc = NotText
      \<or> (fc = NonObject \<and> (opt_settings opts \<or> opt_history opts \<or> opt_templates opts
                              \<or> opt_bundles opts))"
  then have a: "handleImportFileChange opts fc st = importFailed st"
    by (auto simp: handleImportFileChange_def)
  show "collections (handleImportFileChange opts fc st) = collections st"
    unfolding a by (rule import_failed_fields)
  show "toasts (handleImportFileChange opts fc st) = toasts st
      @ [\<lparr> message = ''Failed to read or process the backup file.'', toast_type = Error \<rparr>]"
    unfolding a by (rule import_failed_fields)
next
  fix d
  assume "fc = Document d \<and> \<not> (opt_settings opts \<and> im_settings d = SettingsRejected)"
  then have fc: "fc = Document d"
    and ok: "\<not> (opt_settings opts \<and> im_settings d = SettingsRejected)"
    by simp_all
  from ok obtain st1 where "importSettings opts d st = Some st1"
    using importSettings_None_iff [of opts d st] by (cases "importSettings opts d st") auto
  note f = import_document_fields [OF this]
  show "toasts (handleImportFileChange opts fc st) = toasts st
      @ [\<lparr> message = ''Data imported successfully!'', toast_type = Success \<rparr>]"
    unfolding fc by (rule f(9))
  {
    assume n: "im_history d = FieldNotArray"
    show "history (handleImportFileChange opts fc st) = history st"
      unfolding fc f(1) by (simp add: n)
    show "db_history (handleImportFileChange opts fc st) = db_history st"
      unfolding fc f(2) by (simp add: n)
    show "handleImportFileChange opts fc st
        = handleImportFileChange opts (Document (d\<lparr>im_history := FieldAbsent\<rparr>)) st"
      unfolding fc by (rule import_history_non_array [OF n])
  }
  {
    assume n: "im_templates d = FieldNotArray"
    show "templates (handleImportFileChange opts fc st) = templates st"
      unfolding fc f(3) by (simp add: n)
    show "db_templates (handleImportFileChange opts fc st) = db_templates st"
      unfolding fc f(4) by (simp add: n)
    show "handleImportFileChange opts fc st
        = handleImportFileChange opts (Document (d\<lparr>im_templates := FieldAbsent\<rparr>)) st"
      unfolding fc by (rule import_templates_non_array [OF n])
  }
  {
    assume n: "im_bundles d = FieldNotArray"
    show "bundles (handleImportFileChange opts fc st) = bundles st"
      unfolding fc f(5) by (simp add: n)
    show "db_bundles (handleImportFileChange opts fc st) = db_bundles st"
      unfolding fc f(6) by (simp add: n)
    show "handleImportFileChange opts fc st
        = handleImportFileChange opts (Document (d\<lparr>im_bundles := FieldAbsent\<rparr>)) st"
      unfolding fc by (rule import_bundles_non_array [OF n])
  }
qed

text \<open>C4, amended, on malformed JSON and on the document with a non-array history.\<close>

theorem import_aborts_on_malformed_skips_non_array_witness:
  "collections (handleImportFileChange ex_all SyntaxError ex_st) = collections ex_st
   \<and> toasts (handleImportFileChange ex_all SyntaxError ex_st)
       = [\<lparr> message = ''Failed to read or process the backup file.'', toast_type = Error \<rparr>]
   \<and> history (handleImportFileChange ex_all (Document ex_doc) ex_st) = []
   \<and> handleImportFileChange ex_all (Document ex_doc) ex_st
       = handleImportFileChange ex_all (Document (ex_doc\<lparr>im_history := FieldAbsent\<rparr>)) ex_st
   \<and> toasts (handleImportFileChange ex_all (Document ex_doc) ex_st)
       = [\<lparr> message = ''Data imported successfully!'', toast_type = Success \<rparr>]"
proof -
  note bad = import_aborts_on_malformed_skips_non_array [of SyntaxError ex_all ex_st,
      THEN conjunct1, rule_format, OF disjI1, OF refl]
  have pre: "Document ex_doc = Document ex_doc
      \<and> \<not> (opt_settings ex_all \<and> im_settings ex_doc = SettingsRejected)"
    by (simp add: ex_doc_def)
  note doc = import_aborts_on_malformed_skips_non_array [of "Document ex_doc" ex_all ex_st,
      THEN conjunct2, rule_format, OF pre]
  have n: "im_history ex_doc = FieldNotArray" by (simp add: ex_doc_def)
  have t: "toasts ex_st = []" and h: "history ex_st = []" by (simp_all add: ex_st_def)
  have 1: "collections (handleImportFileChange ex_all SyntaxError ex_st) = collections ex_st"
    using bad by (rule conjunct1)
  have "toasts (handleImportFileChange ex_all SyntaxError ex_st) = toasts ex_st
      @ [\<lparr> message = ''Failed to read or process the backup file.'', toast_type = Error \<rparr>]"
    using bad by (rule conjunct2)
  then have 2: "toasts (handleImportFileChange ex_all SyntaxError ex_st)
       = [\<lparr> message = ''Failed to read or process the backup file.'', toast_type = Error \<rparr>]"
    by (simp add: t)
  have "toasts (handleImportFileChange ex_all (Document ex_doc) ex_st) = toasts ex_st
      @ [\<lparr> message = ''Data imported successfully!'', toast_type = Success \<rparr>]"
    using doc by (rule conjunct1)
  then have 5: "toasts (handleImportFileChange ex_all (Document ex_doc) ex_st)
       = [\<lparr> message = ''Data imported successfully!'', toast_type = Success \<rparr>]"
    by (simp add: t)
  note skipped = doc [THEN conjunct2, THEN conjunct1, rule_format, OF n]
  have "history (handleImportFileChange ex_all (Document ex_doc) ex_st) = history ex_st"
    using skipped by (rule conjunct1)
  then have 3: "history (handleImportFileChange ex_all (Document ex_doc) ex_st) = []"
    by (simp add: h)
  have 4: "handleImportFileChange ex_all (Document ex_doc) ex_st
       = handleImportFileChange ex_all (Document (ex_doc\<lparr>im_history := FieldAbsent\<rparr>)) ex_st"
    using skipped by (elim conjE)
  from 1 2 3 4 5 show ?thesis by (intro conjI)
qed

section \<open>Export followed by import into an empty store\<close>

lemma exportKeys_exportData:
  "exportKeys (exportData options st) =
     (if opt_settings options then [''settings''] else [])
     @ (if opt_history options then [''history''] else [])
     @ (if opt_templates options then [''templates''] else [])
     @ (if opt_bundles options then [''bundles''] else [])"
  by (simp add: exportKeys_def exportData_def)

lemma handleExportData_all:
  "fst (handleExportData exportDialogInitial st) = Some (exportData exportDialogInitial st)"
  by (simp add: handleExportData_def Let_def exportKeys_exportData exportDialogInitial_def)

lemma parse_stringify_all:
  "parse_stringify (exportData exportDialogInitial st)
     = Document
         \<lparr> im_settings = (case getSingleObject entry_key (db_settings st) ''user-settings'' of
                            None \<Rightarrow> SettingsFalsy | Some e \<Rightarrow> SettingsObject e),
           im_history = FieldArray (db_history st),
           im_templates = FieldArray (db_templates st),
           im_bundles = FieldArray (db_bundles st) \<rparr>"
  by (simp add: parse_stringify_def exportData_def getStoreData_def exportDialogInitial_def
      split: option.split)

lemma emptyStoreApp_fields:
  "history (emptyStoreApp a) = []" "templates (emptyStoreApp a) = []"
  "bundles (emptyStoreApp a) = []" "settings (emptyStoreApp a) = initialSettings a"
  "db_history (emptyStoreApp a) = []" "db_templates (emptyStoreApp a) = []"
  "db_bundles (emptyStoreApp a) = []" "db_settings (emptyStoreApp a) = []"
  "toasts (emptyStoreApp a) = []"
  by (simp_all add: emptyStoreApp_def mountApp_def loadArray_def loadSettings_def
      getStoreData_def getSingleObject_def)

lemma importDialogToggle_settings:
  "opt_settings (fold importDialogToggle keys options) = opt_settings options"
proof (induction keys arbitrary: options)
  case Nil
  show ?case by simp
next
  case (Cons k keys)
  show ?case
    unfolding fold_simps Cons.IH by (cases k) simp_all
qed

lemma importDialog_settings_off:
  "\<not> opt_settings (fold importDialogToggle keys importDialogInitial)"
  unfolding importDialogToggle_settings by (simp add: importDialogInitial_def)

lemma import_without_settings:
  assumes o: "\<not> opt_settings opts"
  shows "settings (handleImportFileChange opts fc st) = settings st"
    and "getSingleObject entry_key (db_settings (handleImportFileChange opts fc st))
           ''user-settings''
         = getSingleObject entry_key (db_settings st) ''user-settings''"
proof -
  have s: "importSettings opts d st = Some st" for d
    using o by (simp add: importSettings_def)
  have n: "handleImportFileChange opts NonObject st
      = (if opt_history opts \<or> opt_templates opts \<or> opt_bundles opts
         then importFailed st else importSucceeded st)"
    using o by (simp add: handleImportFileChange_def)
  have m: "handleImportFileChange opts NotText st = importFailed st"
    "handleImportFileChange opts SyntaxError st = importFailed st"
    by (simp_all add: handleImportFileChange_def)
  show "settings (handleImportFileChange opts fc st) = settings st"
  proof (cases fc)
    case (Document d)
    show ?thesis
      unfolding Document import_document_fields(7) [OF s]
      using o by (simp split: SettingsField.split)
  qed (simp_all add: n m import_failed_fields importSucceeded_def showToast_fields)
  show "getSingleObject entry_key (db_settings (handleImportFileChange opts fc st))
           ''user-settings''
         = getSingleObject entry_key (db_settings st) ''user-settings''"
  proof (cases fc)
    case (Document d)
    show ?thesis
      unfolding Document import_document_fields(8) [OF s]
      using o by (simp split: SettingsField.split)
  qed (simp_all add: n m import_failed_fields importSucceeded_def showToast_fields)
qed

lemma roundtrip:
  fixes st :: AppState and isAistudio :: bool
  defines "st' \<equiv> handleImportFileChange importDialogInitial
    (parse_stringify (exportData exportDialogInitial st)) (emptyStoreApp isAistudio)"
  assumes h: "db_history st = setStoreData h_id (history st)" "distinct (map h_id (history st))"
    and t: "db_templates st = setStoreData t_id (templates st)" "distinct (map t_id (templates st))"
    and b: "db_bundles st = setStoreData b_id (bundles st)" "distinct (map b_id (bundles st))"
  shows "set (history st') = set (history st)" "set (templates st') = set (templates st)"
    "set (bundles st') = set (bundles st)"
    "db_history st' = db_history st" "db_templates st' = db_templates st"
    "db_bundles st' = db_bundles st"
    "settings st' = initialSettings isAistudio"
    "getSingleObject entry_key (db_settings st') ''user-settings'' = None"
proof -
  let ?d = "\<lparr> im_settings = (case getSingleObject entry_key (db_settings st) ''user-settings'' of
                            None \<Rightarrow> SettingsFalsy | Some e \<Rightarrow> SettingsObject e),
           im_history = FieldArray (db_history st),
           im_templates = FieldArray (db_templates st),
           im_bundles = FieldArray (db_bundles st) \<rparr>"
  let ?E = "emptyStoreApp isAistudio"
  have st': "st' = handleImportFileChange importDialogInitial (Document ?d) ?E"
    unfolding st'_def parse_stringify_all ..
  have "importSettings importDialogInitial ?d ?E = Some ?E"
    by (simp add: importSettings_def importDialogInitial_def)
  note f = import_document_fields [OF this, folded st']
  have o: "\<not> opt_settings importDialogInitial" "opt_history importDialogInitial"
    "opt_templates importDialogInitial" "opt_bundles importDialogInitial"
    by (simp_all add: importDialogInitial_def)
  have mh: "history st' = db_history st"
    unfolding f(1) by (simp add: o emptyStoreApp_fields mergeById_empty)
  have mt: "templates st' = db_templates st"
    unfolding f(3) by (simp add: o emptyStoreApp_fields mergeById_empty)
  have mb: "bundles st' = db_bundles st"
    unfolding f(5) by (simp add: o emptyStoreApp_fields mergeById_empty)
  show "set (history st') = set (history st)"
    unfolding mh h(1) by (rule setStoreData_set [OF h(2)])
  show "set (templates st') = set (templates st)"
    unfolding mt t(1) by (rule setStoreData_set [OF t(2)])
  show "set (bundles st') = set (bundles st)"
    unfolding mb b(1) by (rule setStoreData_set [OF b(2)])
  show "db_history st' = db_history st"
    unfolding f(2) by (simp add: o emptyStoreApp_fields mergeById_empty h(1) setStoreData_idem)
  show "db_templates st' = db_templates st"
    unfolding f(4) by (simp add: o emptyStoreApp_fields mergeById_empty t(1) setStoreData_idem)
  show "db_bundles st' = db_bundles st"
    unfolding f(6) by (simp add: o emptyStoreApp_fields mergeById_empty b(1) setStoreData_idem)
  show "settings st' = initialSettings isAistudio"
    unfolding st' import_without_settings(1) [OF o(1)] by (rule emptyStoreApp_fields)
  show "getSingleObject entry_key (db_settings st') ''user-settings'' = None"
    unfolding st' import_without_settings(2) [OF o(1)]
    by (simp add: emptyStoreApp_fields getSingleObject_def)
qed

text \<open>
  C6 as stated fails for the settings. The state below is what the hook keeps: its stores
  hold the write-through of its collections and its settings are the stored ones, with the
  API key \<^verbatim>\<open>secret\<close>. It is exported with every box of the export dialog ticked and the
  file is imported, with the options of the import dialog, into the application mounted on
  an empty database: the settings are the initial ones, with an empty API key.
\<close>

theorem export_import_settings_counterexample:
  "settings ex_st2 = loadSettings (initialSettings False) (db_settings ex_st2)
   \<and> fst (handleExportData exportDialogInitial ex_st2)
       = Some (exportData exportDialogInitial ex_st2)
   \<and> exportKeys (exportData exportDialogInitial ex_st2)
       = [''settings'', ''history'', ''templates'', ''bundles'']
   \<and> apiKey (settings ex_st2) = ''secret''
   \<and> apiKey (settings (handleImportFileChange importDialogInitial
        (parse_stringify (exportData exportDialogInitial ex_st2)) (emptyStoreApp False))) = []
   \<and> settings (handleImportFileChange importDialogInitial
        (parse_stringify (exportData exportDialogInitial ex_st2)) (emptyStoreApp False))
       \<noteq> settings ex_st2"
proof -
  let ?st' = "handleImportFileChange importDialogInitial
        (parse_stringify (exportData exportDialogInitial ex_st2)) (emptyStoreApp False)"
  have o: "\<not> opt_settings importDialogInitial"
    by (simp add: importDialogInitial_def)
  have 1: "settings ex_st2 = loadSettings (initialSettings False) (db_settings ex_st2)"
    by (simp add: ex_st2_def ex_st_def loadSettings_def getSingleObject_def)
  have 2: "exportKeys (exportData exportDialogInitial ex_st2)
       = [''settings'', ''history'', ''templates'', ''bundles'']"
    by (simp add: exportKeys_exportData exportDialogInitial_def)
  have 3: "apiKey (settings ex_st2) = ''secret''"
    by (simp add: ex_st2_def ex_st_def ex_settings_def)
  have 4: "apiKey (settings ?st') = []"
    unfolding import_without_settings(1) [OF o]
    by (simp add: emptyStoreApp_fields initialSettings_def)
  from 3 4 have 5: "settings ?st' \<noteq> settings ex_st2"
    by auto
  from 1 handleExportData_all 2 3 4 5 show ?thesis
    by (intro conjI)
qed

text \<open>
  C6, amended. An export produces one top-level key for each selected collection, in the
  order settings, history, templates, bundles. Whatever boxes of the import dialog are
  toggled, its settings option stays off, and an import with such options leaves the
  settings as they were, in memory and in storage, whatever the file holds. Take a state
  whose stores hold what the write-through of its in-memory collections leaves there (no
  identifier twice in a collection). Exporting with every box of the export dialog ticked
  gives a document with the four keys, and importing it, with the options of the import
  dialog, into the application mounted on an empty database gives back the same history,
  templates and bundles as sets of records and the same contents of the three array
  stores; the settings are the initial ones and the settings store stays empty.
\<close>

theorem export_import_roundtrip:
  "exportKeys (exportData options st) =
     (if opt_settings options then [''settings''] else [])
     @ (if opt_history options then [''history''] else [])
     @ (if opt_templates options then [''templates''] else [])
     @ (if opt_bundles options then [''bundles''] else [])
   \<and> opt_settings (fold importDialogToggle keys importDialogInitial) = False
   \<and> settings (handleImportFileChange (fold importDialogToggle keys importDialogInitial) fc st0)
       = settings st0
   \<and> getSingleObject entry_key
        (db_settings (handleImportFileChange (fold importDialogToggle keys importDialogInitial)
           fc st0)) ''user-settings''
       = getSingleObject entry_key (db_settings st0) ''user-settings''
   \<and> (db_history st = setStoreData h_id (history st) \<and> distinct (map h_id (history st))
       \<and> db_templates st = setStoreData t_id (templates st) \<and> distinct (map t_id (templates st))
       \<and> db_bundles st = setStoreData b_id (bundles st) \<and> distinct (map b_id (bundles st))
      \<longrightarrow> (\<exists>d. fst (handleExportData exportDialogInitial st) = Some d
                \<and> exportKeys d = [''settings'', ''history'', ''templates'', ''bundles'']
                \<and> (let st' = handleImportFileChange importDialogInitial (parse_stringify d)
                                (emptyStoreApp isAistudio)
                    in set (history st') = set (history st)
                       \<and> set (templates st') = set (templates st)
                       \<and> set (bundles st') = set (bundles st)
                       \<and> db_history st' = db_history st
                       \<and> db_templates st' = db_templates st
                       \<and> db_bundles st' = db_bundles st
                       \<and> settings st' = initialSettings isAistudio
                       \<and> getSingleObject entry_key (db_settings st') ''user-settings''
                           = None)))"
proof (intro conjI impI)
  show "exportKeys (exportData options st) =
     (if opt_settings options then [''settings''] else [])
     @ (if opt_history options then [''history''] else [])
     @ (if opt_templates options then [''templates''] else [])
     @ (if opt_bundles options then [''bundles''] else [])"
    by (rule exportKeys_exportData)
next
  show "opt_settings (fold importDialogToggle keys importDialogInitial) = False"
    using importDialog_settings_off [of keys] by simp
next
  show "settings (handleImportFileChange (fold importDialogToggle keys importDialogInitial) fc st0)
       = settings st0"
    by (rule import_without_settings(1) [OF importDialog_settings_off])
next
  show "getSingleObject entry_key
        (db_settings (handleImportFileChange (fold importDialogToggle keys importDialogInitial)
           fc st0)) ''user-settings''
       = getSingleObject entry_key (db_settings st0) ''user-settings''"
    by (rule import_without_settings(2) [OF importDialog_settings_off])
next
  let ?d = "exportData exportDialogInitial st"
  let ?st' = "handleImportFileChange importDialogInitial (parse_stringify ?d)
      (emptyStoreApp isAistudio)"
  assume "db_history st = setStoreData h_id (history st) \<and> distinct (map h_id (history st))
       \<and> db_templates st = setStoreData t_id (templates st) \<and> distinct (map t_id (templates st))
       \<and> db_bundles st = setStoreData b_id (bundles st) \<and> distinct (map b_id (bundles st))"
  then have a: "db_history st = setStoreData h_id (history st)" "distinct (map h_id (history st))"
    "db_templates st = setStoreData t_id (templates st)" "distinct (map t_id (templates st))"
    "db_bundles st = setStoreData b_id (bundles st)" "distinct (map b_id (bundles st))"
    by simp_all
  note r = roundtrip [OF a]
  have k: "exportKeys ?d = [''settings'', ''history'', ''templates'', ''bundles'']"
    by (simp add: exportKeys_exportData exportDialogInitial_def)
  have "fst (handleExportData exportDialogInitial st) = Some ?d
      \<and> exportKeys ?d = [''settings'', ''history'', ''templates'', ''bundles'']
      \<and> (set (history ?st') = set (history st)
         \<and> set (templates ?st') = set (templates st)
         \<and> set (bundles ?st') = set (bundles st)
         \<and> db_history ?st' = db_history st
         \<and> db_templates ?st' = db_templates st
         \<and> db_bundles ?st' = db_bundles st
         \<and> settings ?st' = initialSettings isAistudio
         \<and> getSingleObject entry_key (db_settings ?st') ''user-settings'' = None)"
    by (intro conjI handleExportData_all k r)
  then show "\<exists>d. fst (handleExportData exportDialogInitial st) = Some d
                \<and> exportKeys d = [''settings'', ''history'', ''templates'', ''bundles'']
                \<and> (let st' = handleImportFileChange importDialogInitial (parse_stringify d)
                                (emptyStoreApp isAistudio)
                    in set (history st') = set (history st)
                       \<and> set (templates st') = set (templates st)
                       \<and> set (bundles st') = set (bundles st)
                       \<and> db_history st' = db_history st
                       \<and> db_templates st' = db_templates st
                       \<and> db_bundles st' = db_bundles st
                       \<and> settings st' = initialSettings isAistudio
                       \<and> getSingleObject entry_key (db_settings st') ''user-settings''
                           = None)"
    unfolding Let_def by (rule exI [of _ ?d])
qed

text \<open>
  C6, amended, on a state whose templates are held in memory in another order than the key
  order of the store.
\<close>

theorem export_import_roundtrip_witness:
  "\<exists>d. fst (handleExportData exportDialogInitial ex_st2) = Some d
      \<and> exportKeys d = [''settings'', ''history'', ''templates'', ''bundles'']
      \<and> set (templates (handleImportFileChange importDialogInitial (parse_stringify d)
           (emptyStoreApp False))) = {ex_tC, ex_tA}
      \<and> set (bundles (handleImportFileChange importDialogInitial (parse_stringify d)
           (emptyStoreApp False))) = {ex_bundle}
      \<and> db_templates (handleImportFileChange importDialogInitial (parse_stringify d)
           (emptyStoreApp False)) = [ex_tA, ex_tC]
      \<and> settings (handleImportFileChange importDialogInitial (parse_stringify d)
           (emptyStoreApp False)) = initialSettings False"
proof -
  have synced: "db_history ex_st2 = setStoreData h_id (history ex_st2)
      \<and> distinct (map h_id (history ex_st2))
      \<and> db_templates ex_st2 = setStoreData t_id (templates ex_st2)
      \<and> distinct (map t_id (templates ex_st2))
      \<and> db_bundles ex_st2 = setStoreData b_id (bundles ex_st2)
      \<and> distinct (map b_id (bundles ex_st2))"
    by (simp add: ex_st2_def ex_st_def setStoreData_def store_put_def ex_tA_def ex_tC_def
        ex_bundle_def)
  note T = export_import_roundtrip [of _ ex_st2 _ _ _ False, THEN conjunct2, THEN conjunct2,
      THEN conjunct2, THEN conjunct2, rule_format, OF synced, unfolded Let_def]
  then obtain d where d: "fst (handleExportData exportDialogInitial ex_st2) = Some d"
    "exportKeys d = [''settings'', ''history'', ''templates'', ''bundles'']"
    "set (templates (handleImportFileChange importDialogInitial (parse_stringify d)
       (emptyStoreApp False))) = set (templates ex_st2)"
    "set (bundles (handleImportFileChange importDialogInitial (parse_stringify d)
       (emptyStoreApp False))) = set (bundles ex_st2)"
    "db_templates (handleImportFileChange importDialogInitial (parse_stringify d)
       (emptyStoreApp False)) = db_templates ex_st2"
    "settings (handleImportFileChange importDialogInitial (parse_stringify d)
       (emptyStoreApp False)) = initialSettings False"
    by (elim exE conjE)
  have v: "set (templates ex_st2) = {ex_tC, ex_tA}" "set (bundles ex_st2) = {ex_bundle}"
    "db_templates ex_st2 = [ex_tA, ex_tC]"
    by (simp_all add: ex_st2_def ex_st_def)
  show ?thesis
    by (rule exI [of _ d]) (intro conjI d(1,2) d(3-5) [unfolded v] d(6))
qed

section \<open>Deleting a template touches the templates only\<close>

lemma map_of_replace:
  "map_of (map (\<lambda>e. if fst e = k then (k, v) else e) m) x
     = (if x = k \<and> map_of m k \<noteq> None then Some v else map_of m x)"
  by (induction m) auto

lemma map_of_Map_set: "map_of (Map_set m k v) = (map_of m)(k \<mapsto> v)"
proof (cases "k \<in> fst ` set m")
  case True
  then have "map_of m k \<noteq> None" by (simp add: map_of_eq_None_iff)
  with True show ?thesis
    by (intro ext) (simp add: Map_set_def map_of_replace)
next
  case False
  then have "map_of m k = None" by (simp add: map_of_eq_None_iff)
  then have "map_of (m @ [(k, v)]) = (map_of m)(k \<mapsto> v)"
    by (intro ext) (auto simp: map_add_def split: option.split)
  with False show ?thesis by (simp add: Map_set_def)
qed

lemma map_of_fold_Map_set:
  "map_of (fold (\<lambda>e m. Map_set m (fst e) (snd e)) es m) = map_of (rev es @ m)"
proof (induction es arbitrary: m)
  case Nil
  show ?case by simp
next
  case (Cons e es)
  have "map_of (fold (\<lambda>e m. Map_set m (fst e) (snd e)) (e # es) m)
      = map_of (rev es @ Map_set m (fst e) (snd e))"
    using Cons.IH [of "Map_set m (fst e) (snd e)"] by simp
  also have "\<dots> = map_of (rev es @ e # m)"
    by (simp add: map_of_Map_set)
  finally show ?case by simp
qed

lemma Map_get_new_Map:
  "Map_get (new_Map (map (\<lambda>t. (t_id t, t)) ts)) k = map_of (map (\<lambda>t. (t_id t, t)) (rev ts)) k"
  by (simp add: Map_get_def new_Map_def map_of_fold_Map_set rev_map)

lemma map_of_by_id_filter:
  "map_of (map (\<lambda>t. (t_id t, t)) (filter (\<lambda>t. t_id t \<noteq> tid) xs)) k
     = (if k = tid then None else map_of (map (\<lambda>t. (t_id t, t)) xs) k)"
  by (induction xs) auto

lemma map_of_by_id_Some:
  "map_of (map (\<lambda>t. (t_id t, t)) xs) k = Some t \<Longrightarrow> t_id t = k"
  by (induction xs) (auto split: if_splits)

lemma Map_get_after_delete:
  "Map_get (new_Map (map (\<lambda>t. (t_id t, t)) (filter (\<lambda>t. t_id t \<noteq> tid) ts))) k
     = (if k = tid then None else Map_get (new_Map (map (\<lambda>t. (t_id t, t)) ts)) k)"
  by (simp only: Map_get_new_Map rev_filter map_of_by_id_filter)

lemma Map_get_id:
  "Map_get (new_Map (map (\<lambda>t. (t_id t, t)) ts)) k = Some t \<Longrightarrow> t_id t = k"
  unfolding Map_get_new_Map by (rule map_of_by_id_Some)

lemma hydrate_after_delete:
  "map the (filter (\<lambda>t. t \<noteq> None)
     (map (\<lambda>i. Map_get (new_Map (map (\<lambda>t. (t_id t, t)) (filter (\<lambda>t. t_id t \<noteq> tid) ts))) i) ids))
   = filter (\<lambda>t. t_id t \<noteq> tid)
       (map the (filter (\<lambda>t. t \<noteq> None)
          (map (\<lambda>i. Map_get (new_Map (map (\<lambda>t. (t_id t, t)) ts)) i) ids)))"
proof (induction ids)
  case Nil
  show ?case by simp
next
  case (Cons i ids)
  show ?case
  proof (cases "Map_get (new_Map (map (\<lambda>t. (t_id t, t)) ts)) i")
    case None
    with Cons.IH show ?thesis by (simp add: Map_get_after_delete)
  next
    case (Some t)
    then have "t_id t = i" by (rule Map_get_id)
    with Some Cons.IH show ?thesis by (simp add: Map_get_after_delete)
  qed
qed

lemma hydratedTemplates_after_delete:
  "hydratedTemplates (filter (\<lambda>t. t_id t \<noteq> tid) ts) item
     = filter (\<lambda>t. t_id t \<noteq> tid) (hydratedTemplates ts item)"
proof (cases "referencedTemplates item")
  case None
  then show ?thesis by (simp add: hydratedTemplates_def)
next
  case (Some ids)
  show ?thesis
    unfolding hydratedTemplates_def Let_def Some option.case
    by (rule hydrate_after_delete)
qed

lemma filter_commute: "filter P (filter Q xs) = filter Q (filter P xs)"
  by (induction xs) auto

text \<open>
  C10. Deleting a template keeps, in order, exactly the templates with another identifier,
  and rewrites the templates store with them. When the templates store held the
  write-through of the templates before the deletion, as the hook keeps it, the store
  after the deletion is the store before it without the records carrying the deleted
  identifier: every other stored template is still stored, unchanged and in its place.
  Bundles, history and settings are unchanged in memory and in storage, so a bundle still
  lists the deleted identifier. Wherever references are resolved against the templates
  (the bundle matches of the resolver, the templates listed for a selected bundle, the
  templates hydrated for a history record) the result after the deletion is the result
  before it without the records carrying the deleted identifier.
\<close>

theorem deleteTemplate_frame:
  "let st' = deleteTemplate template st
   in templates st' = filter (\<lambda>t. t_id t \<noteq> t_id template) (templates st)
      \<and> (\<forall>t\<in>set (templates st). t_id t \<noteq> t_id template \<longrightarrow> t \<in> set (templates st'))
      \<and> (\<forall>t\<in>set (templates st'). t \<in> set (templates st) \<and> t_id t \<noteq> t_id template)
      \<and> db_templates st' = setStoreData t_id (templates st')
      \<and> bundles st' = bundles st \<and> db_bundles st' = db_bundles st
      \<and> history st' = history st \<and> db_history st' = db_history st
      \<and> settings st' = settings st \<and> db_settings st' = db_settings st
      \<and> (\<forall>selectedBundles.
            templatesFromBundles (templates st') selectedBundles
              = filter (\<lambda>t. t_id t \<noteq> t_id template)
                  (templatesFromBundles (templates st) selectedBundles))
      \<and> (\<forall>bundle.
            templatesForBundle (templates st') bundle
              = filter (\<lambda>t. t_id t \<noteq> t_id template) (templatesForBundle (templates st) bundle))
      \<and> (\<forall>item.
            hydratedTemplates (templates st') item
              = filter (\<lambda>t. t_id t \<noteq> t_id template) (hydratedTemplates (templates st) item))
      \<and> (db_templates st = setStoreData t_id (templates st) \<longrightarrow>
            db_templates st' = filter (\<lambda>t. t_id t \<noteq> t_id template) (db_templates st)
            \<and> (\<forall>t\<in>set (db_templates st).
                  t_id t \<noteq> t_id template \<longrightarrow> t \<in> set (db_templates st'))
            \<and> (\<forall>t\<in>set (db_templates st').
                  t \<in> set (db_templates st) \<and> t_id t \<noteq> t_id template))"
proof -
  let ?st' = "deleteTemplate template st"
  have t: "templates ?st' = filter (\<lambda>t. t_id t \<noteq> t_id template) (templates st)"
    by (simp add: deleteTemplate_def showToast_fields setTemplates_fields)
  have d: "db_templates ?st' = setStoreData t_id (templates ?st')"
    by (simp add: deleteTemplate_def showToast_fields setTemplates_fields)
  have frame: "bundles ?st' = bundles st" "db_bundles ?st' = db_bundles st"
    "history ?st' = history st" "db_history ?st' = db_history st"
    "settings ?st' = settings st" "db_settings ?st' = db_settings st"
    by (simp_all add: deleteTemplate_def showToast_fields setTemplates_fields)
  have k: "\<forall>t\<in>set (templates st). t_id t \<noteq> t_id template \<longrightarrow> t \<in> set (templates ?st')"
    unfolding t by simp
  have g: "\<forall>t\<in>set (templates ?st'). t \<in> set (templates st) \<and> t_id t \<noteq> t_id template"
    unfolding t by simp
  have r1: "\<forall>selectedBundles.
      templatesFromBundles (templates ?st') selectedBundles
        = filter (\<lambda>t. t_id t \<noteq> t_id template)
            (templatesFromBundles (templates st) selectedBundles)"
    unfolding t templatesFromBundles_def by (intro allI filter_commute)
  have r2: "\<forall>bundle.
      templatesForBundle (templates ?st') bundle
        = filter (\<lambda>t. t_id t \<noteq> t_id template) (templatesForBundle (templates st) bundle)"
    unfolding t templatesForBundle_def by (intro allI filter_commute)
  have r3: "\<forall>item.
      hydratedTemplates (templates ?st') item
        = filter (\<lambda>t. t_id t \<noteq> t_id template) (hydratedTemplates (templates st) item)"
    unfolding t by (intro allI hydratedTemplates_after_delete)
  have s: "db_templates st = setStoreData t_id (templates st) \<longrightarrow>
      db_templates ?st' = filter (\<lambda>t. t_id t \<noteq> t_id template) (db_templates st)
      \<and> (\<forall>t\<in>set (db_templates st). t_id t \<noteq> t_id template \<longrightarrow> t \<in> set (db_templates ?st'))
      \<and> (\<forall>t\<in>set (db_templates ?st'). t \<in> set (db_templates st) \<and> t_id t \<noteq> t_id template)"
  proof
    assume a: "db_templates st = setStoreData t_id (templates st)"
    have e: "db_templates ?st' = filter (\<lambda>t. t_id t \<noteq> t_id template) (db_templates st)"
      unfolding d t a by (rule setStoreData_filter)
    show "db_templates ?st' = filter (\<lambda>t. t_id t \<noteq> t_id template) (db_templates st)
      \<and> (\<forall>t\<in>set (db_templates st). t_id t \<noteq> t_id template \<longrightarrow> t \<in> set (db_templates ?st'))
      \<and> (\<forall>t\<in>set (db_templates ?st'). t \<in> set (db_templates st) \<and> t_id t \<noteq> t_id template)"
      unfolding e by simp
  qed
  from t k g d frame r1 r2 r3 s show ?thesis unfolding Let_def by (intro conjI)
qed

text \<open>
  C10 on the deletion of the template \<^verbatim>\<open>a\<close>, which a bundle and a history record refer
  to.
\<close>

theorem deleteTemplate_frame_witness:
  "templates (deleteTemplate ex_tA ex_st) = [ex_tB, ex_tC]
   \<and> bundles (deleteTemplate ex_tA ex_st) = [ex_bundle]
   \<and> templateIds ex_bundle = [''a'', ''b'', ''gone'']
   \<and> history (deleteTemplate ex_tA ex_st) = history ex_st
   \<and> templatesForBundle (templates (deleteTemplate ex_tA ex_st)) ex_bundle = [ex_tB]
   \<and> hydratedTemplates (templates (deleteTemplate ex_tA ex_st)) ex_item = [ex_tB]
   \<and> db_templates ex_st = [ex_tA, ex_tB, ex_tC]
   \<and> db_templates (deleteTemplate ex_tA ex_st) = [ex_tB, ex_tC]"
proof -
  note T = deleteTemplate_frame [of ex_tA ex_st, unfolded Let_def]
  have ids: "t_id ex_tA = ''a''" "t_id ex_tB = ''b''" "t_id ex_tC = ''c''"
    by (simp_all add: ex_tA_def ex_tB_def ex_tC_def)
  have ts: "templates ex_st = [ex_tA, ex_tB, ex_tC]" and bs: "bundles ex_st = [ex_bundle]"
    and ds: "db_templates ex_st = [ex_tA, ex_tB, ex_tC]"
    by (simp_all add: ex_st_def)
  have synced: "db_templates ex_st = setStoreData t_id (templates ex_st)"
    unfolding ts ds by (simp add: setStoreData_def store_put_def ids)
  from T have "templates (deleteTemplate ex_tA ex_st)
      = filter (\<lambda>t. t_id t \<noteq> t_id ex_tA) (templates ex_st)"
    by (elim conjE)
  then have 1: "templates (deleteTemplate ex_tA ex_st) = [ex_tB, ex_tC]"
    by (simp add: ts ids)
  from T have "bundles (deleteTemplate ex_tA ex_st) = bundles ex_st"
    by (elim conjE)
  then have 2: "bundles (deleteTemplate ex_tA ex_st) = [ex_bundle]"
    by (simp add: bs)
  have 3: "templateIds ex_bundle = [''a'', ''b'', ''gone'']"
    by (simp add: ex_bundle_def)
  from T have 4: "history (deleteTemplate ex_tA ex_st) = history ex_st"
    by (elim conjE)
  from T have "\<forall>bundle. templatesForBundle (templates (deleteTemplate ex_tA ex_st)) bundle
      = filter (\<lambda>t. t_id t \<noteq> t_id ex_tA) (templatesForBundle (templates ex_st) bundle)"
    by (elim conjE)
  then have "templatesForBundle (templates (deleteTemplate ex_tA ex_st)) ex_bundle
      = filter (\<lambda>t. t_id t \<noteq> t_id ex_tA) (templatesForBundle (templates ex_st) ex_bundle)"
    by (rule spec)
  moreover have "templatesForBundle (templates ex_st) ex_bundle = [ex_tA, ex_tB]"
    by (simp add: templatesForBundle_def ts ids 3)
  ultimately have 5: "templatesForBundle (templates (deleteTemplate ex_tA ex_st)) ex_bundle = [ex_tB]"
    by (simp add: ids)
  from T have "\<forall>item. hydratedTemplates (templates (deleteTemplate ex_tA ex_st)) item
      = filter (\<lambda>t. t_id t \<noteq> t_id ex_tA) (hydratedTemplates (templates ex_st) item)"
    by (elim conjE)
  then have "hydratedTemplates (templates (deleteTemplate ex_tA ex_st)) ex_item
      = filter (\<lambda>t. t_id t \<noteq> t_id ex_tA) (hydratedTemplates (templates ex_st) ex_item)"
    by (rule spec)
  moreover have "hydratedTemplates (templates ex_st) ex_item = [ex_tA, ex_tB]"
    by (simp add: hydratedTemplates_def Let_def ts ids ex_item_def Map_get_def new_Map_def
        Map_set_def)
  ultimately have 6: "hydratedTemplates (templates (deleteTemplate ex_tA ex_st)) ex_item = [ex_tB]"
    by (simp add: ids)
  from T have "db_templates ex_st = setStoreData t_id (templates ex_st) \<longrightarrow>
      db_templates (deleteTemplate ex_tA ex_st)
        = filter (\<lambda>t. t_id t \<noteq> t_id ex_tA) (db_templates ex_st)
      \<and> (\<forall>t\<in>set (db_templates ex_st).
            t_id t \<noteq> t_id ex_tA \<longrightarrow> t \<in> set (db_templates (deleteTemplate ex_tA ex_st)))
      \<and> (\<forall>t\<in>set (db_templates (deleteTemplate ex_tA ex_st)).
            t \<in> set (db_templates ex_st) \<and> t_id t \<noteq> t_id ex_tA)"
    by (elim conjE)
  from this [rule_format, OF synced, THEN conjunct1]
  have 7: "db_templates (deleteTemplate ex_tA ex_st) = [ex_tB, ex_tC]"
    by (simp add: ds ids)
  from 1 2 3 4 5 6 ds 7 show ?thesis by (intro conjI)
qed

end
